theory Spec2Isabelle
  imports Main
begin

section \<open>Attendance reconciliation core: data model\<close>

text \<open>
  The client side is \<^verbatim>\<open>src/app/(dashboard)/attendance/page.tsx\<close>, the server side is the
  route handler \<^verbatim>\<open>POST\<close> of \<^verbatim>\<open>/api/attendance/save\<close>. Identifiers are strings, as in
  the TypeScript; a value of type \<^verbatim>\<open>string | null\<close> (or an optional field) is a
  \<open>string option\<close>. JavaScript truthiness of such a value (\<^verbatim>\<open>if (x)\<close>, \<^verbatim>\<open>x ? a : b\<close>,
  \<^verbatim>\<open>!x\<close>) is \<open>truthy\<close>: neither null nor the empty string. The nullish operator
  \<^verbatim>\<open>a ?? b\<close> is \<open>nullish\<close>: it falls through on null only, not on the empty string.
\<close>

type_synonym ident = string

definition truthy :: "string option \<Rightarrow> bool" where
  "truthy x = (case x of None \<Rightarrow> False | Some s \<Rightarrow> s \<noteq> [])"

definition nullish :: "'a option \<Rightarrow> 'a option \<Rightarrow> 'a option" where
  "nullish a b = (case a of Some x \<Rightarrow> Some x | None \<Rightarrow> b)"

text \<open>
  \<^verbatim>\<open>Attendance["status"]\<close> is declared in \<^verbatim>\<open>@/types/database\<close>; its values are the three
  that \<^verbatim>\<open>MEMBER_STATUS_ACTIONS\<close> and \<^verbatim>\<open>computeSummary\<close> enumerate. A member's unset status
  is \<^verbatim>\<open>null\<close>.
\<close>

datatype status = Present | Apology | Absent

record MemberAttendanceEntry =
  attendanceId_m :: "ident option"
  status_m :: "status option"

record GuestAttendanceEntry =
  attendanceId_g :: "ident option"
  attended_g :: bool

type_synonym PipelinerAttendanceEntry = GuestAttendanceEntry

text \<open>
  \<^verbatim>\<open>AttendanceUpsertInput\<close> on the client, and the element type of
  \<^verbatim>\<open>AttendancePayload["upserts"]\<close> on the server. An absent optional field is \<open>None\<close>.
\<close>

record AttendanceUpsertInput =
  upsert_id :: "ident option"
  upsert_meeting_id :: string
  upsert_status :: status
  upsert_member_id :: "ident option"
  upsert_guest_id :: "ident option"
  upsert_pipeliner_id :: "ident option"

text \<open>A row of a server answer (\<^verbatim>\<open>UpsertRow\<close>, the elements of \<^verbatim>\<open>records\<close>).\<close>

record UpsertRow =
  row_id :: ident
  row_member_id :: "ident option"
  row_guest_id :: "ident option"
  row_pipeliner_id :: "ident option"
  row_status :: status

text \<open>
  The entries of the lists \<^verbatim>\<open>members\<close>, \<^verbatim>\<open>guests\<close> and \<^verbatim>\<open>pipelinerEligibility\<close>: the page
  reads their \<^verbatim>\<open>id\<close> and \<^verbatim>\<open>full_name\<close> only.
\<close>

record subject =
  subject_id :: ident
  full_name :: string

datatype toast = ToastNoChanges | ToastRecorded | ToastError string

text \<open>
  The state of \<^verbatim>\<open>AttendancePage\<close>: the React state variables and refs that the ledger, the
  diff, the merge and the autosave effect read or write. \<^verbatim>\<open>autoSaveTimer\<close> is \<open>True\<close> while a
  timeout is pending. The text of the toasts is left out; their kind is kept.
\<close>

record page_state =
  selectedMeetingId :: string
  members :: "subject list"
  guests :: "subject list"
  pipelinerEligibility :: "subject list"
  memberAttendance :: "ident \<rightharpoonup> MemberAttendanceEntry"
  guestAttendance :: "ident \<rightharpoonup> GuestAttendanceEntry"
  pipelinerAttendance :: "ident \<rightharpoonup> PipelinerAttendanceEntry"
  memberInitialRef :: "ident \<rightharpoonup> MemberAttendanceEntry"
  guestInitialRef :: "ident \<rightharpoonup> GuestAttendanceEntry"
  pipelinerInitialRef :: "ident \<rightharpoonup> PipelinerAttendanceEntry"
  saving :: bool
  saveError :: "string option"
  errorRecords :: "string list"
  autoSaveScheduled :: bool
  autoSaveTimer :: bool
  attendanceError :: "string option"
  toasts :: "toast list"

section \<open>Ledger reads\<close>

text \<open>
  \<^verbatim>\<open>memberAttendance[id] ?? { attendanceId: null, status: null }\<close> and its siblings: the
  current and the baseline entry of a subject, with the default of the source.
\<close>

definition memberDefault :: MemberAttendanceEntry where
  "memberDefault = \<lparr>attendanceId_m = None, status_m = None\<rparr>"

definition guestDefault :: GuestAttendanceEntry where
  "guestDefault = \<lparr>attendanceId_g = None, attended_g = False\<rparr>"

definition orDefault :: "'a option \<Rightarrow> 'a \<Rightarrow> 'a" where
  "orDefault x d = (case x of Some e \<Rightarrow> e | None \<Rightarrow> d)"

definition memberCurrent :: "page_state \<Rightarrow> ident \<Rightarrow> MemberAttendanceEntry" where
  "memberCurrent st i = orDefault (memberAttendance st i) memberDefault"

definition memberInitial :: "page_state \<Rightarrow> ident \<Rightarrow> MemberAttendanceEntry" where
  "memberInitial st i = orDefault (memberInitialRef st i) memberDefault"

definition guestCurrent :: "page_state \<Rightarrow> ident \<Rightarrow> GuestAttendanceEntry" where
  "guestCurrent st i = orDefault (guestAttendance st i) guestDefault"

definition guestInitial :: "page_state \<Rightarrow> ident \<Rightarrow> GuestAttendanceEntry" where
  "guestInitial st i = orDefault (guestInitialRef st i) guestDefault"

definition pipelinerCurrent :: "page_state \<Rightarrow> ident \<Rightarrow> PipelinerAttendanceEntry" where
  "pipelinerCurrent st i = orDefault (pipelinerAttendance st i) guestDefault"

definition pipelinerInitial :: "page_state \<Rightarrow> ident \<Rightarrow> PipelinerAttendanceEntry" where
  "pipelinerInitial st i = orDefault (pipelinerInitialRef st i) guestDefault"

text \<open>
  Dirtiness as the page computes it (the \<^verbatim>\<open>dirty\<close> flag of the member rows and the bodies
  of \<^verbatim>\<open>hasUnsavedMemberChanges\<close>, \<^verbatim>\<open>hasUnsavedGuestChanges\<close>, \<^verbatim>\<open>hasUnsavedPipelinerChanges\<close>).
\<close>

definition memberDirty :: "page_state \<Rightarrow> ident \<Rightarrow> bool" where
  "memberDirty st i = (status_m (memberCurrent st i) \<noteq> status_m (memberInitial st i))"

definition guestDirty :: "page_state \<Rightarrow> ident \<Rightarrow> bool" where
  "guestDirty st i = (attended_g (guestCurrent st i) \<noteq> attended_g (guestInitial st i))"

definition pipelinerDirty :: "page_state \<Rightarrow> ident \<Rightarrow> bool" where
  "pipelinerDirty st i =
     (attended_g (pipelinerCurrent st i) \<noteq> attended_g (pipelinerInitial st i))"

definition hasUnsavedChanges :: "page_state \<Rightarrow> bool" where
  "hasUnsavedChanges st =
     (list_ex (\<lambda>m. memberDirty st (subject_id m)) (members st) \<or>
      list_ex (\<lambda>g. guestDirty st (subject_id g)) (guests st) \<or>
      list_ex (\<lambda>p. pipelinerDirty st (subject_id p)) (pipelinerEligibility st))"

section \<open>Diff computed by saveAttendance\<close>

text \<open>
  The three loops of \<^verbatim>\<open>saveAttendance\<close> push onto \<^verbatim>\<open>memberUpserts\<close>, \<^verbatim>\<open>guestUpserts\<close>,
  \<^verbatim>\<open>pipelinerUpserts\<close>, the shared \<^verbatim>\<open>deletions\<close> and the name lists. One iteration is a step
  on the triple (upserts of that kind, deletions, names of that kind); a loop is the
  \<open>fold\<close> of its step over the list.
\<close>

type_synonym diff_acc = "AttendanceUpsertInput list \<times> ident list \<times> string list"

definition memberDiffStep :: "page_state \<Rightarrow> subject \<Rightarrow> diff_acc \<Rightarrow> diff_acc" where
  "memberDiffStep st member acc =
     (case acc of (ups, dels, names) \<Rightarrow>
       (let current = memberCurrent st (subject_id member);
            initial = memberInitial st (subject_id member);
            currentStatus = status_m current;
            initialStatus = status_m initial
        in if currentStatus = initialStatus then (ups, dels, names)
           else
             (let attendanceId = nullish (attendanceId_m current) (attendanceId_m initial)
              in case currentStatus of
                   Some s \<Rightarrow>
                     (ups @ [\<lparr>upsert_id = attendanceId,
                              upsert_meeting_id = selectedMeetingId st,
                              upsert_status = s,
                              upsert_member_id = Some (subject_id member),
                              upsert_guest_id = None,
                              upsert_pipeliner_id = None\<rparr>],
                      dels, names @ [full_name member])
                 | None \<Rightarrow>
                     (if truthy (attendanceId_m initial)
                      then (ups, dels @ [the (attendanceId_m initial)],
                            names @ [full_name member])
                      else (ups, dels, names @ [full_name member])))))"

definition guestDiffStep :: "page_state \<Rightarrow> subject \<Rightarrow> diff_acc \<Rightarrow> diff_acc" where
  "guestDiffStep st guest acc =
     (case acc of (ups, dels, names) \<Rightarrow>
       (let current = guestCurrent st (subject_id guest);
            initial = guestInitial st (subject_id guest)
        in if attended_g current = attended_g initial then (ups, dels, names)
           else
             (let attendanceId = nullish (attendanceId_g current) (attendanceId_g initial)
              in if attended_g current
                 then (ups @ [\<lparr>upsert_id = attendanceId,
                               upsert_meeting_id = selectedMeetingId st,
                               upsert_status = Present,
                               upsert_member_id = None,
                               upsert_guest_id = Some (subject_id guest),
                               upsert_pipeliner_id = None\<rparr>],
                       dels, names @ [full_name guest])
                 else if truthy (attendanceId_g initial)
                 then (ups, dels @ [the (attendanceId_g initial)],
                       names @ [full_name guest])
                 else (ups, dels, names @ [full_name guest]))))"

definition pipelinerDiffStep :: "page_state \<Rightarrow> subject \<Rightarrow> diff_acc \<Rightarrow> diff_acc" where
  "pipelinerDiffStep st pipeliner acc =
     (case acc of (ups, dels, names) \<Rightarrow>
       (let current = pipelinerCurrent st (subject_id pipeliner);
            initial = pipelinerInitial st (subject_id pipeliner)
        in if attended_g current = attended_g initial then (ups, dels, names)
           else
             (let attendanceId = nullish (attendanceId_g current) (attendanceId_g initial)
              in if attended_g current
                 then (ups @ [\<lparr>upsert_id = attendanceId,
                               upsert_meeting_id = selectedMeetingId st,
                               upsert_status = Present,
                               upsert_member_id = None,
                               upsert_guest_id = None,
                               upsert_pipeliner_id = Some (subject_id pipeliner)\<rparr>],
                       dels, names @ [full_name pipeliner])
                 else if truthy (attendanceId_g initial)
                 then (ups, dels @ [the (attendanceId_g initial)],
                       names @ [full_name pipeliner])
                 else (ups, dels, names @ [full_name pipeliner]))))"

text \<open>
  The result of the three loops: \<^verbatim>\<open>upserts = [...memberUpserts, ...guestUpserts,
  ...pipelinerUpserts]\<close>, the \<^verbatim>\<open>deletions\<close> in push order, and the names later used as
  \<^verbatim>\<open>impacted\<close>.
\<close>

definition saveAttendance_diff ::
  "page_state \<Rightarrow> AttendanceUpsertInput list \<times> ident list \<times> string list" where
  "saveAttendance_diff st =
     (case fold (memberDiffStep st) (members st) ([], [], []) of
        (memberUpserts, dels1, memberNames) \<Rightarrow>
     (case fold (guestDiffStep st) (guests st) ([], dels1, []) of
        (guestUpserts, dels2, guestNames) \<Rightarrow>
     (case fold (pipelinerDiffStep st) (pipelinerEligibility st) ([], dels2, []) of
        (pipelinerUpserts, deletions, pipelinerNames) \<Rightarrow>
       (memberUpserts @ guestUpserts @ pipelinerUpserts,
        deletions,
        memberNames @ guestNames @ pipelinerNames))))"

text \<open>What one iteration emits: the step run on empty accumulators.\<close>

definition memberEmits :: "page_state \<Rightarrow> subject \<Rightarrow> diff_acc" where
  "memberEmits st member = memberDiffStep st member ([], [], [])"

definition guestEmits :: "page_state \<Rightarrow> subject \<Rightarrow> diff_acc" where
  "guestEmits st guest = guestDiffStep st guest ([], [], [])"

definition pipelinerEmits :: "page_state \<Rightarrow> subject \<Rightarrow> diff_acc" where
  "pipelinerEmits st pipeliner = pipelinerDiffStep st pipeliner ([], [], [])"

definition emittedUpserts :: "diff_acc \<Rightarrow> AttendanceUpsertInput list" where
  "emittedUpserts acc = fst acc"

definition emittedDeletions :: "diff_acc \<Rightarrow> ident list" where
  "emittedDeletions acc = fst (snd acc)"

definition emittedNames :: "diff_acc \<Rightarrow> string list" where
  "emittedNames acc = snd (snd acc)"

section \<open>Edits\<close>

text \<open>
  The handlers behind the controls. \<^verbatim>\<open>ref[id]?.attendanceId ?? null\<close> is
  \<open>Option.bind (ref id) attendanceId\<close>.
\<close>

definition handleMemberStatusChange ::
  "ident \<Rightarrow> status option \<Rightarrow> page_state \<Rightarrow> page_state" where
  "handleMemberStatusChange memberId nextStatus st =
     (let existing =
            orDefault (nullish (memberAttendance st memberId) (memberInitialRef st memberId))
              memberDefault
      in st\<lparr>memberAttendance := (memberAttendance st)(memberId \<mapsto>
             \<lparr>attendanceId_m =
                nullish (attendanceId_m existing)
                  (Option.bind (memberInitialRef st memberId) attendanceId_m),
              status_m = nextStatus\<rparr>)\<rparr>)"

definition markPresentStep ::
  "(ident \<rightharpoonup> MemberAttendanceEntry) \<Rightarrow> subject \<Rightarrow>
   (ident \<rightharpoonup> MemberAttendanceEntry) \<Rightarrow> (ident \<rightharpoonup> MemberAttendanceEntry)" where
  "markPresentStep ref member next =
     (let existing =
            orDefault (nullish (next (subject_id member)) (ref (subject_id member)))
              memberDefault
      in next(subject_id member \<mapsto>
           \<lparr>attendanceId_m =
              nullish (attendanceId_m existing)
                (Option.bind (ref (subject_id member)) attendanceId_m),
            status_m = Some Present\<rparr>))"

definition handleMarkAllPresent :: "page_state \<Rightarrow> page_state" where
  "handleMarkAllPresent st =
     st\<lparr>memberAttendance :=
          fold (markPresentStep (memberInitialRef st)) (members st) (memberAttendance st)\<rparr>"

definition handleGuestToggle :: "ident \<Rightarrow> bool \<Rightarrow> page_state \<Rightarrow> page_state" where
  "handleGuestToggle guestId attended st =
     (let existing =
            orDefault (nullish (guestAttendance st guestId) (guestInitialRef st guestId))
              guestDefault
      in st\<lparr>guestAttendance := (guestAttendance st)(guestId \<mapsto>
             \<lparr>attendanceId_g =
                nullish (attendanceId_g existing)
                  (Option.bind (guestInitialRef st guestId) attendanceId_g),
              attended_g = attended\<rparr>)\<rparr>)"

definition handlePipelinerToggle :: "ident \<Rightarrow> bool \<Rightarrow> page_state \<Rightarrow> page_state" where
  "handlePipelinerToggle pipelinerId attended st =
     (let existing =
            orDefault
              (nullish (pipelinerAttendance st pipelinerId) (pipelinerInitialRef st pipelinerId))
              guestDefault
      in st\<lparr>pipelinerAttendance := (pipelinerAttendance st)(pipelinerId \<mapsto>
             \<lparr>attendanceId_g =
                nullish (attendanceId_g existing)
                  (Option.bind (pipelinerInitialRef st pipelinerId) attendanceId_g),
              attended_g = attended\<rparr>)\<rparr>)"

section \<open>Loading the baseline\<close>

text \<open>
  A value that was thrown: an \<^verbatim>\<open>Error\<close> with its message, or something that is not an
  \<^verbatim>\<open>Error\<close>. \<^verbatim>\<open>error instanceof Error ? error.message : fallback\<close> is \<open>thrownMessage\<close>.
\<close>

datatype thrown = ErrorObject string | NonError

definition thrownMessage :: "thrown \<Rightarrow> string \<Rightarrow> string" where
  "thrownMessage t fallback = (case t of ErrorObject m \<Rightarrow> m | NonError \<Rightarrow> fallback)"

text \<open>The \<^verbatim>\<open>snapshot...Attendance\<close> functions copy a map entry by entry.\<close>

definition snapshotMemberAttendance ::
  "(ident \<rightharpoonup> MemberAttendanceEntry) \<Rightarrow> (ident \<rightharpoonup> MemberAttendanceEntry)" where
  "snapshotMemberAttendance m =
     (\<lambda>i. map_option (\<lambda>entry. \<lparr>attendanceId_m = attendanceId_m entry,
                                  status_m = status_m entry\<rparr>) (m i))"

definition snapshotGuestAttendance ::
  "(ident \<rightharpoonup> GuestAttendanceEntry) \<Rightarrow> (ident \<rightharpoonup> GuestAttendanceEntry)" where
  "snapshotGuestAttendance m =
     (\<lambda>i. map_option (\<lambda>entry. \<lparr>attendanceId_g = attendanceId_g entry,
                                  attended_g = attended_g entry\<rparr>) (m i))"

definition snapshotPipelinerAttendance ::
  "(ident \<rightharpoonup> PipelinerAttendanceEntry) \<Rightarrow> (ident \<rightharpoonup> PipelinerAttendanceEntry)" where
  "snapshotPipelinerAttendance m =
     (\<lambda>i. map_option (\<lambda>entry. \<lparr>attendanceId_g = attendanceId_g entry,
                                  attended_g = attended_g entry\<rparr>) (m i))"

type_synonym ledger_maps =
  "(ident \<rightharpoonup> MemberAttendanceEntry) \<times> (ident \<rightharpoonup> GuestAttendanceEntry) \<times>
   (ident \<rightharpoonup> PipelinerAttendanceEntry)"

text \<open>
  One iteration of the loop of \<^verbatim>\<open>loadAttendance\<close> over the rows read for the meeting
  (columns \<^verbatim>\<open>id, member_id, guest_id, pipeliner_id, status\<close>).
\<close>

definition loadRowStep :: "UpsertRow \<Rightarrow> ledger_maps \<Rightarrow> ledger_maps" where
  "loadRowStep row maps =
     (case maps of (memberMap, guestMap, pipelinerMap) \<Rightarrow>
        if truthy (row_member_id row)
        then (memberMap(the (row_member_id row) \<mapsto>
                \<lparr>attendanceId_m = Some (row_id row), status_m = Some (row_status row)\<rparr>),
              guestMap, pipelinerMap)
        else if truthy (row_guest_id row)
        then (memberMap,
              guestMap(the (row_guest_id row) \<mapsto>
                \<lparr>attendanceId_g = Some (row_id row),
                 attended_g = (row_status row = Present)\<rparr>),
              pipelinerMap)
        else if truthy (row_pipeliner_id row)
        then (memberMap, guestMap,
              pipelinerMap(the (row_pipeliner_id row) \<mapsto>
                \<lparr>attendanceId_g = Some (row_id row),
                 attended_g = (row_status row = Present)\<rparr>))
        else (memberMap, guestMap, pipelinerMap))"

text \<open>
  \<^verbatim>\<open>loadAttendance\<close>, given what the query returned: \<open>Inl\<close> the error that is thrown, \<open>Inr\<close>
  the \<^verbatim>\<open>data\<close> (null is \<open>None\<close>). The \<^verbatim>\<open>attendanceLoading\<close> flag is left out.
\<close>

definition loadAttendance ::
  "bool \<Rightarrow> thrown + UpsertRow list option \<Rightarrow> page_state \<Rightarrow> page_state" where
  "loadAttendance silently result st =
     (if selectedMeetingId st = []
      then st\<lparr>memberAttendance := Map.empty, guestAttendance := Map.empty,
              pipelinerAttendance := Map.empty, memberInitialRef := Map.empty,
              guestInitialRef := Map.empty, pipelinerInitialRef := Map.empty\<rparr>
      else
        (let st1 = (if \<not> silently then st\<lparr>attendanceError := None\<rparr> else st)
         in case result of
              Inl e \<Rightarrow>
                st1\<lparr>attendanceError :=
                      Some (thrownMessage e
                        ''Unable to load attendance data for this meeting.'')\<rparr>
            | Inr data \<Rightarrow>
                (case fold loadRowStep (orDefault data []) (Map.empty, Map.empty, Map.empty) of
                   (memberMap, guestMap, pipelinerMap) \<Rightarrow>
                     st1\<lparr>memberAttendance := memberMap,
                          memberInitialRef := snapshotMemberAttendance memberMap,
                          guestAttendance := guestMap,
                          guestInitialRef := snapshotGuestAttendance guestMap,
                          pipelinerAttendance := pipelinerMap,
                          pipelinerInitialRef := snapshotPipelinerAttendance pipelinerMap\<rparr>)))"

section \<open>Saving: request, reply, merge\<close>

text \<open>
  The body sent to \<^verbatim>\<open>/api/attendance/save\<close> (its \<^verbatim>\<open>meetingType\<close> is not read by the
  server and is left out), and what the running \<^verbatim>\<open>saveAttendance\<close> call keeps in its
  closure while it awaits the reply: the \<^verbatim>\<open>auto\<close> option, the three lists and the names.
\<close>

record save_request =
  req_meetingId :: string
  req_upserts :: "AttendanceUpsertInput list"
  req_deletions :: "ident list"

record pending_save =
  pending_auto :: bool
  pending_request :: save_request
  pending_members :: "subject list"
  pending_guests :: "subject list"
  pending_pipeliners :: "subject list"
  pending_impacted :: "string list"

text \<open>
  \<^verbatim>\<open>saveAttendance\<close> up to the \<^verbatim>\<open>fetch\<close>: the new state, and the request if one is issued.
\<close>

definition saveAttendance :: "bool \<Rightarrow> page_state \<Rightarrow> page_state \<times> pending_save option" where
  "saveAttendance auto st =
     (if selectedMeetingId st = [] \<or> saving st then (st, None)
      else
        (case saveAttendance_diff st of (upserts, deletions, impacted) \<Rightarrow>
           if upserts = [] \<and> deletions = []
           then ((if \<not> auto then st\<lparr>toasts := toasts st @ [ToastNoChanges]\<rparr> else st), None)
           else
             (st\<lparr>saving := True, saveError := None, errorRecords := [],
                 autoSaveScheduled := False\<rparr>,
              Some \<lparr>pending_auto = auto,
                    pending_request =
                      \<lparr>req_meetingId = selectedMeetingId st, req_upserts = upserts,
                       req_deletions = deletions\<rparr>,
                    pending_members = members st,
                    pending_guests = guests st,
                    pending_pipeliners = pipelinerEligibility st,
                    pending_impacted = impacted\<rparr>)))"

text \<open>
  \<^verbatim>\<open>SaveAttendanceResponse\<close>, and the three ways the awaited \<^verbatim>\<open>fetch\<close> can end: it (or the
  parse of the body) throws; the response is not \<^verbatim>\<open>ok\<close>, with \<^verbatim>\<open>errorPayload?.error\<close>; the
  response is \<^verbatim>\<open>ok\<close> with the parsed body.
\<close>

record SaveAttendanceResponse =
  success :: bool
  records :: "UpsertRow list"
  deletedIds :: "ident list"
  error :: "string option"

datatype fetch_outcome =
    FetchThrows thrown
  | ResponseNotOk "string option"
  | ResponseOk SaveAttendanceResponse

text \<open>
  The reconciliation merge: the three state updaters of the success branch. Each rebuilds
  its map from the list the call captured, then files the records of the reply. The
  pipeliner updater runs the same loop as the guest updater, on the pipeliner map.
\<close>

definition mergeMemberStep ::
  "ident list \<Rightarrow> (ident \<rightharpoonup> MemberAttendanceEntry) \<Rightarrow> (ident \<rightharpoonup> MemberAttendanceEntry) \<Rightarrow>
   subject \<Rightarrow> (ident \<rightharpoonup> MemberAttendanceEntry) \<Rightarrow> (ident \<rightharpoonup> MemberAttendanceEntry)" where
  "mergeMemberStep deletionSet prev ref member next =
     (let existing =
            orDefault (nullish (prev (subject_id member)) (ref (subject_id member)))
              memberDefault;
          attendanceId =
            (if truthy (attendanceId_m existing) \<and>
                the (attendanceId_m existing) \<in> set deletionSet
             then None else attendanceId_m existing)
      in next(subject_id member \<mapsto>
           \<lparr>attendanceId_m = attendanceId, status_m = status_m existing\<rparr>))"

definition mergeMemberRecord ::
  "UpsertRow \<Rightarrow> (ident \<rightharpoonup> MemberAttendanceEntry) \<Rightarrow> (ident \<rightharpoonup> MemberAttendanceEntry)" where
  "mergeMemberRecord record next =
     (if truthy (row_member_id record)
      then next(the (row_member_id record) \<mapsto>
             \<lparr>attendanceId_m = Some (row_id record), status_m = Some (row_status record)\<rparr>)
      else next)"

definition mergeGuestStep ::
  "ident list \<Rightarrow> (ident \<rightharpoonup> GuestAttendanceEntry) \<Rightarrow> (ident \<rightharpoonup> GuestAttendanceEntry) \<Rightarrow>
   subject \<Rightarrow> (ident \<rightharpoonup> GuestAttendanceEntry) \<Rightarrow> (ident \<rightharpoonup> GuestAttendanceEntry)" where
  "mergeGuestStep deletionSet prev ref guest next =
     (let existing =
            orDefault (nullish (prev (subject_id guest)) (ref (subject_id guest)))
              guestDefault;
          attendanceId =
            (if truthy (attendanceId_g existing) \<and>
                the (attendanceId_g existing) \<in> set deletionSet
             then None else attendanceId_g existing)
      in next(subject_id guest \<mapsto>
           \<lparr>attendanceId_g = attendanceId, attended_g = attended_g existing\<rparr>))"

definition mergeGuestRecord ::
  "UpsertRow \<Rightarrow> (ident \<rightharpoonup> GuestAttendanceEntry) \<Rightarrow> (ident \<rightharpoonup> GuestAttendanceEntry)" where
  "mergeGuestRecord record next =
     (if truthy (row_guest_id record)
      then next(the (row_guest_id record) \<mapsto>
             \<lparr>attendanceId_g = Some (row_id record),
              attended_g = (row_status record = Present)\<rparr>)
      else next)"

definition mergePipelinerRecord ::
  "UpsertRow \<Rightarrow> (ident \<rightharpoonup> PipelinerAttendanceEntry) \<Rightarrow>
   (ident \<rightharpoonup> PipelinerAttendanceEntry)" where
  "mergePipelinerRecord record next =
     (if truthy (row_pipeliner_id record)
      then next(the (row_pipeliner_id record) \<mapsto>
             \<lparr>attendanceId_g = Some (row_id record),
              attended_g = (row_status record = Present)\<rparr>)
      else next)"

definition mergeResponse ::
  "pending_save \<Rightarrow> SaveAttendanceResponse \<Rightarrow> page_state \<Rightarrow> page_state" where
  "mergeResponse p result st =
     (let deletionSet = deletedIds result;
          nextMembers =
            fold mergeMemberRecord (records result)
              (fold (mergeMemberStep deletionSet (memberAttendance st) (memberInitialRef st))
                 (pending_members p) Map.empty);
          nextGuests =
            fold mergeGuestRecord (records result)
              (fold (mergeGuestStep deletionSet (guestAttendance st) (guestInitialRef st))
                 (pending_guests p) Map.empty);
          nextPipeliners =
            fold mergePipelinerRecord (records result)
              (fold (mergeGuestStep deletionSet (pipelinerAttendance st)
                       (pipelinerInitialRef st))
                 (pending_pipeliners p) Map.empty)
      in st\<lparr>memberAttendance := nextMembers,
             memberInitialRef := snapshotMemberAttendance nextMembers,
             guestAttendance := nextGuests,
             guestInitialRef := snapshotGuestAttendance nextGuests,
             pipelinerAttendance := nextPipeliners,
             pipelinerInitialRef := snapshotPipelinerAttendance nextPipeliners\<rparr>)"

text \<open>The \<^verbatim>\<open>catch\<close> branch of \<^verbatim>\<open>saveAttendance\<close>.\<close>

definition saveFailed :: "pending_save \<Rightarrow> thrown \<Rightarrow> page_state \<Rightarrow> page_state" where
  "saveFailed p e st =
     (let message = thrownMessage e ''Unable to save attendance changes.''
      in st\<lparr>saveError := Some message, errorRecords := pending_impacted p,
             toasts := toasts st @ [ToastError message]\<rparr>)"

text \<open>
  \<^verbatim>\<open>saveAttendance\<close> from the reply on: the \<^verbatim>\<open>try\<close> body after the \<^verbatim>\<open>fetch\<close>, the \<^verbatim>\<open>catch\<close>
  and the \<^verbatim>\<open>finally\<close>. The silent reloads of the guest and pipeliner lists after the merge
  are left out (they catch their own errors and do not touch the ledger maps).
\<close>

definition saveAttendance_settle ::
  "pending_save \<Rightarrow> fetch_outcome \<Rightarrow> page_state \<Rightarrow> page_state" where
  "saveAttendance_settle p outcome st =
     (let st1 =
        (case outcome of
           FetchThrows e \<Rightarrow> saveFailed p e st
         | ResponseNotOk payloadError \<Rightarrow>
             saveFailed p
               (ErrorObject (orDefault payloadError ''Failed to save attendance records.'')) st
         | ResponseOk result \<Rightarrow>
             if \<not> success result
             then saveFailed p
                    (ErrorObject (orDefault (error result) ''Attendance save failed.'')) st
             else
               (let merged = mergeResponse p result st
                in if \<not> pending_auto p
                   then merged\<lparr>toasts := toasts merged @ [ToastRecorded]\<rparr>
                   else merged))
      in st1\<lparr>saving := False\<rparr>)"

section \<open>Autosave scheduling and the events of the page\<close>

text \<open>
  The autosave effect: it clears the pending timeout, then either reports that nothing is
  scheduled or arms a new timeout of \<^verbatim>\<open>AUTO_SAVE_DELAY\<close>. React runs it after a render in
  which \<^verbatim>\<open>selectedMeetingId\<close>, \<^verbatim>\<open>hasUnsavedChanges\<close>, \<^verbatim>\<open>saving\<close> or \<^verbatim>\<open>saveAttendance\<close>
  changed; \<^verbatim>\<open>saveAttendance\<close> changes whenever one of the attendance maps, the lists or
  \<^verbatim>\<open>saving\<close> does.
\<close>

definition autosaveEffect :: "page_state \<Rightarrow> page_state" where
  "autosaveEffect st =
     (let st1 = st\<lparr>autoSaveTimer := False\<rparr>
      in if selectedMeetingId st = [] \<or> \<not> hasUnsavedChanges st \<or> saving st
         then st1\<lparr>autoSaveScheduled := False\<rparr>
         else st1\<lparr>autoSaveScheduled := True, autoSaveTimer := True\<rparr>)"

text \<open>
  The page with the requests it has issued and not yet seen answered. The meeting stays
  selected and the three lists stay as they are: a change of meeting and the reloads of
  the lists are not among the events. An event is one
  turn of the single thread: a click on an enabled control, the timeout firing, a reply
  arriving, the attendance rows arriving. A control whose \<^verbatim>\<open>disabled\<close> attribute is set
  does not call its handler. After an event that changed a dependency of the autosave
  effect, the effect runs.

  \<open>step\<close> describes the schedules in which React has rendered the state an event wrote
  before the next event is handled: the guards and \<^verbatim>\<open>saveAttendance\<close> then read the state
  as it is. An event handled before that render meets the handlers and the \<^verbatim>\<open>disabled\<close>
  attributes of the previous render; \<open>turn_step\<close> below keeps the two apart.
\<close>

record system =
  page :: page_state
  inflight :: "pending_save list"

datatype event =
    MemberStatusClick ident "status option"
  | MarkAllPresentClick
  | GuestToggleClick ident bool
  | PipelinerToggleClick ident bool
  | SaveClick
  | AutoSaveTimeout
  | SaveReply fetch_outcome
  | AttendanceLoaded bool "thrown + UpsertRow list option"

text \<open>\<^verbatim>\<open>disabled={!selectedMeetingId || saving}\<close> on every attendance control.\<close>

definition controlsDisabled :: "page_state \<Rightarrow> bool" where
  "controlsDisabled st = (selectedMeetingId st = [] \<or> saving st)"

definition markAllDisabled :: "page_state \<Rightarrow> bool" where
  "markAllDisabled st = (selectedMeetingId st = [] \<or> members st = [] \<or> saving st)"

definition saveButtonDisabled :: "page_state \<Rightarrow> bool" where
  "saveButtonDisabled st = (selectedMeetingId st = [] \<or> \<not> hasUnsavedChanges st \<or> saving st)"

text \<open>
  Calling \<^verbatim>\<open>saveAttendance\<close>: a request that is issued joins the requests in flight, and
  \<^verbatim>\<open>saving\<close> changed, so the effect runs; a call that returns early changes none of the
  effect's dependencies.
\<close>

definition callSave :: "bool \<Rightarrow> system \<Rightarrow> system" where
  "callSave auto sys =
     (case saveAttendance auto (page sys) of
        (st, None) \<Rightarrow> sys\<lparr>page := st\<rparr>
      | (st, Some p) \<Rightarrow> sys\<lparr>page := autosaveEffect st, inflight := inflight sys @ [p]\<rparr>)"

fun step :: "event \<Rightarrow> system \<Rightarrow> system" where
  "step (MemberStatusClick memberId nextStatus) sys =
     (if controlsDisabled (page sys) then sys
      else sys\<lparr>page := autosaveEffect (handleMemberStatusChange memberId nextStatus (page sys))\<rparr>)"
| "step MarkAllPresentClick sys =
     (if markAllDisabled (page sys) then sys
      else sys\<lparr>page := autosaveEffect (handleMarkAllPresent (page sys))\<rparr>)"
| "step (GuestToggleClick guestId attended) sys =
     (if controlsDisabled (page sys) then sys
      else sys\<lparr>page := autosaveEffect (handleGuestToggle guestId attended (page sys))\<rparr>)"
| "step (PipelinerToggleClick pipelinerId attended) sys =
     (if controlsDisabled (page sys) then sys
      else sys\<lparr>page :=
             autosaveEffect (handlePipelinerToggle pipelinerId attended (page sys))\<rparr>)"
| "step SaveClick sys =
     (if saveButtonDisabled (page sys) then sys else callSave False sys)"
| "step AutoSaveTimeout sys =
     (if \<not> autoSaveTimer (page sys) then sys
      else callSave True
             (sys\<lparr>page := (page sys)\<lparr>autoSaveTimer := False, autoSaveScheduled := False\<rparr>\<rparr>))"
| "step (SaveReply outcome) sys =
     (case inflight sys of
        [] \<Rightarrow> sys
      | p # rest \<Rightarrow>
          sys\<lparr>page := autosaveEffect (saveAttendance_settle p outcome (page sys)),
              inflight := rest\<rparr>)"
| "step (AttendanceLoaded silently result) sys =
     sys\<lparr>page := autosaveEffect (loadAttendance silently result (page sys))\<rparr>"

definition run :: "event list \<Rightarrow> system \<Rightarrow> system" where
  "run events sys = fold step events sys"

text \<open>
  What the scheduler relies on: a request is in flight exactly while \<^verbatim>\<open>saving\<close> is set, and
  then no timeout is pending.
\<close>

definition save_guard_inv :: "system \<Rightarrow> bool" where
  "save_guard_inv sys =
     (length (inflight sys) = (if saving (page sys) then 1 else 0) \<and>
      (saving (page sys) \<longrightarrow> \<not> autoSaveTimer (page sys)))"

section \<open>The page between two renders\<close>

text \<open>
  A state setter of React queues its update; the component function runs again later
  (the render), and only that run builds new handlers and new \<^verbatim>\<open>disabled\<close> attributes.
  \<^verbatim>\<open>saveAttendance\<close> is a \<^verbatim>\<open>useCallback\<close> over \<^verbatim>\<open>saving\<close>, \<^verbatim>\<open>selectedMeetingId\<close>, the three
  attendance maps and the lists: the function that a click or the timeout calls is the
  one of the last render, and it reads the values of these variables in that render.
  The refs (\<^verbatim>\<open>memberInitialRef\<close>, \<^verbatim>\<open>guestInitialRef\<close>, \<^verbatim>\<open>pipelinerInitialRef\<close>, \<^verbatim>\<open>autoSaveTimer\<close>)
  and the toasts are not state: they are read and written at once. The edit handlers
  and the merge use functional updates (\<^verbatim>\<open>setMemberAttendance((prev) => ...)\<close>), which
  receive the state with every earlier update applied; the model applies such an
  update where it is queued, and React applies the queue in the same order.

  \<open>live\<close> is the state with every update applied, together with the refs; \<open>rendered\<close>
  is the state that the last render saw.
\<close>

record browser =
  live :: page_state
  rendered :: page_state
  requests :: "pending_save list"

text \<open>What \<^verbatim>\<open>saveAttendance\<close> of the last render reads when it is called now.\<close>

definition closure_view :: "browser \<Rightarrow> page_state" where
  "closure_view w =
     (rendered w)
       \<lparr>memberInitialRef := memberInitialRef (live w),
        guestInitialRef := guestInitialRef (live w),
        pipelinerInitialRef := pipelinerInitialRef (live w),
        autoSaveTimer := autoSaveTimer (live w),
        toasts := toasts (live w)\<rparr>"

text \<open>
  A call of that \<^verbatim>\<open>saveAttendance\<close>. A call that returns early sets no state (it may show
  the toast); a call that issues the request has called \<^verbatim>\<open>setSaving(true)\<close>,
  \<^verbatim>\<open>setSaveError(null)\<close>, \<^verbatim>\<open>setErrorRecords([])\<close> and \<^verbatim>\<open>setAutoSaveScheduled(false)\<close>, and
  these four updates reach \<open>live\<close>.
\<close>

definition callRenderedSave :: "bool \<Rightarrow> browser \<Rightarrow> browser" where
  "callRenderedSave auto w =
     (case saveAttendance auto (closure_view w) of
        (st, None) \<Rightarrow> w\<lparr>live := (live w)\<lparr>toasts := toasts st\<rparr>\<rparr>
      | (st, Some p) \<Rightarrow>
          w\<lparr>live := (live w)\<lparr>saving := saving st, saveError := saveError st,
                               errorRecords := errorRecords st,
                               autoSaveScheduled := autoSaveScheduled st,
                               toasts := toasts st\<rparr>,
            requests := requests w @ [p]\<rparr>)"

text \<open>
  A turn of the single thread is an event being handled, or React rendering. A click
  reaches its handler when the \<^verbatim>\<open>disabled\<close> attribute that the last render gave the
  control is not set. The timeout runs the callback that the effect of the last render
  armed. A render shows the state as it is and runs the autosave effect (a run with
  unchanged dependencies would arm the same timeout again). React chooses when to
  render: the updates made in the callback of a timeout or after an \<^verbatim>\<open>await\<close> are
  rendered in a later task, so an event that the browser dispatches before that task
  is handled first. The turns leave the moment of a render open.
\<close>

datatype turn = Handle event | Render

fun turn_step :: "turn \<Rightarrow> browser \<Rightarrow> browser" where
  "turn_step (Handle (MemberStatusClick memberId nextStatus)) w =
     (if controlsDisabled (rendered w) then w
      else w\<lparr>live := handleMemberStatusChange memberId nextStatus (live w)\<rparr>)"
| "turn_step (Handle MarkAllPresentClick) w =
     (if markAllDisabled (rendered w) then w
      else w\<lparr>live := handleMarkAllPresent (live w)\<rparr>)"
| "turn_step (Handle (GuestToggleClick guestId attended)) w =
     (if controlsDisabled (rendered w) then w
      else w\<lparr>live := handleGuestToggle guestId attended (live w)\<rparr>)"
| "turn_step (Handle (PipelinerToggleClick pipelinerId attended)) w =
     (if controlsDisabled (rendered w) then w
      else w\<lparr>live := handlePipelinerToggle pipelinerId attended (live w)\<rparr>)"
| "turn_step (Handle SaveClick) w =
     (if saveButtonDisabled (rendered w) then w else callRenderedSave False w)"
| "turn_step (Handle AutoSaveTimeout) w =
     (if \<not> autoSaveTimer (live w) then w
      else callRenderedSave True
             (w\<lparr>live := (live w)\<lparr>autoSaveTimer := False, autoSaveScheduled := False\<rparr>\<rparr>))"
| "turn_step (Handle (SaveReply outcome)) w =
     (case requests w of
        [] \<Rightarrow> w
      | p # rest \<Rightarrow> w\<lparr>live := saveAttendance_settle p outcome (live w), requests := rest\<rparr>)"
| "turn_step (Handle (AttendanceLoaded silently result)) w =
     w\<lparr>live := loadAttendance silently result (live w)\<rparr>"
| "turn_step Render w =
     w\<lparr>live := autosaveEffect (live w), rendered := autosaveEffect (live w)\<rparr>"

definition run_turns :: "turn list \<Rightarrow> browser \<Rightarrow> browser" where
  "run_turns turns w = fold turn_step turns w"

section \<open>The route handler: configuration, payload, reply\<close>

text \<open>The environment variables the handler reads; an unset variable is \<open>None\<close>.\<close>

record environment =
  SUPABASE_DB_URL :: "string option"
  DATABASE_URL :: "string option"
  NEXT_PUBLIC_SUPABASE_URL :: "string option"
  NEXT_PUBLIC_SUPABASE_ANON_KEY :: "string option"
  SUPABASE_SERVICE_ROLE_KEY :: "string option"
  SUPABASE_SERVICE_KEY :: "string option"
  SUPABASE_SECRET_KEY :: "string option"
  SUPABASE_SERVICE_TOKEN :: "string option"

definition getConnectionString :: "environment \<Rightarrow> string option" where
  "getConnectionString env = nullish (SUPABASE_DB_URL env) (DATABASE_URL env)"

definition getServiceRoleKey :: "environment \<Rightarrow> string option" where
  "getServiceRoleKey env =
     nullish (SUPABASE_SERVICE_ROLE_KEY env)
       (nullish (SUPABASE_SERVICE_KEY env)
          (nullish (SUPABASE_SECRET_KEY env) (SUPABASE_SERVICE_TOKEN env)))"

definition hasSupabaseServiceConfiguration :: "environment \<Rightarrow> bool" where
  "hasSupabaseServiceConfiguration env =
     (truthy (NEXT_PUBLIC_SUPABASE_URL env) \<and> truthy (getServiceRoleKey env))"

text \<open>
  \<^verbatim>\<open>AttendancePayload\<close> as it arrives: a field that is absent, or (for the two lists) not an
  array, is \<open>None\<close>. \<^verbatim>\<open>meetingType\<close> is never read.
\<close>

record AttendancePayload =
  meetingId :: "string option"
  payload_upserts :: "AttendanceUpsertInput list option"
  payload_deletions :: "ident list option"

text \<open>
  The JSON body of an answer, each key present or not, and the answer: a JSON response
  with its status code, or an exception that leaves the handler.
\<close>

record reply_body =
  body_success :: bool
  body_records :: "UpsertRow list option"
  body_deletedIds :: "ident list option"
  body_error :: "string option"

datatype reply = Json nat reply_body | Unhandled thrown

definition success_reply :: "UpsertRow list \<Rightarrow> ident list \<Rightarrow> reply" where
  "success_reply rows dels =
     Json 200 \<lparr>body_success = True, body_records = Some rows, body_deletedIds = Some dels,
               body_error = None\<rparr>"

definition error_reply :: "nat \<Rightarrow> string \<Rightarrow> reply" where
  "error_reply code message =
     Json code \<lparr>body_success = False, body_records = None, body_deletedIds = None,
                body_error = Some message\<rparr>"

section \<open>The backing store\<close>

text \<open>
  The \<^verbatim>\<open>attendance\<close> table, keyed by its primary key \<^verbatim>\<open>id\<close>. Identifiers are opaque
  strings: the model does not parse UUID text, and keeps the primary key as the table's
  only constraint; any other way a statement can fail at run time (a lost connection, a
  cast, another constraint) is a fault that the caller of the model injects.
\<close>

record attendance =
  att_meeting_id :: string
  att_member_id :: "ident option"
  att_guest_id :: "ident option"
  att_pipeliner_id :: "ident option"
  att_status :: status

type_synonym attendance_table = "ident \<rightharpoonup> attendance"

datatype tier = DirectConnection | ServiceClient | SessionClient

datatype statement =
    Begin
  | DeleteWhereIdAny "ident list"
  | InsertOnConflict "AttendanceUpsertInput list"
  | Commit
  | Rollback

text \<open>
  Everything the handler can do to the store: on the \<^verbatim>\<open>pg\<close> pool (take a connection, send
  a statement, release the connection) and through a Supabase client of the service or
  the session tier (\<^verbatim>\<open>delete().in("id", ...)\<close>, \<^verbatim>\<open>upsert(...).select(...)\<close>).
\<close>

datatype access =
    PoolConnect
  | Query statement
  | Release
  | ClientDelete tier "ident list"
  | ClientUpsert tier "AttendanceUpsertInput list"

fun access_tier :: "access \<Rightarrow> tier" where
  "access_tier PoolConnect = DirectConnection"
| "access_tier (Query q) = DirectConnection"
| "access_tier Release = DirectConnection"
| "access_tier (ClientDelete t ids) = t"
| "access_tier (ClientUpsert t rows) = t"

text \<open>
  The store: the committed table; the open transaction of the pooled connection, if
  any, with the table as that transaction sees it; the values \<^verbatim>\<open>gen_random_uuid()\<close> (or
  the column default) will return next; and the log of every access made, failed ones
  included.
\<close>

record backend =
  attendance_table :: attendance_table
  transaction :: "attendance_table option"
  entropy :: "nat \<Rightarrow> ident"
  access_log :: "access list"

type_synonym faults = "access \<Rightarrow> thrown option"

definition record_access :: "access \<Rightarrow> backend \<Rightarrow> backend" where
  "record_access a b = b\<lparr>access_log := access_log b @ [a]\<rparr>"

definition delete_ids :: "ident list \<Rightarrow> attendance_table \<Rightarrow> attendance_table" where
  "delete_ids ids t = (\<lambda>i. if i \<in> set ids then None else t i)"

text \<open>The table a statement on the connection reads, and where its writes go.\<close>

definition connection_view :: "backend \<Rightarrow> attendance_table" where
  "connection_view b = orDefault (transaction b) (attendance_table b)"

definition connection_write :: "attendance_table \<Rightarrow> backend \<Rightarrow> backend" where
  "connection_write t b =
     (case transaction b of
        Some w \<Rightarrow> b\<lparr>transaction := Some t\<rparr>
      | None \<Rightarrow> b\<lparr>attendance_table := t\<rparr>)"

text \<open>\<^verbatim>\<open>nullif(value->>'key', '')\<close>: an absent key, JSON null and the empty string give NULL.\<close>

definition nullif_empty :: "string option \<Rightarrow> string option" where
  "nullif_empty x = (case x of None \<Rightarrow> None | Some s \<Rightarrow> if s = [] then None else Some s)"

text \<open>
  The CTEs \<^verbatim>\<open>payload\<close> and \<^verbatim>\<open>normalized\<close>: every element gets its id, a generated one where
  the payload has none (\<^verbatim>\<open>coalesce(id, gen_random_uuid())\<close>).
\<close>

fun normalized ::
  "(nat \<Rightarrow> ident) \<Rightarrow> AttendanceUpsertInput list \<Rightarrow>
   (ident \<times> AttendanceUpsertInput) list \<times> (nat \<Rightarrow> ident)" where
  "normalized gen [] = ([], gen)"
| "normalized gen (v # vs) =
     (case nullif_empty (upsert_id v) of
        Some i \<Rightarrow>
          (case normalized gen vs of (rows, gen') \<Rightarrow> ((i, v) # rows, gen'))
      | None \<Rightarrow>
          (case normalized (\<lambda>n. gen (Suc n)) vs of (rows, gen') \<Rightarrow>
             ((gen 0, v) # rows, gen')))"

definition inserted_row :: "AttendanceUpsertInput \<Rightarrow> attendance" where
  "inserted_row v =
     \<lparr>att_meeting_id = upsert_meeting_id v,
      att_member_id = nullif_empty (upsert_member_id v),
      att_guest_id = nullif_empty (upsert_guest_id v),
      att_pipeliner_id = nullif_empty (upsert_pipeliner_id v),
      att_status = upsert_status v\<rparr>"

definition returning :: "ident \<Rightarrow> attendance \<Rightarrow> UpsertRow" where
  "returning i r =
     \<lparr>row_id = i, row_member_id = att_member_id r, row_guest_id = att_guest_id r,
      row_pipeliner_id = att_pipeliner_id r, row_status = att_status r\<rparr>"

text \<open>
  \<^verbatim>\<open>insert ... on conflict (id) do update set status = excluded.status returning ...\<close> for
  one proposed row, and for all of them in order.
\<close>

definition upsert_one ::
  "ident \<Rightarrow> AttendanceUpsertInput \<Rightarrow> attendance_table \<Rightarrow> UpsertRow \<times> attendance_table" where
  "upsert_one i v t =
     (let r = (case t i of
                 Some old \<Rightarrow> old\<lparr>att_status := upsert_status v\<rparr>
               | None \<Rightarrow> inserted_row v)
      in (returning i r, t(i \<mapsto> r)))"

fun insert_on_conflict ::
  "(ident \<times> AttendanceUpsertInput) list \<Rightarrow> attendance_table \<Rightarrow>
   UpsertRow list \<times> attendance_table" where
  "insert_on_conflict [] t = ([], t)"
| "insert_on_conflict ((i, v) # rest) t =
     (case upsert_one i v t of (row, t1) \<Rightarrow>
        (case insert_on_conflict rest t1 of (rows, t2) \<Rightarrow> (row # rows, t2)))"

text \<open>
  The Supabase client's \<^verbatim>\<open>upsert(rows, { onConflict: "id" })\<close>, as its documentation
  describes it: insert, and where the id exists overwrite the row with the columns sent.
\<close>

definition client_row :: "AttendanceUpsertInput \<Rightarrow> attendance" where
  "client_row v =
     \<lparr>att_meeting_id = upsert_meeting_id v,
      att_member_id = upsert_member_id v,
      att_guest_id = upsert_guest_id v,
      att_pipeliner_id = upsert_pipeliner_id v,
      att_status = upsert_status v\<rparr>"

fun merge_duplicates ::
  "(ident \<times> AttendanceUpsertInput) list \<Rightarrow> attendance_table \<Rightarrow>
   UpsertRow list \<times> attendance_table" where
  "merge_duplicates [] t = ([], t)"
| "merge_duplicates ((i, v) # rest) t =
     (case merge_duplicates rest (t(i \<mapsto> client_row v)) of (rows, t2) \<Rightarrow>
        (returning i (client_row v) # rows, t2))"

definition cannot_affect_row_twice :: thrown where
  "cannot_affect_row_twice =
     ErrorObject ''ON CONFLICT DO UPDATE command cannot affect row a second time''"

section \<open>Tier 1: the transaction on the direct connection\<close>

definition pg_connect :: "faults \<Rightarrow> backend \<Rightarrow> thrown option \<times> backend" where
  "pg_connect f b = (f PoolConnect, record_access PoolConnect b)"

definition pg_begin :: "faults \<Rightarrow> backend \<Rightarrow> thrown option \<times> backend" where
  "pg_begin f b =
     (let b1 = record_access (Query Begin) b
      in case f (Query Begin) of
           Some e \<Rightarrow> (Some e, b1)
         | None \<Rightarrow>
             (None, (case transaction b1 of
                       None \<Rightarrow> b1\<lparr>transaction := Some (attendance_table b1)\<rparr>
                     | Some w \<Rightarrow> b1)))"

definition pg_delete :: "faults \<Rightarrow> ident list \<Rightarrow> backend \<Rightarrow> thrown option \<times> backend" where
  "pg_delete f deletions b =
     (let b1 = record_access (Query (DeleteWhereIdAny deletions)) b
      in case f (Query (DeleteWhereIdAny deletions)) of
           Some e \<Rightarrow> (Some e, b1)
         | None \<Rightarrow> (None, connection_write (delete_ids deletions (connection_view b1)) b1))"

definition pg_upsert ::
  "faults \<Rightarrow> AttendanceUpsertInput list \<Rightarrow> backend \<Rightarrow> (thrown + UpsertRow list) \<times> backend" where
  "pg_upsert f upserts b =
     (let b1 = record_access (Query (InsertOnConflict upserts)) b
      in case f (Query (InsertOnConflict upserts)) of
           Some e \<Rightarrow> (Inl e, b1)
         | None \<Rightarrow>
             (case normalized (entropy b1) upserts of (proposed, gen') \<Rightarrow>
                if \<not> distinct (map fst proposed)
                then (Inl cannot_affect_row_twice, b1\<lparr>entropy := gen'\<rparr>)
                else
                  (case insert_on_conflict proposed (connection_view b1) of (rows, t) \<Rightarrow>
                     (Inr rows, connection_write t (b1\<lparr>entropy := gen'\<rparr>)))))"

definition pg_commit :: "faults \<Rightarrow> backend \<Rightarrow> thrown option \<times> backend" where
  "pg_commit f b =
     (let b1 = record_access (Query Commit) b
      in case f (Query Commit) of
           Some e \<Rightarrow> (Some e, b1)
         | None \<Rightarrow>
             (None, (case transaction b1 of
                       Some w \<Rightarrow> b1\<lparr>attendance_table := w, transaction := None\<rparr>
                     | None \<Rightarrow> b1)))"

definition pg_rollback :: "faults \<Rightarrow> backend \<Rightarrow> thrown option \<times> backend" where
  "pg_rollback f b =
     (let b1 = record_access (Query Rollback) b
      in case f (Query Rollback) of
           Some e \<Rightarrow> (Some e, b1)
         | None \<Rightarrow> (None, b1\<lparr>transaction := None\<rparr>))"

text \<open>
  The \<^verbatim>\<open>try\<close> block of the first branch of \<^verbatim>\<open>POST\<close>: the rows to answer with or the
  exception, the store, and whether \<^verbatim>\<open>client\<close> was assigned.
\<close>

definition pg_try ::
  "faults \<Rightarrow> AttendanceUpsertInput list \<Rightarrow> ident list \<Rightarrow> backend \<Rightarrow>
   (thrown + UpsertRow list) \<times> backend \<times> bool" where
  "pg_try f upserts deletions b =
     (case pg_connect f b of
        (Some e, b1) \<Rightarrow> (Inl e, b1, False)
      | (None, b1) \<Rightarrow>
     (case pg_begin f b1 of
        (Some e, b2) \<Rightarrow> (Inl e, b2, True)
      | (None, b2) \<Rightarrow>
     (case (if deletions \<noteq> [] then pg_delete f deletions b2 else (None, b2)) of
        (Some e, b3) \<Rightarrow> (Inl e, b3, True)
      | (None, b3) \<Rightarrow>
     (case (if upserts \<noteq> [] then pg_upsert f upserts b3 else (Inr [], b3)) of
        (Inl e, b4) \<Rightarrow> (Inl e, b4, True)
      | (Inr upsertRows, b4) \<Rightarrow>
     (case pg_commit f b4 of
        (Some e, b5) \<Rightarrow> (Inl e, b5, True)
      | (None, b5) \<Rightarrow> (Inr upsertRows, b5, True))))))"

definition unexpected_error :: string where
  "unexpected_error = ''An unexpected error occurred while saving attendance.''"

text \<open>The first branch of \<^verbatim>\<open>POST\<close> with its \<^verbatim>\<open>catch\<close> and \<^verbatim>\<open>finally\<close>.\<close>

definition saveWithPool ::
  "faults \<Rightarrow> AttendanceUpsertInput list \<Rightarrow> ident list \<Rightarrow> backend \<Rightarrow> reply \<times> backend" where
  "saveWithPool f upserts deletions b =
     (case pg_try f upserts deletions b of
        (Inr upsertRows, b1, client) \<Rightarrow>
          (success_reply upsertRows deletions, record_access Release b1)
      | (Inl e, b1, client) \<Rightarrow>
          if client
          then (case pg_rollback f b1 of
                  (Some e2, b2) \<Rightarrow> (Unhandled e2, record_access Release b2)
                | (None, b2) \<Rightarrow>
                    (error_reply 500 (thrownMessage e unexpected_error),
                     record_access Release b2))
          else (error_reply 500 (thrownMessage e unexpected_error), b1))"

section \<open>Tiers 2 and 3: the Supabase clients\<close>

definition normalizeUpsertPayload ::
  "AttendanceUpsertInput list \<Rightarrow> AttendanceUpsertInput list" where
  "normalizeUpsertPayload upserts =
     map (\<lambda>entry. if truthy (upsert_id entry) then entry else entry\<lparr>upsert_id := None\<rparr>)
       upserts"

text \<open>
  \<^verbatim>\<open>saveAttendanceWithSupabaseClient\<close>: two separate calls, each applied to the table at
  once. A call that answers with an \<^verbatim>\<open>error\<close> has changed nothing, and the error is thrown.
\<close>

definition saveAttendanceWithSupabaseClient ::
  "tier \<Rightarrow> faults \<Rightarrow> AttendanceUpsertInput list \<Rightarrow> ident list \<Rightarrow> backend \<Rightarrow>
   (thrown + UpsertRow list \<times> ident list) \<times> backend" where
  "saveAttendanceWithSupabaseClient t f upserts deletions b =
     (let sanitizedUpserts = normalizeUpsertPayload upserts
      in
      case (if deletions \<noteq> []
            then (f (ClientDelete t deletions),
                  (let b1 = record_access (ClientDelete t deletions) b
                   in if f (ClientDelete t deletions) = None
                      then b1\<lparr>attendance_table := delete_ids deletions (attendance_table b1)\<rparr>
                      else b1))
            else (None, b)) of
        (Some deleteError, b1) \<Rightarrow> (Inl deleteError, b1)
      | (None, b1) \<Rightarrow>
          if sanitizedUpserts \<noteq> []
          then
            (let b2 = record_access (ClientUpsert t sanitizedUpserts) b1
             in case f (ClientUpsert t sanitizedUpserts) of
                  Some upsertError \<Rightarrow> (Inl upsertError, b2)
                | None \<Rightarrow>
                    (case normalized (entropy b2) sanitizedUpserts of (proposed, gen') \<Rightarrow>
                       if \<not> distinct (map fst proposed)
                       then (Inl cannot_affect_row_twice, b2\<lparr>entropy := gen'\<rparr>)
                       else
                         (case merge_duplicates proposed (attendance_table b2) of
                            (rows, table) \<Rightarrow>
                              (Inr (rows, deletions),
                               b2\<lparr>attendance_table := table, entropy := gen'\<rparr>))))
          else (Inr ([], deletions), b1))"

definition service_configuration_missing :: string where
  "service_configuration_missing =
     ''Supabase service role configuration is missing. Set NEXT_PUBLIC_SUPABASE_URL and SUPABASE_SERVICE_ROLE_KEY (or equivalent).''"

definition configuration_missing :: string where
  "configuration_missing =
     ''Supabase configuration is missing. Set NEXT_PUBLIC_SUPABASE_URL and NEXT_PUBLIC_SUPABASE_ANON_KEY.''"

definition saveWithSupabaseService ::
  "environment \<Rightarrow> faults \<Rightarrow> AttendanceUpsertInput list \<Rightarrow> ident list \<Rightarrow> backend \<Rightarrow>
   (thrown + UpsertRow list \<times> ident list) \<times> backend" where
  "saveWithSupabaseService env f upserts deletions b =
     (if \<not> truthy (NEXT_PUBLIC_SUPABASE_URL env) \<or> \<not> truthy (getServiceRoleKey env)
      then (Inl (ErrorObject service_configuration_missing), b)
      else saveAttendanceWithSupabaseClient ServiceClient f upserts deletions b)"

definition saveWithSupabaseAuthClient ::
  "environment \<Rightarrow> faults \<Rightarrow> AttendanceUpsertInput list \<Rightarrow> ident list \<Rightarrow> backend \<Rightarrow>
   (thrown + UpsertRow list \<times> ident list) \<times> backend" where
  "saveWithSupabaseAuthClient env f upserts deletions b =
     (if \<not> truthy (NEXT_PUBLIC_SUPABASE_URL env) \<or>
         \<not> truthy (NEXT_PUBLIC_SUPABASE_ANON_KEY env)
      then (Inl (ErrorObject configuration_missing), b)
      else saveAttendanceWithSupabaseClient SessionClient f upserts deletions b)"

section \<open>POST\<close>

definition not_configured :: string where
  "not_configured =
     ''Database access is not configured on the server. Set SUPABASE_DB_URL (or DATABASE_URL) or provide Supabase credentials.''"

definition POST ::
  "environment \<Rightarrow> faults \<Rightarrow> AttendancePayload option \<Rightarrow> backend \<Rightarrow> reply \<times> backend" where
  "POST env f payload b =
     (if \<not> truthy (Option.bind payload meetingId)
      then (error_reply 400 ''meetingId is required.'', b)
      else
        (let upserts = orDefault (Option.bind payload payload_upserts) [];
             deletions = orDefault (Option.bind payload payload_deletions) [];
             connectionString = getConnectionString env;
             hasServiceClient = hasSupabaseServiceConfiguration env
         in if truthy connectionString
            then saveWithPool f upserts deletions b
            else if hasServiceClient
            then (case saveWithSupabaseService env f upserts deletions b of
                    (Inr result, b1) \<Rightarrow> (success_reply (fst result) (snd result), b1)
                  | (Inl e, b1) \<Rightarrow> (error_reply 500 (thrownMessage e unexpected_error), b1))
            else (case saveWithSupabaseAuthClient env f upserts deletions b of
                    (Inr result, b1) \<Rightarrow> (success_reply (fst result) (snd result), b1)
                  | (Inl e, b1) \<Rightarrow> (error_reply 500 (thrownMessage e not_configured), b1))))"

text \<open>
  The branch of the if-chain of \<^verbatim>\<open>POST\<close> that a configuration leads to: the tests
  \<^verbatim>\<open>if (connectionString)\<close> and \<^verbatim>\<open>if (hasServiceClient)\<close>, in this order.
\<close>

definition dispatchedTier :: "environment \<Rightarrow> tier" where
  "dispatchedTier env =
     (if truthy (getConnectionString env) then DirectConnection
      else if hasSupabaseServiceConfiguration env then ServiceClient
      else SessionClient)"

text \<open>
  The tier that the design document names for a configuration, by what is configured: a
  direct connection is configured when one of the two connection-string variables has
  a value, the service client when the project URL and one of the four secret-key
  variables have a value. The preference order is direct connection, service client,
  session client. This definition follows the design document, not \<^verbatim>\<open>POST\<close>.
\<close>

definition connectionConfigured :: "environment \<Rightarrow> bool" where
  "connectionConfigured env = (truthy (SUPABASE_DB_URL env) \<or> truthy (DATABASE_URL env))"

definition serviceClientConfigured :: "environment \<Rightarrow> bool" where
  "serviceClientConfigured env =
     (truthy (NEXT_PUBLIC_SUPABASE_URL env) \<and>
      (truthy (SUPABASE_SERVICE_ROLE_KEY env) \<or> truthy (SUPABASE_SERVICE_KEY env) \<or>
       truthy (SUPABASE_SECRET_KEY env) \<or> truthy (SUPABASE_SERVICE_TOKEN env)))"

definition preferredTier :: "environment \<Rightarrow> tier" where
  "preferredTier env =
     (if connectionConfigured env then DirectConnection
      else if serviceClientConfigured env then ServiceClient
      else SessionClient)"

text \<open>
  \<^verbatim>\<open>a ?? b\<close> yields \<^verbatim>\<open>a\<close> whenever \<^verbatim>\<open>a\<close> is set, also when it is the empty string. No
  variable that stands before another one in a \<^verbatim>\<open>??\<close> chain of \<^verbatim>\<open>getConnectionString\<close> or
  \<^verbatim>\<open>getServiceRoleKey\<close> is set to the empty string:
\<close>

definition unmasked :: "environment \<Rightarrow> bool" where
  "unmasked env =
     (SUPABASE_DB_URL env \<noteq> Some [] \<and> SUPABASE_SERVICE_ROLE_KEY env \<noteq> Some [] \<and>
      SUPABASE_SERVICE_KEY env \<noteq> Some [] \<and> SUPABASE_SECRET_KEY env \<noteq> Some [])"

text \<open>
  The answer that the \<^verbatim>\<open>try\<close>/\<^verbatim>\<open>catch\<close> around a Supabase tier builds from what the tier's
  function returned or threw.
\<close>

definition client_answer ::
  "string \<Rightarrow> thrown + (UpsertRow list \<times> ident list) \<Rightarrow> reply" where
  "client_answer fallback r =
     (case r of
        Inr result \<Rightarrow> success_reply (fst result) (snd result)
      | Inl e \<Rightarrow> error_reply 500 (thrownMessage e fallback))"

text \<open>The accesses a call added to the log all go through one tier.\<close>

definition accesses_within :: "tier \<Rightarrow> backend \<Rightarrow> backend \<Rightarrow> bool" where
  "accesses_within t b b' =
     (take (length (access_log b)) (access_log b') = access_log b \<and>
      list_all (\<lambda>a. access_tier a = t) (drop (length (access_log b)) (access_log b')))"

section \<open>Example states\<close>

text \<open>A page with a meeting selected, no subjects and an empty ledger.\<close>

definition blank_page :: page_state where
  "blank_page =
     \<lparr>selectedMeetingId = ''meeting-1'', members = [], guests = [],
      pipelinerEligibility = [], memberAttendance = Map.empty, guestAttendance = Map.empty,
      pipelinerAttendance = Map.empty, memberInitialRef = Map.empty,
      guestInitialRef = Map.empty, pipelinerInitialRef = Map.empty, saving = False,
      saveError = None, errorRecords = [], autoSaveScheduled = False,
      autoSaveTimer = False, attendanceError = None, toasts = []\<rparr>"

definition person :: "ident \<Rightarrow> string \<Rightarrow> subject" where
  "person i n = \<lparr>subject_id = i, full_name = n\<rparr>"

text \<open>
  Three subjects of each kind: the first newly marked, the second untouched, the third
  cleared after having a persisted row.
\<close>

definition edited_page :: page_state where
  "edited_page =
     blank_page
       \<lparr>members := [person ''m1'' ''Ann'', person ''m2'' ''Ben'', person ''m3'' ''Cy''],
        guests := [person ''g1'' ''Dee'', person ''g2'' ''Eli'', person ''g3'' ''Flo''],
        pipelinerEligibility :=
          [person ''p1'' ''Gus'', person ''p2'' ''Hal'', person ''p3'' ''Ida''],
        memberInitialRef :=
          [''m2'' \<mapsto> \<lparr>attendanceId_m = Some ''a2'', status_m = Some Present\<rparr>,
           ''m3'' \<mapsto> \<lparr>attendanceId_m = Some ''a3'', status_m = Some Apology\<rparr>],
        memberAttendance :=
          [''m1'' \<mapsto> \<lparr>attendanceId_m = None, status_m = Some Absent\<rparr>,
           ''m2'' \<mapsto> \<lparr>attendanceId_m = Some ''a2'', status_m = Some Present\<rparr>,
           ''m3'' \<mapsto> \<lparr>attendanceId_m = Some ''a3'', status_m = None\<rparr>],
        guestInitialRef :=
          [''g2'' \<mapsto> \<lparr>attendanceId_g = Some ''a5'', attended_g = True\<rparr>,
           ''g3'' \<mapsto> \<lparr>attendanceId_g = Some ''a6'', attended_g = True\<rparr>],
        guestAttendance :=
          [''g1'' \<mapsto> \<lparr>attendanceId_g = None, attended_g = True\<rparr>,
           ''g2'' \<mapsto> \<lparr>attendanceId_g = Some ''a5'', attended_g = True\<rparr>,
           ''g3'' \<mapsto> \<lparr>attendanceId_g = Some ''a6'', attended_g = False\<rparr>],
        pipelinerInitialRef :=
          [''p2'' \<mapsto> \<lparr>attendanceId_g = Some ''a8'', attended_g = True\<rparr>,
           ''p3'' \<mapsto> \<lparr>attendanceId_g = Some ''a9'', attended_g = True\<rparr>],
        pipelinerAttendance :=
          [''p1'' \<mapsto> \<lparr>attendanceId_g = None, attended_g = True\<rparr>,
           ''p2'' \<mapsto> \<lparr>attendanceId_g = Some ''a8'', attended_g = True\<rparr>,
           ''p3'' \<mapsto> \<lparr>attendanceId_g = Some ''a9'', attended_g = False\<rparr>]\<rparr>"

text \<open>
  Two members and an empty ledger; Ann marked present; the save that this edit issues,
  and a reply that confirms it.
\<close>

definition two_members_page :: page_state where
  "two_members_page = blank_page\<lparr>members := [person ''m1'' ''Ann'', person ''m2'' ''Ben'']\<rparr>"

definition ann_marked :: page_state where
  "ann_marked = handleMemberStatusChange ''m1'' (Some Present) two_members_page"

definition ann_upsert :: AttendanceUpsertInput where
  "ann_upsert =
     \<lparr>upsert_id = None, upsert_meeting_id = ''meeting-1'', upsert_status = Present,
      upsert_member_id = Some ''m1'', upsert_guest_id = None, upsert_pipeliner_id = None\<rparr>"

definition ann_pending :: pending_save where
  "ann_pending =
     \<lparr>pending_auto = False,
      pending_request =
        \<lparr>req_meetingId = ''meeting-1'', req_upserts = [ann_upsert], req_deletions = []\<rparr>,
      pending_members = [person ''m1'' ''Ann'', person ''m2'' ''Ben''],
      pending_guests = [], pending_pipeliners = [], pending_impacted = [''Ann'']\<rparr>"

definition ann_saved :: SaveAttendanceResponse where
  "ann_saved =
     \<lparr>success = True,
      records = [\<lparr>row_id = ''r1'', row_member_id = Some ''m1'', row_guest_id = None,
                  row_pipeliner_id = None, row_status = Present\<rparr>],
      deletedIds = [], error = None\<rparr>"

text \<open>Ann's manual save in flight.\<close>

definition ann_saving :: page_state where
  "ann_saving = fst (saveAttendance False ann_marked)"

definition idle_system :: system where
  "idle_system = \<lparr>page = two_members_page, inflight = []\<rparr>"

text \<open>Subjects that a loaded row, or a record of a reply, is about.\<close>

definition row_covers_member :: "ident \<Rightarrow> UpsertRow \<Rightarrow> bool" where
  "row_covers_member i row = (truthy (row_member_id row) \<and> row_member_id row = Some i)"

definition row_covers_guest :: "ident \<Rightarrow> UpsertRow \<Rightarrow> bool" where
  "row_covers_guest i row =
     (\<not> truthy (row_member_id row) \<and> truthy (row_guest_id row) \<and> row_guest_id row = Some i)"

definition row_covers_pipeliner :: "ident \<Rightarrow> UpsertRow \<Rightarrow> bool" where
  "row_covers_pipeliner i row =
     (\<not> truthy (row_member_id row) \<and> \<not> truthy (row_guest_id row) \<and>
      truthy (row_pipeliner_id row) \<and> row_pipeliner_id row = Some i)"

definition member_entry_of :: "UpsertRow \<Rightarrow> MemberAttendanceEntry" where
  "member_entry_of row =
     \<lparr>attendanceId_m = Some (row_id row), status_m = Some (row_status row)\<rparr>"

definition guest_entry_of :: "UpsertRow \<Rightarrow> GuestAttendanceEntry" where
  "guest_entry_of row =
     \<lparr>attendanceId_g = Some (row_id row), attended_g = (row_status row = Present)\<rparr>"

definition outcome_failed :: "fetch_outcome \<Rightarrow> bool" where
  "outcome_failed outcome =
     (case outcome of
        FetchThrows e \<Rightarrow> True
      | ResponseNotOk payloadError \<Rightarrow> True
      | ResponseOk result \<Rightarrow> \<not> success result)"

text \<open>A persisted row for Ben, as a load would read it.\<close>

definition ben_row :: UpsertRow where
  "ben_row =
     \<lparr>row_id = ''r2'', row_member_id = Some ''m2'', row_guest_id = None,
      row_pipeliner_id = None, row_status = Apology\<rparr>"

text \<open>
  The merge files a record of a reply under each subject key it carries; the member key
  is the one a loaded row counts for.
\<close>

definition record_names_guest :: "ident \<Rightarrow> UpsertRow \<Rightarrow> bool" where
  "record_names_guest i record = (truthy (row_guest_id record) \<and> row_guest_id record = Some i)"

definition record_names_pipeliner :: "ident \<Rightarrow> UpsertRow \<Rightarrow> bool" where
  "record_names_pipeliner i record =
     (truthy (row_pipeliner_id record) \<and> row_pipeliner_id record = Some i)"

text \<open>
  The page as the browser holds it after a render: shown as it is, the effect run.
\<close>

definition shown :: "page_state \<Rightarrow> browser" where
  "shown st = \<lparr>live = autosaveEffect st, rendered = autosaveEffect st, requests = []\<rparr>"

text \<open>
  The automatic save that the timeout issues for \<open>edited_page\<close>, and a reply that
  confirms it: a record for each of the three upserts, and the three deleted ids.
\<close>

definition new_row :: "ident \<Rightarrow> ident option \<Rightarrow> ident option \<Rightarrow> ident option \<Rightarrow> status \<Rightarrow> AttendanceUpsertInput" where
  "new_row meeting member guest pipeliner s =
     \<lparr>upsert_id = None, upsert_meeting_id = meeting, upsert_status = s,
      upsert_member_id = member, upsert_guest_id = guest, upsert_pipeliner_id = pipeliner\<rparr>"

definition edited_pending :: pending_save where
  "edited_pending =
     \<lparr>pending_auto = True,
      pending_request =
        \<lparr>req_meetingId = ''meeting-1'',
         req_upserts =
           [new_row ''meeting-1'' (Some ''m1'') None None Absent,
            new_row ''meeting-1'' None (Some ''g1'') None Present,
            new_row ''meeting-1'' None None (Some ''p1'') Present],
         req_deletions = [''a3'', ''a6'', ''a9'']\<rparr>,
      pending_members = members edited_page,
      pending_guests = guests edited_page,
      pending_pipeliners = pipelinerEligibility edited_page,
      pending_impacted = [''Ann'', ''Cy'', ''Dee'', ''Flo'', ''Gus'', ''Ida'']\<rparr>"

definition saved_row :: "ident \<Rightarrow> ident option \<Rightarrow> ident option \<Rightarrow> ident option \<Rightarrow> status \<Rightarrow> UpsertRow" where
  "saved_row i member guest pipeliner s =
     \<lparr>row_id = i, row_member_id = member, row_guest_id = guest,
      row_pipeliner_id = pipeliner, row_status = s\<rparr>"

definition edited_saved :: SaveAttendanceResponse where
  "edited_saved =
     \<lparr>success = True,
      records =
        [saved_row ''r1'' (Some ''m1'') None None Absent,
         saved_row ''r4'' None (Some ''g1'') None Present,
         saved_row ''r7'' None None (Some ''p1'') Present],
      deletedIds = [''a3'', ''a6'', ''a9''], error = None\<rparr>"

text \<open>The timeout fires on \<open>edited_page\<close>; before React renders, Ben is marked absent.\<close>

definition edits_before_render :: "turn list" where
  "edits_before_render =
     [Handle AutoSaveTimeout, Handle (MemberStatusClick ''m2'' (Some Absent))]"

definition edited_meanwhile :: browser where
  "edited_meanwhile = run_turns edits_before_render (shown edited_page)"

text \<open>The diff and the dirtiness read the lists, the maps and the meeting only.\<close>

definition same_ledger :: "page_state \<Rightarrow> page_state \<Rightarrow> bool" where
  "same_ledger a b =
     (selectedMeetingId a = selectedMeetingId b \<and> members a = members b \<and>
      guests a = guests b \<and> pipelinerEligibility a = pipelinerEligibility b \<and>
      memberAttendance a = memberAttendance b \<and> guestAttendance a = guestAttendance b \<and>
      pipelinerAttendance a = pipelinerAttendance b \<and>
      memberInitialRef a = memberInitialRef b \<and> guestInitialRef a = guestInitialRef b \<and>
      pipelinerInitialRef a = pipelinerInitialRef b)"

text \<open>The system once Ann's manual save has been issued.\<close>

definition ann_in_flight :: system where
  "ann_in_flight = \<lparr>page = autosaveEffect ann_saving, inflight = [ann_pending]\<rparr>"

section \<open>Outcomes of a request, and example configurations\<close>

definition reply_succeeded :: "reply \<Rightarrow> bool" where
  "reply_succeeded r = (case r of Json code body \<Rightarrow> body_success body | Unhandled e \<Rightarrow> False)"

text \<open>
  The accesses a call made, and whether one of them (the release of the connection
  apart, which the model never lets fail) met an injected fault.
\<close>

definition accesses_made :: "backend \<Rightarrow> backend \<Rightarrow> access list" where
  "accesses_made b b' = drop (length (access_log b)) (access_log b')"

definition faulted :: "faults \<Rightarrow> backend \<Rightarrow> backend \<Rightarrow> bool" where
  "faulted f b b' = list_ex (\<lambda>a. a \<noteq> Release \<and> f a \<noteq> None) (accesses_made b b')"

text \<open>The lists a payload is read as, with \<^verbatim>\<open>Array.isArray(...) ? ... : []\<close>.\<close>

definition upserts_of :: "AttendancePayload option \<Rightarrow> AttendanceUpsertInput list" where
  "upserts_of payload = orDefault (Option.bind payload payload_upserts) []"

definition deletions_of :: "AttendancePayload option \<Rightarrow> ident list" where
  "deletions_of payload = orDefault (Option.bind payload payload_deletions) []"

text \<open>
  A step of the transaction that an injected fault makes fail: taking the connection,
  \<^verbatim>\<open>BEGIN\<close>, the \<^verbatim>\<open>DELETE\<close> (sent when there are deletions), the insert-or-update (sent when
  there are upserts), \<^verbatim>\<open>COMMIT\<close>.
\<close>

definition transaction_step_fails ::
  "faults \<Rightarrow> AttendanceUpsertInput list \<Rightarrow> ident list \<Rightarrow> bool" where
  "transaction_step_fails f upserts deletions =
     (f PoolConnect \<noteq> None \<or> f (Query Begin) \<noteq> None \<or>
      (deletions \<noteq> [] \<and> f (Query (DeleteWhereIdAny deletions)) \<noteq> None) \<or>
      (upserts \<noteq> [] \<and> f (Query (InsertOnConflict upserts)) \<noteq> None) \<or>
      f (Query Commit) \<noteq> None)"

definition no_environment :: environment where
  "no_environment =
     \<lparr>SUPABASE_DB_URL = None, DATABASE_URL = None, NEXT_PUBLIC_SUPABASE_URL = None,
      NEXT_PUBLIC_SUPABASE_ANON_KEY = None, SUPABASE_SERVICE_ROLE_KEY = None,
      SUPABASE_SERVICE_KEY = None, SUPABASE_SECRET_KEY = None,
      SUPABASE_SERVICE_TOKEN = None\<rparr>"

definition direct_environment :: environment where
  "direct_environment = no_environment\<lparr>DATABASE_URL := Some ''postgres://db/attendance''\<rparr>"

definition service_environment :: environment where
  "service_environment =
     no_environment\<lparr>NEXT_PUBLIC_SUPABASE_URL := Some ''https://project.supabase.co'',
                     SUPABASE_SERVICE_KEY := Some ''service-secret''\<rparr>"

definition session_environment :: environment where
  "session_environment =
     no_environment\<lparr>NEXT_PUBLIC_SUPABASE_URL := Some ''https://project.supabase.co'',
                     NEXT_PUBLIC_SUPABASE_ANON_KEY := Some ''anon-key''\<rparr>"

definition no_faults :: faults where
  "no_faults = (\<lambda>a. None)"

definition example_uuids :: "nat \<Rightarrow> ident" where
  "example_uuids n = ''uuid-'' @ replicate n (CHR ''i'')"

definition ben_attendance :: attendance where
  "ben_attendance =
     \<lparr>att_meeting_id = ''meeting-1'', att_member_id = Some ''m2'', att_guest_id = None,
      att_pipeliner_id = None, att_status = Apology\<rparr>"

text \<open>A store that holds Ben's row only, with no transaction open and an empty log.\<close>

definition example_store :: backend where
  "example_store =
     \<lparr>attendance_table = [''r2'' \<mapsto> ben_attendance], transaction = None,
      entropy = example_uuids, access_log = []\<rparr>"

text \<open>
  Payloads: one that creates a row for Ann (no id) and deletes an id that no row has; the
  same without a meeting; one that sets the status of Ben's row by its id.
\<close>

definition create_ann :: AttendancePayload where
  "create_ann =
     \<lparr>meetingId = Some ''meeting-1'', payload_upserts = Some [ann_upsert],
      payload_deletions = Some [''no-such-row'']\<rparr>"

definition ben_update :: AttendanceUpsertInput where
  "ben_update =
     \<lparr>upsert_id = Some ''r2'', upsert_meeting_id = ''meeting-1'', upsert_status = Present,
      upsert_member_id = Some ''m2'', upsert_guest_id = None, upsert_pipeliner_id = None\<rparr>"

definition update_ben :: AttendancePayload where
  "update_ben =
     \<lparr>meetingId = Some ''meeting-1'', payload_upserts = Some [ben_update],
      payload_deletions = Some [''no-such-row'']\<rparr>"

text \<open>A fault at one access, and none elsewhere.\<close>

definition fail_at :: "access \<Rightarrow> faults" where
  "fail_at a =
     (\<lambda>x. if x = a then Some (ErrorObject ''connection terminated unexpectedly'') else None)"

text \<open>A fault at each access of a list, and none elsewhere.\<close>

definition fail_at_each :: "access list \<Rightarrow> faults" where
  "fail_at_each as =
     (\<lambda>x. if x \<in> set as then Some (ErrorObject ''connection terminated unexpectedly'')
          else None)"

text \<open>
  A configuration with all three tiers configured, and one with the two Supabase clients
  configured.
\<close>

definition clients_environment :: environment where
  "clients_environment = service_environment\<lparr>NEXT_PUBLIC_SUPABASE_ANON_KEY := Some ''anon-key''\<rparr>"

definition all_tiers_environment :: environment where
  "all_tiers_environment =
     clients_environment\<lparr>DATABASE_URL := Some ''postgres://db/attendance''\<rparr>"

text \<open>
  A configuration with a connection string in \<^verbatim>\<open>DATABASE_URL\<close> and \<^verbatim>\<open>SUPABASE_DB_URL\<close> set
  to the empty string.
\<close>

definition masked_environment :: environment where
  "masked_environment = direct_environment\<lparr>SUPABASE_DB_URL := Some []\<rparr>"

text \<open>A payload that deletes Ben's row and creates a row for Ann.\<close>

definition swap_ben_for_ann :: AttendancePayload where
  "swap_ben_for_ann =
     \<lparr>meetingId = Some ''meeting-1'', payload_upserts = Some [ann_upsert],
      payload_deletions = Some [''r2'']\<rparr>"

text \<open>
  Turns of the page from two members and an empty ledger. Ann is marked present and the
  page is rendered, which arms the timeout; the timeout fires and issues the automatic
  save. Then, before React renders: either the operator clicks the save button, or Ben
  is marked absent. In the latter case the page is rendered afterwards, the reply that
  confirms Ann's row arrives, and the page is rendered again.
\<close>

definition ann_auto_pending :: pending_save where
  "ann_auto_pending = ann_pending\<lparr>pending_auto := True\<rparr>"

definition ann_autosaved :: "turn list" where
  "ann_autosaved =
     [Handle (MemberStatusClick ''m1'' (Some Present)), Render, Handle AutoSaveTimeout]"

definition save_clicked_before_render :: "turn list" where
  "save_clicked_before_render = ann_autosaved @ [Handle SaveClick]"

definition ben_marked_before_render :: "turn list" where
  "ben_marked_before_render = ann_autosaved @ [Handle (MemberStatusClick ''m2'' (Some Absent))]"

definition ann_reply_merged :: "turn list" where
  "ann_reply_merged =
     ben_marked_before_render @ [Render, Handle (SaveReply (ResponseOk ann_saved)), Render]"

section \<open>The diff is the concatenation of what each subject emits\<close>

lemma memberDiffStep_append:
  "memberDiffStep st m (ups, dels, names) =
     (ups @ emittedUpserts (memberEmits st m), dels @ emittedDeletions (memberEmits st m),
      names @ emittedNames (memberEmits st m))"
  by (simp add: memberDiffStep_def memberEmits_def emittedUpserts_def emittedDeletions_def
      emittedNames_def Let_def split: option.splits)

lemma guestDiffStep_append:
  "guestDiffStep st m (ups, dels, names) =
     (ups @ emittedUpserts (guestEmits st m), dels @ emittedDeletions (guestEmits st m),
      names @ emittedNames (guestEmits st m))"
  by (simp add: guestDiffStep_def guestEmits_def emittedUpserts_def emittedDeletions_def
      emittedNames_def Let_def)

lemma pipelinerDiffStep_append:
  "pipelinerDiffStep st m (ups, dels, names) =
     (ups @ emittedUpserts (pipelinerEmits st m), dels @ emittedDeletions (pipelinerEmits st m),
      names @ emittedNames (pipelinerEmits st m))"
  by (simp add: pipelinerDiffStep_def pipelinerEmits_def emittedUpserts_def emittedDeletions_def
      emittedNames_def Let_def)

lemma fold_memberDiffStep:
  "fold (memberDiffStep st) xs (ups, dels, names) =
     (ups @ concat (map (\<lambda>m. emittedUpserts (memberEmits st m)) xs),
      dels @ concat (map (\<lambda>m. emittedDeletions (memberEmits st m)) xs),
      names @ concat (map (\<lambda>m. emittedNames (memberEmits st m)) xs))"
proof (induction xs arbitrary: ups dels names)
  case Nil
  show ?case by simp
next
  case (Cons x xs)
  show ?case by (simp add: memberDiffStep_append [of st x ups dels names] Cons.IH)
qed

lemma fold_guestDiffStep:
  "fold (guestDiffStep st) xs (ups, dels, names) =
     (ups @ concat (map (\<lambda>m. emittedUpserts (guestEmits st m)) xs),
      dels @ concat (map (\<lambda>m. emittedDeletions (guestEmits st m)) xs),
      names @ concat (map (\<lambda>m. emittedNames (guestEmits st m)) xs))"
proof (induction xs arbitrary: ups dels names)
  case Nil
  show ?case by simp
next
  case (Cons x xs)
  show ?case by (simp add: guestDiffStep_append [of st x ups dels names] Cons.IH)
qed

lemma fold_pipelinerDiffStep:
  "fold (pipelinerDiffStep st) xs (ups, dels, names) =
     (ups @ concat (map (\<lambda>m. emittedUpserts (pipelinerEmits st m)) xs),
      dels @ concat (map (\<lambda>m. emittedDeletions (pipelinerEmits st m)) xs),
      names @ concat (map (\<lambda>m. emittedNames (pipelinerEmits st m)) xs))"
proof (induction xs arbitrary: ups dels names)
  case Nil
  show ?case by simp
next
  case (Cons x xs)
  show ?case by (simp add: pipelinerDiffStep_append [of st x ups dels names] Cons.IH)
qed

lemma saveAttendance_diff_concat:
  "saveAttendance_diff st =
    (concat (map (\<lambda>m. emittedUpserts (memberEmits st m)) (members st)) @
     concat (map (\<lambda>g. emittedUpserts (guestEmits st g)) (guests st)) @
     concat (map (\<lambda>p. emittedUpserts (pipelinerEmits st p)) (pipelinerEligibility st)),
     concat (map (\<lambda>m. emittedDeletions (memberEmits st m)) (members st)) @
     concat (map (\<lambda>g. emittedDeletions (guestEmits st g)) (guests st)) @
     concat (map (\<lambda>p. emittedDeletions (pipelinerEmits st p)) (pipelinerEligibility st)),
     concat (map (\<lambda>m. emittedNames (memberEmits st m)) (members st)) @
     concat (map (\<lambda>g. emittedNames (guestEmits st g)) (guests st)) @
     concat (map (\<lambda>p. emittedNames (pipelinerEmits st p)) (pipelinerEligibility st)))"
  by (simp add: saveAttendance_diff_def fold_memberDiffStep fold_guestDiffStep
      fold_pipelinerDiffStep)

lemma memberEmits_cases:
  "memberEmits st m =
     (if \<not> memberDirty st (subject_id m) then ([], [], [])
      else case status_m (memberCurrent st (subject_id m)) of
         Some s \<Rightarrow>
           ([\<lparr>upsert_id = nullish (attendanceId_m (memberCurrent st (subject_id m)))
                               (attendanceId_m (memberInitial st (subject_id m))),
              upsert_meeting_id = selectedMeetingId st, upsert_status = s,
              upsert_member_id = Some (subject_id m), upsert_guest_id = None,
              upsert_pipeliner_id = None\<rparr>], [], [full_name m])
       | None \<Rightarrow>
           (case attendanceId_m (memberInitial st (subject_id m)) of
              Some a \<Rightarrow> if a \<noteq> [] then ([], [a], [full_name m]) else ([], [], [full_name m])
            | None \<Rightarrow> ([], [], [full_name m])))"
  by (simp add: memberEmits_def memberDiffStep_def memberDirty_def Let_def truthy_def
      split: option.splits)

lemma filter_concat_distinct:
  assumes "distinct (map k xs)" "x \<in> set xs"
    and "\<And>y u. y \<in> set xs \<Longrightarrow> u \<in> set (f y) \<Longrightarrow> key u = Some (k y)"
  shows "filter (\<lambda>u. key u = Some (k x)) (concat (map f xs)) = f x"
  using assms
proof (induction xs)
  case Nil
  then show ?case by simp
next
  case (Cons y ys)
  show ?case
  proof (cases "x = y")
    case True
    have a: "filter (\<lambda>u. key u = Some (k y)) (f y) = f y"
      using Cons.prems(3) [of y] by (simp add: filter_id_conv)
    have "\<forall>z\<in>set ys. \<forall>u\<in>set (f z). key u \<noteq> Some (k y)"
    proof (intro ballI)
      fix z u assume z: "z \<in> set ys" and u: "u \<in> set (f z)"
      have "key u = Some (k z)" using Cons.prems(3) [of z u] z u by simp
      moreover have "k z \<noteq> k y" using Cons.prems(1) z by (auto simp: image_iff)
      ultimately show "key u \<noteq> Some (k y)" by simp
    qed
    then have b: "filter (\<lambda>u. key u = Some (k y)) (concat (map f ys)) = []"
      by (auto simp: filter_empty_conv)
    show ?thesis using True a b by simp
  next
    case False
    then have xin: "x \<in> set ys" using Cons.prems(2) by simp
    have "k x \<noteq> k y" using Cons.prems(1) xin by (auto simp: image_iff)
    then have a: "filter (\<lambda>u. key u = Some (k x)) (f y) = []"
      using Cons.prems(3) [of y] by (auto simp: filter_empty_conv)
    have b: "filter (\<lambda>u. key u = Some (k x)) (concat (map f ys)) = f x"
      using Cons.IH Cons.prems xin by simp
    show ?thesis using a b by simp
  qed
qed


lemma guestEmits_cases:
  "guestEmits st g =
     (if \<not> guestDirty st (subject_id g) then ([], [], [])
      else if attended_g (guestCurrent st (subject_id g)) then
           ([\<lparr>upsert_id = nullish (attendanceId_g (guestCurrent st (subject_id g)))
                               (attendanceId_g (guestInitial st (subject_id g))),
              upsert_meeting_id = selectedMeetingId st, upsert_status = Present,
              upsert_member_id = None, upsert_guest_id = Some (subject_id g),
              upsert_pipeliner_id = None\<rparr>], [], [full_name g])
      else (case attendanceId_g (guestInitial st (subject_id g)) of
              Some a \<Rightarrow> if a \<noteq> [] then ([], [a], [full_name g]) else ([], [], [full_name g])
            | None \<Rightarrow> ([], [], [full_name g])))"
  by (simp add: guestEmits_def guestDiffStep_def guestDirty_def Let_def truthy_def
      split: option.splits)

lemma pipelinerEmits_cases:
  "pipelinerEmits st p =
     (if \<not> pipelinerDirty st (subject_id p) then ([], [], [])
      else if attended_g (pipelinerCurrent st (subject_id p)) then
           ([\<lparr>upsert_id = nullish (attendanceId_g (pipelinerCurrent st (subject_id p)))
                               (attendanceId_g (pipelinerInitial st (subject_id p))),
              upsert_meeting_id = selectedMeetingId st, upsert_status = Present,
              upsert_member_id = None, upsert_guest_id = None,
              upsert_pipeliner_id = Some (subject_id p)\<rparr>], [], [full_name p])
      else (case attendanceId_g (pipelinerInitial st (subject_id p)) of
              Some a \<Rightarrow> if a \<noteq> [] then ([], [a], [full_name p]) else ([], [], [full_name p])
            | None \<Rightarrow> ([], [], [full_name p])))"
  by (simp add: pipelinerEmits_def pipelinerDiffStep_def pipelinerDirty_def Let_def truthy_def
      split: option.splits)

lemma member_upsert_keys:
  "u \<in> set (emittedUpserts (memberEmits st m)) \<Longrightarrow>
     upsert_member_id u = Some (subject_id m) \<and> upsert_guest_id u = None \<and>
     upsert_pipeliner_id u = None"
  by (auto simp: memberEmits_cases emittedUpserts_def split: if_splits option.splits)

lemma guest_upsert_keys:
  "u \<in> set (emittedUpserts (guestEmits st g)) \<Longrightarrow>
     upsert_member_id u = None \<and> upsert_guest_id u = Some (subject_id g) \<and>
     upsert_pipeliner_id u = None"
  by (auto simp: guestEmits_cases emittedUpserts_def split: if_splits option.splits)

lemma pipeliner_upsert_keys:
  "u \<in> set (emittedUpserts (pipelinerEmits st p)) \<Longrightarrow>
     upsert_member_id u = None \<and> upsert_guest_id u = None \<and>
     upsert_pipeliner_id u = Some (subject_id p)"
  by (auto simp: pipelinerEmits_cases emittedUpserts_def split: if_splits option.splits)

lemma filter_concat_none:
  assumes "\<And>y u. y \<in> set xs \<Longrightarrow> u \<in> set (f y) \<Longrightarrow> key u = None"
  shows "filter (\<lambda>u. key u = Some i) (concat (map f xs)) = []"
  using assms by (auto simp: filter_empty_conv)

lemma member_upserts_of_diff:
  assumes "distinct (map subject_id (members st))" "m \<in> set (members st)"
  shows "filter (\<lambda>u. upsert_member_id u = Some (subject_id m)) (fst (saveAttendance_diff st))
         = emittedUpserts (memberEmits st m)"
proof -
  have a: "filter (\<lambda>u. upsert_member_id u = Some (subject_id m))
             (concat (map (\<lambda>m. emittedUpserts (memberEmits st m)) (members st)))
           = emittedUpserts (memberEmits st m)"
    using assms member_upsert_keys
    by (intro filter_concat_distinct [where k = subject_id]) auto
  have b: "filter (\<lambda>u. upsert_member_id u = Some (subject_id m))
             (concat (map (\<lambda>g. emittedUpserts (guestEmits st g)) (guests st))) = []"
    using guest_upsert_keys by (intro filter_concat_none) auto
  have c: "filter (\<lambda>u. upsert_member_id u = Some (subject_id m))
             (concat (map (\<lambda>p. emittedUpserts (pipelinerEmits st p)) (pipelinerEligibility st)))
           = []"
    using pipeliner_upsert_keys by (intro filter_concat_none) auto
  show ?thesis by (simp add: saveAttendance_diff_concat a b c)
qed

lemma guest_upserts_of_diff:
  assumes "distinct (map subject_id (guests st))" "g \<in> set (guests st)"
  shows "filter (\<lambda>u. upsert_guest_id u = Some (subject_id g)) (fst (saveAttendance_diff st))
         = emittedUpserts (guestEmits st g)"
proof -
  have a: "filter (\<lambda>u. upsert_guest_id u = Some (subject_id g))
             (concat (map (\<lambda>g. emittedUpserts (guestEmits st g)) (guests st)))
           = emittedUpserts (guestEmits st g)"
    using assms guest_upsert_keys
    by (intro filter_concat_distinct [where k = subject_id]) auto
  have b: "filter (\<lambda>u. upsert_guest_id u = Some (subject_id g))
             (concat (map (\<lambda>m. emittedUpserts (memberEmits st m)) (members st))) = []"
    using member_upsert_keys by (intro filter_concat_none) auto
  have c: "filter (\<lambda>u. upsert_guest_id u = Some (subject_id g))
             (concat (map (\<lambda>p. emittedUpserts (pipelinerEmits st p)) (pipelinerEligibility st)))
           = []"
    using pipeliner_upsert_keys by (intro filter_concat_none) auto
  show ?thesis by (simp add: saveAttendance_diff_concat a b c)
qed

lemma pipeliner_upserts_of_diff:
  assumes "distinct (map subject_id (pipelinerEligibility st))"
    "p \<in> set (pipelinerEligibility st)"
  shows "filter (\<lambda>u. upsert_pipeliner_id u = Some (subject_id p)) (fst (saveAttendance_diff st))
         = emittedUpserts (pipelinerEmits st p)"
proof -
  have a: "filter (\<lambda>u. upsert_pipeliner_id u = Some (subject_id p))
             (concat (map (\<lambda>p. emittedUpserts (pipelinerEmits st p)) (pipelinerEligibility st)))
           = emittedUpserts (pipelinerEmits st p)"
    using assms pipeliner_upsert_keys
    by (intro filter_concat_distinct [where k = subject_id]) auto
  have b: "filter (\<lambda>u. upsert_pipeliner_id u = Some (subject_id p))
             (concat (map (\<lambda>m. emittedUpserts (memberEmits st m)) (members st))) = []"
    using member_upsert_keys by (intro filter_concat_none) auto
  have c: "filter (\<lambda>u. upsert_pipeliner_id u = Some (subject_id p))
             (concat (map (\<lambda>g. emittedUpserts (guestEmits st g)) (guests st))) = []"
    using guest_upsert_keys by (intro filter_concat_none) auto
  show ?thesis by (simp add: saveAttendance_diff_concat a b c)
qed




text \<open>
  Claim C3. The diff computed at save time is minimal and complete. The upserts and the
  deletions are exactly what the listed subjects emit, in list order (members, guests,
  pipeliners). A subject whose current value equals its baseline emits nothing. A dirty
  subject whose current value is set emits exactly one upsert, carrying the subject, the
  current status and as id the attendance id of its current entry (falling back to the
  baseline's), and no deletion. A dirty subject whose current value is unset and whose
  baseline entry holds the id of a persisted row emits exactly one deletion of that id and
  no upsert. With pairwise distinct subject ids, the upserts of the whole diff that name a
  subject are the ones that subject emits.
\<close>

theorem diff_minimal_and_complete:
  assumes "saveAttendance_diff st = (upserts, deletions, names)"
  shows
    "upserts =
       concat (map (\<lambda>m. emittedUpserts (memberEmits st m)) (members st)) @
       concat (map (\<lambda>g. emittedUpserts (guestEmits st g)) (guests st)) @
       concat (map (\<lambda>p. emittedUpserts (pipelinerEmits st p)) (pipelinerEligibility st)) \<and>
     deletions =
       concat (map (\<lambda>m. emittedDeletions (memberEmits st m)) (members st)) @
       concat (map (\<lambda>g. emittedDeletions (guestEmits st g)) (guests st)) @
       concat (map (\<lambda>p. emittedDeletions (pipelinerEmits st p)) (pipelinerEligibility st)) \<and>
     (\<not> memberDirty st (subject_id m1) \<longrightarrow>
        emittedUpserts (memberEmits st m1) = [] \<and> emittedDeletions (memberEmits st m1) = []) \<and>
     (memberDirty st (subject_id m2) \<and> status_m (memberCurrent st (subject_id m2)) = Some s \<longrightarrow>
        emittedUpserts (memberEmits st m2) =
          [\<lparr>upsert_id = nullish (attendanceId_m (memberCurrent st (subject_id m2)))
                              (attendanceId_m (memberInitial st (subject_id m2))),
             upsert_meeting_id = selectedMeetingId st, upsert_status = s,
             upsert_member_id = Some (subject_id m2), upsert_guest_id = None,
             upsert_pipeliner_id = None\<rparr>] \<and>
        emittedDeletions (memberEmits st m2) = []) \<and>
     (memberDirty st (subject_id m3) \<and> status_m (memberCurrent st (subject_id m3)) = None \<and>
      attendanceId_m (memberInitial st (subject_id m3)) = Some a \<and> a \<noteq> [] \<longrightarrow>
        emittedUpserts (memberEmits st m3) = [] \<and> emittedDeletions (memberEmits st m3) = [a]) \<and>
     (\<not> guestDirty st (subject_id g1) \<longrightarrow>
        emittedUpserts (guestEmits st g1) = [] \<and> emittedDeletions (guestEmits st g1) = []) \<and>
     (guestDirty st (subject_id g2) \<and> attended_g (guestCurrent st (subject_id g2)) \<longrightarrow>
        emittedUpserts (guestEmits st g2) =
          [\<lparr>upsert_id = nullish (attendanceId_g (guestCurrent st (subject_id g2)))
                              (attendanceId_g (guestInitial st (subject_id g2))),
             upsert_meeting_id = selectedMeetingId st, upsert_status = Present,
             upsert_member_id = None, upsert_guest_id = Some (subject_id g2),
             upsert_pipeliner_id = None\<rparr>] \<and>
        emittedDeletions (guestEmits st g2) = []) \<and>
     (guestDirty st (subject_id g3) \<and> \<not> attended_g (guestCurrent st (subject_id g3)) \<and>
      attendanceId_g (guestInitial st (subject_id g3)) = Some b \<and> b \<noteq> [] \<longrightarrow>
        emittedUpserts (guestEmits st g3) = [] \<and> emittedDeletions (guestEmits st g3) = [b]) \<and>
     (\<not> pipelinerDirty st (subject_id p1) \<longrightarrow>
        emittedUpserts (pipelinerEmits st p1) = [] \<and>
        emittedDeletions (pipelinerEmits st p1) = []) \<and>
     (pipelinerDirty st (subject_id p2) \<and> attended_g (pipelinerCurrent st (subject_id p2)) \<longrightarrow>
        emittedUpserts (pipelinerEmits st p2) =
          [\<lparr>upsert_id = nullish (attendanceId_g (pipelinerCurrent st (subject_id p2)))
                              (attendanceId_g (pipelinerInitial st (subject_id p2))),
             upsert_meeting_id = selectedMeetingId st, upsert_status = Present,
             upsert_member_id = None, upsert_guest_id = None,
             upsert_pipeliner_id = Some (subject_id p2)\<rparr>] \<and>
        emittedDeletions (pipelinerEmits st p2) = []) \<and>
     (pipelinerDirty st (subject_id p3) \<and>
      \<not> attended_g (pipelinerCurrent st (subject_id p3)) \<and>
      attendanceId_g (pipelinerInitial st (subject_id p3)) = Some c \<and> c \<noteq> [] \<longrightarrow>
        emittedUpserts (pipelinerEmits st p3) = [] \<and>
        emittedDeletions (pipelinerEmits st p3) = [c]) \<and>
     (distinct (map subject_id (members st)) \<and> m \<in> set (members st) \<longrightarrow>
        filter (\<lambda>u. upsert_member_id u = Some (subject_id m)) upserts =
          emittedUpserts (memberEmits st m)) \<and>
     (distinct (map subject_id (guests st)) \<and> g \<in> set (guests st) \<longrightarrow>
        filter (\<lambda>u. upsert_guest_id u = Some (subject_id g)) upserts =
          emittedUpserts (guestEmits st g)) \<and>
     (distinct (map subject_id (pipelinerEligibility st)) \<and>
      p \<in> set (pipelinerEligibility st) \<longrightarrow>
        filter (\<lambda>u. upsert_pipeliner_id u = Some (subject_id p)) upserts =
          emittedUpserts (pipelinerEmits st p))"
proof -
  have ups: "upserts = fst (saveAttendance_diff st)"
    and dels: "deletions = fst (snd (saveAttendance_diff st))"
    using assms by simp_all
  have shape_u: "upserts =
       concat (map (\<lambda>m. emittedUpserts (memberEmits st m)) (members st)) @
       concat (map (\<lambda>g. emittedUpserts (guestEmits st g)) (guests st)) @
       concat (map (\<lambda>p. emittedUpserts (pipelinerEmits st p)) (pipelinerEligibility st))"
    unfolding ups by (simp add: saveAttendance_diff_concat)
  have shape_d: "deletions =
       concat (map (\<lambda>m. emittedDeletions (memberEmits st m)) (members st)) @
       concat (map (\<lambda>g. emittedDeletions (guestEmits st g)) (guests st)) @
       concat (map (\<lambda>p. emittedDeletions (pipelinerEmits st p)) (pipelinerEligibility st))"
    unfolding dels by (simp add: saveAttendance_diff_concat)
  have m_clean: "\<not> memberDirty st (subject_id m1) \<longrightarrow>
        emittedUpserts (memberEmits st m1) = [] \<and> emittedDeletions (memberEmits st m1) = []"
    by (simp add: emittedUpserts_def emittedDeletions_def memberEmits_cases)
  have m_set: "memberDirty st (subject_id m2) \<and>
      status_m (memberCurrent st (subject_id m2)) = Some s \<longrightarrow>
        emittedUpserts (memberEmits st m2) =
          [\<lparr>upsert_id = nullish (attendanceId_m (memberCurrent st (subject_id m2)))
                              (attendanceId_m (memberInitial st (subject_id m2))),
             upsert_meeting_id = selectedMeetingId st, upsert_status = s,
             upsert_member_id = Some (subject_id m2), upsert_guest_id = None,
             upsert_pipeliner_id = None\<rparr>] \<and>
        emittedDeletions (memberEmits st m2) = []"
    by (simp add: emittedUpserts_def emittedDeletions_def memberEmits_cases)
  have m_unset: "memberDirty st (subject_id m3) \<and>
      status_m (memberCurrent st (subject_id m3)) = None \<and>
      attendanceId_m (memberInitial st (subject_id m3)) = Some a \<and> a \<noteq> [] \<longrightarrow>
        emittedUpserts (memberEmits st m3) = [] \<and> emittedDeletions (memberEmits st m3) = [a]"
    by (simp add: emittedUpserts_def emittedDeletions_def memberEmits_cases)
  have g_clean: "\<not> guestDirty st (subject_id g1) \<longrightarrow>
        emittedUpserts (guestEmits st g1) = [] \<and> emittedDeletions (guestEmits st g1) = []"
    by (simp add: emittedUpserts_def emittedDeletions_def guestEmits_cases)
  have g_set: "guestDirty st (subject_id g2) \<and> attended_g (guestCurrent st (subject_id g2)) \<longrightarrow>
        emittedUpserts (guestEmits st g2) =
          [\<lparr>upsert_id = nullish (attendanceId_g (guestCurrent st (subject_id g2)))
                              (attendanceId_g (guestInitial st (subject_id g2))),
             upsert_meeting_id = selectedMeetingId st, upsert_status = Present,
             upsert_member_id = None, upsert_guest_id = Some (subject_id g2),
             upsert_pipeliner_id = None\<rparr>] \<and>
        emittedDeletions (guestEmits st g2) = []"
    by (simp add: emittedUpserts_def emittedDeletions_def guestEmits_cases)
  have g_unset: "guestDirty st (subject_id g3) \<and>
      \<not> attended_g (guestCurrent st (subject_id g3)) \<and>
      attendanceId_g (guestInitial st (subject_id g3)) = Some b \<and> b \<noteq> [] \<longrightarrow>
        emittedUpserts (guestEmits st g3) = [] \<and> emittedDeletions (guestEmits st g3) = [b]"
    by (simp add: emittedUpserts_def emittedDeletions_def guestEmits_cases)
  have p_clean: "\<not> pipelinerDirty st (subject_id p1) \<longrightarrow>
        emittedUpserts (pipelinerEmits st p1) = [] \<and>
        emittedDeletions (pipelinerEmits st p1) = []"
    by (simp add: emittedUpserts_def emittedDeletions_def pipelinerEmits_cases)
  have p_set: "pipelinerDirty st (subject_id p2) \<and>
      attended_g (pipelinerCurrent st (subject_id p2)) \<longrightarrow>
        emittedUpserts (pipelinerEmits st p2) =
          [\<lparr>upsert_id = nullish (attendanceId_g (pipelinerCurrent st (subject_id p2)))
                              (attendanceId_g (pipelinerInitial st (subject_id p2))),
             upsert_meeting_id = selectedMeetingId st, upsert_status = Present,
             upsert_member_id = None, upsert_guest_id = None,
             upsert_pipeliner_id = Some (subject_id p2)\<rparr>] \<and>
        emittedDeletions (pipelinerEmits st p2) = []"
    by (simp add: emittedUpserts_def emittedDeletions_def pipelinerEmits_cases)
  have p_unset: "pipelinerDirty st (subject_id p3) \<and>
      \<not> attended_g (pipelinerCurrent st (subject_id p3)) \<and>
      attendanceId_g (pipelinerInitial st (subject_id p3)) = Some c \<and> c \<noteq> [] \<longrightarrow>
        emittedUpserts (pipelinerEmits st p3) = [] \<and>
        emittedDeletions (pipelinerEmits st p3) = [c]"
    by (simp add: emittedUpserts_def emittedDeletions_def pipelinerEmits_cases)
  have m_one: "distinct (map subject_id (members st)) \<and> m \<in> set (members st) \<longrightarrow>
        filter (\<lambda>u. upsert_member_id u = Some (subject_id m)) upserts =
          emittedUpserts (memberEmits st m)"
    unfolding ups using member_upserts_of_diff by blast
  have g_one: "distinct (map subject_id (guests st)) \<and> g \<in> set (guests st) \<longrightarrow>
        filter (\<lambda>u. upsert_guest_id u = Some (subject_id g)) upserts =
          emittedUpserts (guestEmits st g)"
    unfolding ups using guest_upserts_of_diff by blast
  have p_one: "distinct (map subject_id (pipelinerEligibility st)) \<and>
      p \<in> set (pipelinerEligibility st) \<longrightarrow>
        filter (\<lambda>u. upsert_pipeliner_id u = Some (subject_id p)) upserts =
          emittedUpserts (pipelinerEmits st p)"
    unfolding ups using pipeliner_upserts_of_diff by blast
  show ?thesis
    using shape_u shape_d m_clean m_set m_unset g_clean g_set g_unset p_clean p_set p_unset
      m_one g_one p_one
    by blast
qed


lemmas ledger_eval =
  memberCurrent_def memberInitial_def guestCurrent_def guestInitial_def pipelinerCurrent_def
  pipelinerInitial_def orDefault_def nullish_def truthy_def memberDefault_def
  guestDefault_def Let_def

lemmas diff_eval =
  saveAttendance_diff_def edited_page_def blank_page_def person_def
  memberDiffStep_def guestDiffStep_def pipelinerDiffStep_def ledger_eval

theorem diff_minimal_and_complete_witness:
  "saveAttendance_diff edited_page =
     ([\<lparr>upsert_id = None, upsert_meeting_id = ''meeting-1'', upsert_status = Absent,
        upsert_member_id = Some ''m1'', upsert_guest_id = None, upsert_pipeliner_id = None\<rparr>,
       \<lparr>upsert_id = None, upsert_meeting_id = ''meeting-1'', upsert_status = Present,
        upsert_member_id = None, upsert_guest_id = Some ''g1'', upsert_pipeliner_id = None\<rparr>,
       \<lparr>upsert_id = None, upsert_meeting_id = ''meeting-1'', upsert_status = Present,
        upsert_member_id = None, upsert_guest_id = None,
        upsert_pipeliner_id = Some ''p1''\<rparr>],
      [''a3'', ''a6'', ''a9''],
      [''Ann'', ''Cy'', ''Dee'', ''Flo'', ''Gus'', ''Ida'']) \<and>
   \<not> memberDirty edited_page ''m2'' \<and>
   emittedUpserts (memberEmits edited_page (person ''m2'' ''Ben'')) = [] \<and>
   emittedDeletions (memberEmits edited_page (person ''m2'' ''Ben'')) = [] \<and>
   memberDirty edited_page ''m1'' \<and>
   status_m (memberCurrent edited_page ''m1'') = Some Absent \<and>
   emittedUpserts (memberEmits edited_page (person ''m1'' ''Ann'')) =
     [\<lparr>upsert_id = None, upsert_meeting_id = ''meeting-1'', upsert_status = Absent,
       upsert_member_id = Some ''m1'', upsert_guest_id = None, upsert_pipeliner_id = None\<rparr>] \<and>
   emittedDeletions (memberEmits edited_page (person ''m1'' ''Ann'')) = [] \<and>
   memberDirty edited_page ''m3'' \<and>
   status_m (memberCurrent edited_page ''m3'') = None \<and>
   attendanceId_m (memberInitial edited_page ''m3'') = Some ''a3'' \<and>
   emittedUpserts (memberEmits edited_page (person ''m3'' ''Cy'')) = [] \<and>
   emittedDeletions (memberEmits edited_page (person ''m3'' ''Cy'')) = [''a3''] \<and>
   \<not> guestDirty edited_page ''g2'' \<and>
   emittedDeletions (guestEmits edited_page (person ''g2'' ''Eli'')) = [] \<and>
   guestDirty edited_page ''g1'' \<and> attended_g (guestCurrent edited_page ''g1'') \<and>
   emittedDeletions (guestEmits edited_page (person ''g1'' ''Dee'')) = [] \<and>
   guestDirty edited_page ''g3'' \<and> \<not> attended_g (guestCurrent edited_page ''g3'') \<and>
   emittedDeletions (guestEmits edited_page (person ''g3'' ''Flo'')) = [''a6''] \<and>
   \<not> pipelinerDirty edited_page ''p2'' \<and>
   emittedDeletions (pipelinerEmits edited_page (person ''p2'' ''Hal'')) = [] \<and>
   pipelinerDirty edited_page ''p1'' \<and> attended_g (pipelinerCurrent edited_page ''p1'') \<and>
   emittedDeletions (pipelinerEmits edited_page (person ''p1'' ''Gus'')) = [] \<and>
   pipelinerDirty edited_page ''p3'' \<and> \<not> attended_g (pipelinerCurrent edited_page ''p3'') \<and>
   emittedDeletions (pipelinerEmits edited_page (person ''p3'' ''Ida'')) = [''a9''] \<and>
   distinct (map subject_id (members edited_page)) \<and>
   distinct (map subject_id (guests edited_page)) \<and>
   distinct (map subject_id (pipelinerEligibility edited_page)) \<and>
   filter (\<lambda>u. upsert_member_id u = Some ''m1'') (fst (saveAttendance_diff edited_page)) =
     emittedUpserts (memberEmits edited_page (person ''m1'' ''Ann'')) \<and>
   filter (\<lambda>u. upsert_guest_id u = Some ''g1'') (fst (saveAttendance_diff edited_page)) =
     emittedUpserts (guestEmits edited_page (person ''g1'' ''Dee'')) \<and>
   filter (\<lambda>u. upsert_pipeliner_id u = Some ''p1'') (fst (saveAttendance_diff edited_page)) =
     emittedUpserts (pipelinerEmits edited_page (person ''p1'' ''Gus''))"
proof -
  have h: "saveAttendance_diff edited_page =
     ([\<lparr>upsert_id = None, upsert_meeting_id = ''meeting-1'', upsert_status = Absent,
        upsert_member_id = Some ''m1'', upsert_guest_id = None, upsert_pipeliner_id = None\<rparr>,
       \<lparr>upsert_id = None, upsert_meeting_id = ''meeting-1'', upsert_status = Present,
        upsert_member_id = None, upsert_guest_id = Some ''g1'', upsert_pipeliner_id = None\<rparr>,
       \<lparr>upsert_id = None, upsert_meeting_id = ''meeting-1'', upsert_status = Present,
        upsert_member_id = None, upsert_guest_id = None,
        upsert_pipeliner_id = Some ''p1''\<rparr>],
      [''a3'', ''a6'', ''a9''],
      [''Ann'', ''Cy'', ''Dee'', ''Flo'', ''Gus'', ''Ida''])"
    by (simp add: diff_eval)
  have facts:
    "\<not> memberDirty edited_page ''m2''" "memberDirty edited_page ''m1''"
    "status_m (memberCurrent edited_page ''m1'') = Some Absent"
    "memberDirty edited_page ''m3''" "status_m (memberCurrent edited_page ''m3'') = None"
    "attendanceId_m (memberInitial edited_page ''m3'') = Some ''a3''"
    "attendanceId_m (memberCurrent edited_page ''m1'') = None"
    "attendanceId_m (memberInitial edited_page ''m1'') = None"
    "\<not> guestDirty edited_page ''g2''" "guestDirty edited_page ''g1''"
    "attended_g (guestCurrent edited_page ''g1'')" "guestDirty edited_page ''g3''"
    "\<not> attended_g (guestCurrent edited_page ''g3'')"
    "attendanceId_g (guestInitial edited_page ''g3'') = Some ''a6''"
    "\<not> pipelinerDirty edited_page ''p2''" "pipelinerDirty edited_page ''p1''"
    "attended_g (pipelinerCurrent edited_page ''p1'')" "pipelinerDirty edited_page ''p3''"
    "\<not> attended_g (pipelinerCurrent edited_page ''p3'')"
    "attendanceId_g (pipelinerInitial edited_page ''p3'') = Some ''a9''"
    "distinct (map subject_id (members edited_page))"
    "distinct (map subject_id (guests edited_page))"
    "distinct (map subject_id (pipelinerEligibility edited_page))"
    "selectedMeetingId edited_page = ''meeting-1''"
    "person ''m1'' ''Ann'' \<in> set (members edited_page)"
    "person ''g1'' ''Dee'' \<in> set (guests edited_page)"
    "person ''p1'' ''Gus'' \<in> set (pipelinerEligibility edited_page)"
    by (simp_all add: memberDirty_def guestDirty_def pipelinerDirty_def edited_page_def
        blank_page_def person_def memberCurrent_def memberInitial_def guestCurrent_def
        guestInitial_def pipelinerCurrent_def pipelinerInitial_def orDefault_def
        memberDefault_def guestDefault_def)
  have ids: "\<And>i n. subject_id (person i n) = i"
    by (simp add: person_def)
  have split: "saveAttendance_diff edited_page =
      (fst (saveAttendance_diff edited_page), fst (snd (saveAttendance_diff edited_page)),
       snd (snd (saveAttendance_diff edited_page)))"
    by simp
  note t = diff_minimal_and_complete [OF split,
      where ?m1.0 = "person ''m2'' ''Ben''" and ?m2.0 = "person ''m1'' ''Ann''"
        and s = Absent and ?m3.0 = "person ''m3'' ''Cy''" and a = "''a3''"
        and ?g1.0 = "person ''g2'' ''Eli''" and ?g2.0 = "person ''g1'' ''Dee''"
        and ?g3.0 = "person ''g3'' ''Flo''" and b = "''a6''"
        and ?p1.0 = "person ''p2'' ''Hal''" and ?p2.0 = "person ''p1'' ''Gus''"
        and ?p3.0 = "person ''p3'' ''Ida''" and c = "''a9''"
        and m = "person ''m1'' ''Ann''" and g = "person ''g1'' ''Dee''"
        and p = "person ''p1'' ''Gus''", unfolded ids]
  note r2 = t [THEN conjunct2, THEN conjunct2]
  note r3 = r2 [THEN conjunct2]
  note r4 = r3 [THEN conjunct2]
  note r5 = r4 [THEN conjunct2]
  note r6 = r5 [THEN conjunct2]
  note r7 = r6 [THEN conjunct2]
  note r8 = r7 [THEN conjunct2]
  note r9 = r8 [THEN conjunct2]
  note r10 = r9 [THEN conjunct2]
  note r11 = r10 [THEN conjunct2]
  note r12 = r11 [THEN conjunct2]
  note r13 = r12 [THEN conjunct2]
  have member_clean:
    "emittedUpserts (memberEmits edited_page (person ''m2'' ''Ben'')) = [] \<and>
     emittedDeletions (memberEmits edited_page (person ''m2'' ''Ben'')) = []"
    using r2 [THEN conjunct1] facts(1) by simp
  have member_set:
    "emittedUpserts (memberEmits edited_page (person ''m1'' ''Ann'')) =
     [\<lparr>upsert_id = None, upsert_meeting_id = ''meeting-1'', upsert_status = Absent,
       upsert_member_id = Some ''m1'', upsert_guest_id = None, upsert_pipeliner_id = None\<rparr>] \<and>
     emittedDeletions (memberEmits edited_page (person ''m1'' ''Ann'')) = []"
    using r3 [THEN conjunct1] facts(2,3,7,8,24) by (simp add: nullish_def)
  have member_unset:
    "emittedUpserts (memberEmits edited_page (person ''m3'' ''Cy'')) = [] \<and>
     emittedDeletions (memberEmits edited_page (person ''m3'' ''Cy'')) = [''a3'']"
    using r4 [THEN conjunct1] facts(4,5,6) by simp
  have guest_clean: "emittedDeletions (guestEmits edited_page (person ''g2'' ''Eli'')) = []"
    using r5 [THEN conjunct1] facts(9) by simp
  have guest_set: "emittedDeletions (guestEmits edited_page (person ''g1'' ''Dee'')) = []"
    using r6 [THEN conjunct1] facts(10,11) by simp
  have guest_unset:
    "emittedDeletions (guestEmits edited_page (person ''g3'' ''Flo'')) = [''a6'']"
    using r7 [THEN conjunct1] facts(12,13,14) by simp
  have pipeliner_clean:
    "emittedDeletions (pipelinerEmits edited_page (person ''p2'' ''Hal'')) = []"
    using r8 [THEN conjunct1] facts(15) by simp
  have pipeliner_set:
    "emittedDeletions (pipelinerEmits edited_page (person ''p1'' ''Gus'')) = []"
    using r9 [THEN conjunct1] facts(16,17) by simp
  have pipeliner_unset:
    "emittedDeletions (pipelinerEmits edited_page (person ''p3'' ''Ida'')) = [''a9'']"
    using r10 [THEN conjunct1] facts(18,19,20) by simp
  have member_once:
    "filter (\<lambda>u. upsert_member_id u = Some ''m1'') (fst (saveAttendance_diff edited_page)) =
     emittedUpserts (memberEmits edited_page (person ''m1'' ''Ann''))"
    using r11 [THEN conjunct1] facts(21,25) by simp
  have guest_once:
    "filter (\<lambda>u. upsert_guest_id u = Some ''g1'') (fst (saveAttendance_diff edited_page)) =
     emittedUpserts (guestEmits edited_page (person ''g1'' ''Dee''))"
    using r12 [THEN conjunct1] facts(22,26) by simp
  have pipeliner_once:
    "filter (\<lambda>u. upsert_pipeliner_id u = Some ''p1'') (fst (saveAttendance_diff edited_page)) =
     emittedUpserts (pipelinerEmits edited_page (person ''p1'' ''Gus''))"
    using r13 by (simp add: facts(23,27))
  show ?thesis
    using h facts(1-6,9-23) member_clean member_set member_unset guest_clean guest_set
      guest_unset pipeliner_clean pipeliner_set pipeliner_unset member_once guest_once
      pipeliner_once
    by blast
qed

section \<open>Loading replaces the ledger\<close>

lemma snapshotMemberAttendance_id [simp]: "snapshotMemberAttendance m = m"
  by (rule ext) (simp add: snapshotMemberAttendance_def map_option_case split: option.splits)

lemma snapshotGuestAttendance_id [simp]: "snapshotGuestAttendance m = m"
  by (rule ext) (simp add: snapshotGuestAttendance_def map_option_case split: option.splits)

lemma snapshotPipelinerAttendance_id [simp]: "snapshotPipelinerAttendance m = m"
  by (rule ext) (simp add: snapshotPipelinerAttendance_def map_option_case split: option.splits)

lemma find_snoc:
  "find P (xs @ [x]) = (case find P xs of Some y \<Rightarrow> Some y | None \<Rightarrow> if P x then Some x else None)"
  by (induction xs) auto

lemma truthy_Some: "truthy x \<Longrightarrow> \<exists>s. x = Some s \<and> s \<noteq> []"
  by (cases x) (auto simp: truthy_def)

lemma fold_loadRowStep:
  "fold loadRowStep rows (mm, gm, pm) =
     ((\<lambda>i. case find (row_covers_member i) (rev rows) of
              Some row \<Rightarrow> Some (member_entry_of row) | None \<Rightarrow> mm i),
      (\<lambda>i. case find (row_covers_guest i) (rev rows) of
              Some row \<Rightarrow> Some (guest_entry_of row) | None \<Rightarrow> gm i),
      (\<lambda>i. case find (row_covers_pipeliner i) (rev rows) of
              Some row \<Rightarrow> Some (guest_entry_of row) | None \<Rightarrow> pm i))"
proof (induction rows arbitrary: mm gm pm)
  case Nil
  show ?case by simp
next
  case (Cons row rows)
  have step: "loadRowStep row (mm, gm, pm) =
      ((\<lambda>i. if row_covers_member i row then Some (member_entry_of row) else mm i),
       (\<lambda>i. if row_covers_guest i row then Some (guest_entry_of row) else gm i),
       (\<lambda>i. if row_covers_pipeliner i row then Some (guest_entry_of row) else pm i))"
    by (auto simp: loadRowStep_def row_covers_member_def row_covers_guest_def
        row_covers_pipeliner_def member_entry_of_def guest_entry_of_def fun_eq_iff
        dest: truthy_Some)
  show ?case
    by (simp add: step Cons.IH find_snoc fun_eq_iff split: option.splits)
qed


lemma loadAttendance_maps:
  assumes "selectedMeetingId st \<noteq> []"
  shows "memberAttendance (loadAttendance silently (Inr data) st) =
           (\<lambda>i. map_option member_entry_of
                  (find (row_covers_member i) (rev (orDefault data []))))"
    and "memberInitialRef (loadAttendance silently (Inr data) st) =
           (\<lambda>i. map_option member_entry_of
                  (find (row_covers_member i) (rev (orDefault data []))))"
    and "guestAttendance (loadAttendance silently (Inr data) st) =
           (\<lambda>i. map_option guest_entry_of
                  (find (row_covers_guest i) (rev (orDefault data []))))"
    and "guestInitialRef (loadAttendance silently (Inr data) st) =
           (\<lambda>i. map_option guest_entry_of
                  (find (row_covers_guest i) (rev (orDefault data []))))"
    and "pipelinerAttendance (loadAttendance silently (Inr data) st) =
           (\<lambda>i. map_option guest_entry_of
                  (find (row_covers_pipeliner i) (rev (orDefault data []))))"
    and "pipelinerInitialRef (loadAttendance silently (Inr data) st) =
           (\<lambda>i. map_option guest_entry_of
                  (find (row_covers_pipeliner i) (rev (orDefault data []))))"
  using assms
  by (simp_all add: loadAttendance_def fold_loadRowStep Let_def fun_eq_iff
      split: option.splits)

text \<open>
  Claim C5, as the code has it. A load for a selected meeting whose query succeeds
  replaces the whole ledger by the rows read: for every subject, current and baseline both
  become the entry of the last row that names it (a row counts for its member, else for
  its guest, else for its pipeliner), and a subject that no row names has no entry left:
  its current value and its baseline read as unset and it is not dirty, whatever was
  edited before the load.
\<close>

theorem load_replaces_ledger:
  assumes "selectedMeetingId st \<noteq> []"
    and "st' = loadAttendance silently (Inr data) st"
    and "rows = orDefault data []"
  shows
    "memberAttendance st' i = map_option member_entry_of (find (row_covers_member i) (rev rows)) \<and>
     memberInitialRef st' i = memberAttendance st' i \<and>
     guestAttendance st' i = map_option guest_entry_of (find (row_covers_guest i) (rev rows)) \<and>
     guestInitialRef st' i = guestAttendance st' i \<and>
     pipelinerAttendance st' i =
       map_option guest_entry_of (find (row_covers_pipeliner i) (rev rows)) \<and>
     pipelinerInitialRef st' i = pipelinerAttendance st' i \<and>
     \<not> memberDirty st' i \<and> \<not> guestDirty st' i \<and> \<not> pipelinerDirty st' i \<and>
     (list_all (\<lambda>row. \<not> row_covers_member i row) rows \<longrightarrow>
        memberAttendance st' i = None \<and> status_m (memberCurrent st' i) = None) \<and>
     (list_all (\<lambda>row. \<not> row_covers_guest i row) rows \<longrightarrow>
        guestAttendance st' i = None \<and> \<not> attended_g (guestCurrent st' i)) \<and>
     (list_all (\<lambda>row. \<not> row_covers_pipeliner i row) rows \<longrightarrow>
        pipelinerAttendance st' i = None \<and> \<not> attended_g (pipelinerCurrent st' i))"
proof -
  note maps = loadAttendance_maps [OF assms(1), of silently data, folded assms(2) assms(3)]
  have none: "\<And>P. list_all (\<lambda>row. \<not> P row) rows \<Longrightarrow> find P (rev rows) = None"
    by (simp add: find_None_iff list_all_iff)
  show ?thesis
    using none [of "row_covers_member i"] none [of "row_covers_guest i"]
      none [of "row_covers_pipeliner i"]
    by (simp add: maps memberDirty_def guestDirty_def pipelinerDirty_def memberCurrent_def
        memberInitial_def guestCurrent_def guestInitial_def pipelinerCurrent_def
        pipelinerInitial_def orDefault_def memberDefault_def guestDefault_def)
qed


lemmas example_pages =
  ann_marked_def two_members_page_def blank_page_def person_def handleMemberStatusChange_def

theorem load_replaces_ledger_witness:
  "selectedMeetingId ann_marked \<noteq> [] \<and>
   list_all (\<lambda>row. \<not> row_covers_member ''m1'' row) [ben_row] \<and>
   list_all (\<lambda>row. \<not> row_covers_guest ''m1'' row) [ben_row] \<and>
   list_all (\<lambda>row. \<not> row_covers_pipeliner ''m1'' row) [ben_row] \<and>
   memberAttendance (loadAttendance True (Inr (Some [ben_row])) ann_marked) ''m1'' = None \<and>
   memberInitialRef (loadAttendance True (Inr (Some [ben_row])) ann_marked) ''m1'' = None \<and>
   memberAttendance (loadAttendance True (Inr (Some [ben_row])) ann_marked) ''m2'' =
     Some \<lparr>attendanceId_m = Some ''r2'', status_m = Some Apology\<rparr> \<and>
   memberInitialRef (loadAttendance True (Inr (Some [ben_row])) ann_marked) ''m2'' =
     Some \<lparr>attendanceId_m = Some ''r2'', status_m = Some Apology\<rparr>"
proof -
  have sel: "selectedMeetingId ann_marked \<noteq> []"
    by (simp add: example_pages Let_def)
  have uncovered:
    "list_all (\<lambda>row. \<not> row_covers_member ''m1'' row) [ben_row]"
    "list_all (\<lambda>row. \<not> row_covers_guest ''m1'' row) [ben_row]"
    "list_all (\<lambda>row. \<not> row_covers_pipeliner ''m1'' row) [ben_row]"
    by (simp_all add: row_covers_member_def row_covers_guest_def row_covers_pipeliner_def
        ben_row_def truthy_def)
  have covered: "row_covers_member ''m2'' ben_row"
    by (simp add: row_covers_member_def ben_row_def truthy_def)
  have rows: "[ben_row] = orDefault (Some [ben_row]) []"
    by (simp add: orDefault_def)
  note ann = load_replaces_ledger [OF sel refl rows, of True "''m1''"]
  note ben = load_replaces_ledger [OF sel refl rows, of True "''m2''"]
  have a: "memberAttendance (loadAttendance True (Inr (Some [ben_row])) ann_marked) ''m1'' = None"
    using ann uncovered(1) by blast
  have b: "memberInitialRef (loadAttendance True (Inr (Some [ben_row])) ann_marked) ''m1'' = None"
    using ann a by simp
  have c: "memberAttendance (loadAttendance True (Inr (Some [ben_row])) ann_marked) ''m2'' =
      Some \<lparr>attendanceId_m = Some ''r2'', status_m = Some Apology\<rparr>"
  proof -
    have "memberAttendance (loadAttendance True (Inr (Some [ben_row])) ann_marked) ''m2'' =
        Some (member_entry_of ben_row)"
      using ben [THEN conjunct1] by (simp add: covered)
    then show ?thesis by (simp add: member_entry_of_def ben_row_def)
  qed
  have d: "memberInitialRef (loadAttendance True (Inr (Some [ben_row])) ann_marked) ''m2'' =
      Some \<lparr>attendanceId_m = Some ''r2'', status_m = Some Apology\<rparr>"
    using ben [THEN conjunct2, THEN conjunct1] c by simp
  show ?thesis
    using sel uncovered a b c d by blast
qed

text \<open>
  Claim C5 as stated fails: Ann is marked present and not yet saved, the rows of a silent
  reload name Ben only, and after the load Ann's current value is unset again and she is
  not dirty.
\<close>

theorem load_discards_unsaved_edit:
  "memberDirty ann_marked ''m1'' \<and>
   status_m (memberCurrent ann_marked ''m1'') = Some Present \<and>
   \<not> row_covers_member ''m1'' ben_row \<and>
   status_m (memberCurrent (loadAttendance True (Inr (Some [ben_row])) ann_marked) ''m1'') = None \<and>
   \<not> memberDirty (loadAttendance True (Inr (Some [ben_row])) ann_marked) ''m1''"
  by (simp add: example_pages loadAttendance_def loadRowStep_def ben_row_def
      row_covers_member_def memberDirty_def memberCurrent_def memberInitial_def
      orDefault_def nullish_def truthy_def memberDefault_def Let_def)

section \<open>The merge stores the merged map as the new baseline\<close>

lemma fold_mergeMemberStep:
  "fold (mergeMemberStep D prev ref) ms acc i =
     (if i \<in> subject_id ` set ms
      then mergeMemberStep D prev ref \<lparr>subject_id = i, full_name = []\<rparr> Map.empty i
      else acc i)"
  by (induction ms arbitrary: acc) (auto simp: mergeMemberStep_def Let_def)

lemma fold_mergeGuestStep:
  "fold (mergeGuestStep D prev ref) gs acc i =
     (if i \<in> subject_id ` set gs
      then mergeGuestStep D prev ref \<lparr>subject_id = i, full_name = []\<rparr> Map.empty i
      else acc i)"
  by (induction gs arbitrary: acc) (auto simp: mergeGuestStep_def Let_def)

lemma fold_mergeMemberRecord_other:
  "list_all (\<lambda>r. \<not> row_covers_member i r) rs \<Longrightarrow> fold mergeMemberRecord rs acc i = acc i"
  by (induction rs arbitrary: acc)
    (auto simp: mergeMemberRecord_def row_covers_member_def dest: truthy_Some)

lemma fold_mergeGuestRecord_other:
  "list_all (\<lambda>r. \<not> record_names_guest i r) rs \<Longrightarrow> fold mergeGuestRecord rs acc i = acc i"
  by (induction rs arbitrary: acc)
    (auto simp: mergeGuestRecord_def record_names_guest_def dest: truthy_Some)

lemma fold_mergePipelinerRecord_other:
  "list_all (\<lambda>r. \<not> record_names_pipeliner i r) rs \<Longrightarrow>
     fold mergePipelinerRecord rs acc i = acc i"
  by (induction rs arbitrary: acc)
    (auto simp: mergePipelinerRecord_def record_names_pipeliner_def dest: truthy_Some)

lemma mergeResponse_baseline:
  "memberInitialRef (mergeResponse p result st) = memberAttendance (mergeResponse p result st)"
  "guestInitialRef (mergeResponse p result st) = guestAttendance (mergeResponse p result st)"
  "pipelinerInitialRef (mergeResponse p result st) =
     pipelinerAttendance (mergeResponse p result st)"
  by (simp_all add: mergeResponse_def Let_def)

lemma settle_ok_ledger:
  assumes "success result"
  shows "memberAttendance (saveAttendance_settle p (ResponseOk result) st) =
           memberAttendance (mergeResponse p result st)"
    and "memberInitialRef (saveAttendance_settle p (ResponseOk result) st) =
           memberInitialRef (mergeResponse p result st)"
    and "guestAttendance (saveAttendance_settle p (ResponseOk result) st) =
           guestAttendance (mergeResponse p result st)"
    and "guestInitialRef (saveAttendance_settle p (ResponseOk result) st) =
           guestInitialRef (mergeResponse p result st)"
    and "pipelinerAttendance (saveAttendance_settle p (ResponseOk result) st) =
           pipelinerAttendance (mergeResponse p result st)"
    and "pipelinerInitialRef (saveAttendance_settle p (ResponseOk result) st) =
           pipelinerInitialRef (mergeResponse p result st)"
  using assms by (simp_all add: saveAttendance_settle_def Let_def)

lemma merged_member_status:
  assumes "i \<in> subject_id ` set (pending_members p)" "memberAttendance st i = Some e"
    "list_all (\<lambda>r. \<not> row_covers_member i r) (records result)"
  shows "\<exists>e'. memberAttendance (mergeResponse p result st) i = Some e' \<and>
           status_m e' = status_m e"
  using assms
  by (simp add: mergeResponse_def Let_def fold_mergeMemberRecord_other fold_mergeMemberStep
      mergeMemberStep_def orDefault_def nullish_def)

lemma merged_guest_attended:
  assumes "i \<in> subject_id ` set (pending_guests p)" "guestAttendance st i = Some e"
    "list_all (\<lambda>r. \<not> record_names_guest i r) (records result)"
  shows "\<exists>e'. guestAttendance (mergeResponse p result st) i = Some e' \<and>
           attended_g e' = attended_g e"
  using assms
  by (simp add: mergeResponse_def Let_def fold_mergeGuestRecord_other fold_mergeGuestStep
      mergeGuestStep_def orDefault_def nullish_def)

lemma merged_pipeliner_attended:
  assumes "i \<in> subject_id ` set (pending_pipeliners p)" "pipelinerAttendance st i = Some e"
    "list_all (\<lambda>r. \<not> record_names_pipeliner i r) (records result)"
  shows "\<exists>e'. pipelinerAttendance (mergeResponse p result st) i = Some e' \<and>
           attended_g e' = attended_g e"
  using assms
  by (simp add: mergeResponse_def Let_def fold_mergePipelinerRecord_other fold_mergeGuestStep
      mergeGuestStep_def orDefault_def nullish_def)

lemma clean_ledger_no_changes:
  assumes "memberInitialRef st = memberAttendance st" "guestInitialRef st = guestAttendance st"
    "pipelinerInitialRef st = pipelinerAttendance st"
  shows "\<not> memberDirty st i" "\<not> guestDirty st i" "\<not> pipelinerDirty st i"
    "\<not> hasUnsavedChanges st"
  using assms
  by (simp_all add: hasUnsavedChanges_def memberDirty_def guestDirty_def pipelinerDirty_def
      memberCurrent_def memberInitial_def guestCurrent_def guestInitial_def
      pipelinerCurrent_def pipelinerInitial_def list_ex_iff)

lemmas merge_eval =
  saveAttendance_settle_def mergeResponse_def mergeMemberStep_def mergeMemberRecord_def
  mergeGuestStep_def mergeGuestRecord_def mergePipelinerRecord_def

lemmas save_eval =
  saveAttendance_def saveAttendance_diff_def memberDiffStep_def guestDiffStep_def
  pipelinerDiffStep_def

section \<open>The saving guard and the autosave timer\<close>

lemma autosaveEffect_fields:
  "saving (autosaveEffect st) = saving st"
  "selectedMeetingId (autosaveEffect st) = selectedMeetingId st"
  "members (autosaveEffect st) = members st"
  "guests (autosaveEffect st) = guests st"
  "pipelinerEligibility (autosaveEffect st) = pipelinerEligibility st"
  "memberAttendance (autosaveEffect st) = memberAttendance st"
  "guestAttendance (autosaveEffect st) = guestAttendance st"
  "pipelinerAttendance (autosaveEffect st) = pipelinerAttendance st"
  "memberInitialRef (autosaveEffect st) = memberInitialRef st"
  "guestInitialRef (autosaveEffect st) = guestInitialRef st"
  "pipelinerInitialRef (autosaveEffect st) = pipelinerInitialRef st"
  by (simp_all add: autosaveEffect_def Let_def)

lemma autosaveEffect_timer:
  "autoSaveTimer (autosaveEffect st) =
     (selectedMeetingId st \<noteq> [] \<and> hasUnsavedChanges st \<and> \<not> saving st)"
  "autoSaveScheduled (autosaveEffect st) = autoSaveTimer (autosaveEffect st)"
  by (auto simp: autosaveEffect_def Let_def)

lemma handlers_keep_saving:
  "saving (handleMemberStatusChange i s st) = saving st"
  "saving (handleMarkAllPresent st) = saving st"
  "saving (handleGuestToggle i a st) = saving st"
  "saving (handlePipelinerToggle i a st) = saving st"
  "saving (loadAttendance silently result st) = saving st"
  by (simp_all add: handleMemberStatusChange_def handleMarkAllPresent_def
      handleGuestToggle_def handlePipelinerToggle_def loadAttendance_def Let_def
      split: sum.splits prod.splits)

lemma settle_clears_saving: "\<not> saving (saveAttendance_settle p outcome st)"
  by (simp add: saveAttendance_settle_def Let_def)

lemma saveAttendance_while_saving: "saving st \<Longrightarrow> saveAttendance auto st = (st, None)"
  by (simp add: saveAttendance_def)

lemma saveAttendance_returns_early:
  "saveAttendance auto st = (st', None) \<Longrightarrow> saving st' = saving st"
  by (auto simp: saveAttendance_def split: if_splits prod.splits)

lemma saveAttendance_issues:
  "saveAttendance auto st = (st', Some p) \<Longrightarrow> saving st' \<and> \<not> saving st"
  by (auto simp: saveAttendance_def split: if_splits prod.splits)

text \<open>
  In the schedules of \<open>step\<close>, where every event is rendered before the next one is
  handled, a request is in flight exactly while \<open>saving\<close> is set, and then no timeout is
  pending.
\<close>

lemma callSave_inv:
  assumes "save_guard_inv sys" "\<not> autoSaveTimer (page sys) \<or> \<not> saving (page sys)"
  shows "save_guard_inv (callSave auto sys)"
proof (cases "saveAttendance auto (page sys)")
  case (Pair st' r)
  show ?thesis
  proof (cases r)
    case None
    have "saving st' = saving (page sys)"
      using Pair None saveAttendance_returns_early by blast
    moreover have "saving (page sys) \<Longrightarrow> st' = page sys"
      using Pair saveAttendance_while_saving [of "page sys" auto] by simp
    ultimately show ?thesis
      using assms Pair None by (auto simp: callSave_def save_guard_inv_def)
  next
    case (Some p)
    have "saving st' \<and> \<not> saving (page sys)"
      using Pair Some saveAttendance_issues by blast
    then show ?thesis
      using assms(1) Pair Some
      by (simp add: callSave_def save_guard_inv_def autosaveEffect_fields autosaveEffect_timer)
  qed
qed

lemma callSave_while_saving:
  "saving (page sys) \<Longrightarrow> inflight (callSave auto sys) = inflight sys"
  by (simp add: callSave_def saveAttendance_while_saving)

lemma step_inv:
  assumes "save_guard_inv sys"
  shows "save_guard_inv (step ev sys)"
proof (cases ev)
  case (MemberStatusClick i s)
  then show ?thesis
    using assms
    by (auto simp: save_guard_inv_def controlsDisabled_def autosaveEffect_fields
        autosaveEffect_timer handlers_keep_saving split: if_splits)
next
  case MarkAllPresentClick
  then show ?thesis
    using assms
    by (auto simp: save_guard_inv_def markAllDisabled_def autosaveEffect_fields
        autosaveEffect_timer handlers_keep_saving split: if_splits)
next
  case (GuestToggleClick i a)
  then show ?thesis
    using assms
    by (auto simp: save_guard_inv_def controlsDisabled_def autosaveEffect_fields
        autosaveEffect_timer handlers_keep_saving split: if_splits)
next
  case (PipelinerToggleClick i a)
  then show ?thesis
    using assms
    by (auto simp: save_guard_inv_def controlsDisabled_def autosaveEffect_fields
        autosaveEffect_timer handlers_keep_saving split: if_splits)
next
  case SaveClick
  show ?thesis
  proof (cases "saveButtonDisabled (page sys)")
    case True
    then show ?thesis using assms SaveClick by simp
  next
    case False
    then have "\<not> saving (page sys)" by (simp add: saveButtonDisabled_def)
    then show ?thesis
      using assms SaveClick False callSave_inv [of sys False] by simp
  qed
next
  case AutoSaveTimeout
  show ?thesis
  proof (cases "autoSaveTimer (page sys)")
    case False
    then show ?thesis using assms AutoSaveTimeout by simp
  next
    case True
    have "save_guard_inv
        (sys\<lparr>page := (page sys)\<lparr>autoSaveTimer := False, autoSaveScheduled := False\<rparr>\<rparr>)"
      using assms by (simp add: save_guard_inv_def)
    then show ?thesis
      using AutoSaveTimeout True
        callSave_inv [of "sys\<lparr>page := (page sys)\<lparr>autoSaveTimer := False,
          autoSaveScheduled := False\<rparr>\<rparr>" True]
      by simp
  qed
next
  case (SaveReply outcome)
  show ?thesis
  proof (cases "inflight sys")
    case Nil
    then show ?thesis using assms SaveReply by simp
  next
    case (Cons p rest)
    then have "rest = []"
      using assms by (simp add: save_guard_inv_def split: if_splits)
    then show ?thesis
      using SaveReply Cons
      by (simp add: save_guard_inv_def autosaveEffect_fields settle_clears_saving)
  qed
next
  case (AttendanceLoaded silently result)
  then show ?thesis
    using assms
    by (auto simp: save_guard_inv_def autosaveEffect_fields autosaveEffect_timer
        handlers_keep_saving split: if_splits)
qed

lemma run_inv: "save_guard_inv sys \<Longrightarrow> save_guard_inv (run events sys)"
  unfolding run_def by (induction events arbitrary: sys) (simp_all add: step_inv)


lemmas page_eval =
  autosaveEffect_def hasUnsavedChanges_def memberDirty_def guestDirty_def pipelinerDirty_def
  controlsDisabled_def saveButtonDisabled_def markAllDisabled_def callSave_def

section \<open>The page between two renders\<close>

lemmas turn_eval =
  run_turns_def shown_def closure_view_def callRenderedSave_def

text \<open>
  Once a render has seen \<open>saving\<close> set, the save button and the attendance controls are
  disabled and the callback of the timeout returns at its first line.
\<close>

lemma rendered_saving_blocks_saves:
  assumes "saving (rendered w)"
  shows "turn_step (Handle SaveClick) w = w"
    "requests (turn_step (Handle AutoSaveTimeout) w) = requests w"
    "turn_step (Handle (MemberStatusClick i s)) w = w"
  using assms
  by (simp_all add: saveButtonDisabled_def controlsDisabled_def callRenderedSave_def
      closure_view_def saveAttendance_while_saving)

text \<open>
  Claim C7 fails between the call that issues a save and the next render. Ann is marked
  present, the page is rendered and the timeout is armed. The timeout fires:
  \<open>saveAttendance\<close> issues the automatic save and calls \<open>setSaving(true)\<close>, so \<open>saving\<close>
  is set, but the last render has not seen it. The save button of that render is not
  disabled and its \<open>saveAttendance\<close> reads \<open>saving\<close> as false, so a click now issues a
  second request while the first is in flight.
\<close>

theorem stale_guard_issues_second_save:
  "requests (run_turns ann_autosaved (shown two_members_page)) = [ann_auto_pending] \<and>
   saving (live (run_turns ann_autosaved (shown two_members_page))) \<and>
   \<not> saving (rendered (run_turns ann_autosaved (shown two_members_page))) \<and>
   requests (run_turns save_clicked_before_render (shown two_members_page)) =
     [ann_auto_pending, ann_pending] \<and>
   length (requests (run_turns save_clicked_before_render (shown two_members_page))) = 2"
  by (simp add: ann_autosaved_def save_clicked_before_render_def
      ann_auto_pending_def turn_eval example_pages ann_pending_def
      ann_upsert_def page_eval save_eval ledger_eval)

section \<open>The merge and an edit made while a save is in flight\<close>

text \<open>
  Claim C1, as the code has it. The merge of a successful reply stores a snapshot of the
  merged current map as the new baseline, so after it no subject is dirty and nothing is
  left to save. A subject of the saved lists that has a current entry and that no record
  of the reply names keeps its current value, and that value is now also its baseline:
  an edit made to it while the save was in flight is absorbed, not kept dirty.
\<close>

theorem merge_rebaselines_ledger:
  assumes "success result"
    and "st' = saveAttendance_settle p (ResponseOk result) st"
  shows
    "\<not> memberDirty st' i \<and> \<not> guestDirty st' i \<and> \<not> pipelinerDirty st' i \<and>
     \<not> hasUnsavedChanges st' \<and>
     (im \<in> subject_id ` set (pending_members p) \<and> memberAttendance st im = Some em \<and>
      list_all (\<lambda>r. \<not> row_covers_member im r) (records result) \<longrightarrow>
        status_m (memberCurrent st' im) = status_m em \<and>
        status_m (memberInitial st' im) = status_m em) \<and>
     (ig \<in> subject_id ` set (pending_guests p) \<and> guestAttendance st ig = Some eg \<and>
      list_all (\<lambda>r. \<not> record_names_guest ig r) (records result) \<longrightarrow>
        attended_g (guestCurrent st' ig) = attended_g eg \<and>
        attended_g (guestInitial st' ig) = attended_g eg) \<and>
     (ip \<in> subject_id ` set (pending_pipeliners p) \<and> pipelinerAttendance st ip = Some ep \<and>
      list_all (\<lambda>r. \<not> record_names_pipeliner ip r) (records result) \<longrightarrow>
        attended_g (pipelinerCurrent st' ip) = attended_g ep \<and>
        attended_g (pipelinerInitial st' ip) = attended_g ep)"
proof -
  note ledger = settle_ok_ledger [OF assms(1), of p st, folded assms(2)]
  have base: "memberInitialRef st' = memberAttendance st'"
    "guestInitialRef st' = guestAttendance st'"
    "pipelinerInitialRef st' = pipelinerAttendance st'"
    by (simp_all add: ledger mergeResponse_baseline)
  note clean = clean_ledger_no_changes [OF base]
  have member: "im \<in> subject_id ` set (pending_members p) \<and> memberAttendance st im = Some em \<and>
      list_all (\<lambda>r. \<not> row_covers_member im r) (records result) \<longrightarrow>
        status_m (memberCurrent st' im) = status_m em \<and>
        status_m (memberInitial st' im) = status_m em"
    using merged_member_status [of im p st em result]
    by (auto simp: memberCurrent_def memberInitial_def base ledger orDefault_def)
  have guest: "ig \<in> subject_id ` set (pending_guests p) \<and> guestAttendance st ig = Some eg \<and>
      list_all (\<lambda>r. \<not> record_names_guest ig r) (records result) \<longrightarrow>
        attended_g (guestCurrent st' ig) = attended_g eg \<and>
        attended_g (guestInitial st' ig) = attended_g eg"
    using merged_guest_attended [of ig p st eg result]
    by (auto simp: guestCurrent_def guestInitial_def base ledger orDefault_def)
  have pipeliner: "ip \<in> subject_id ` set (pending_pipeliners p) \<and>
      pipelinerAttendance st ip = Some ep \<and>
      list_all (\<lambda>r. \<not> record_names_pipeliner ip r) (records result) \<longrightarrow>
        attended_g (pipelinerCurrent st' ip) = attended_g ep \<and>
        attended_g (pipelinerInitial st' ip) = attended_g ep"
    using merged_pipeliner_attended [of ip p st ep result]
    by (auto simp: pipelinerCurrent_def pipelinerInitial_def base ledger orDefault_def)
  show ?thesis
    using clean member guest pipeliner by blast
qed

lemma edited_meanwhile_ledger:
  "requests edited_meanwhile = [edited_pending]"
  "saving (live edited_meanwhile)"
  "memberAttendance (live edited_meanwhile) ''m2'' =
     Some \<lparr>attendanceId_m = Some ''a2'', status_m = Some Absent\<rparr>"
  "guestAttendance (live edited_meanwhile) ''g2'' =
     Some \<lparr>attendanceId_g = Some ''a5'', attended_g = True\<rparr>"
  "pipelinerAttendance (live edited_meanwhile) ''p2'' =
     Some \<lparr>attendanceId_g = Some ''a8'', attended_g = True\<rparr>"
  "memberInitialRef (live edited_meanwhile) ''m2'' =
     Some \<lparr>attendanceId_m = Some ''a2'', status_m = Some Present\<rparr>"
  "guestInitialRef (live edited_meanwhile) ''g2'' =
     Some \<lparr>attendanceId_g = Some ''a5'', attended_g = True\<rparr>"
  "pipelinerInitialRef (live edited_meanwhile) ''p2'' =
     Some \<lparr>attendanceId_g = Some ''a8'', attended_g = True\<rparr>"
  by (simp_all add: edited_meanwhile_def edits_before_render_def edited_pending_def
      new_row_def turn_eval example_pages edited_page_def handleGuestToggle_def
      handlePipelinerToggle_def page_eval save_eval ledger_eval)

theorem merge_rebaselines_ledger_witness:
  "requests edited_meanwhile = [edited_pending] \<and>
   saving (live edited_meanwhile) \<and>
   success edited_saved \<and>
   ''m2'' \<in> subject_id ` set (pending_members edited_pending) \<and>
   memberAttendance (live edited_meanwhile) ''m2'' =
     Some \<lparr>attendanceId_m = Some ''a2'', status_m = Some Absent\<rparr> \<and>
   list_all (\<lambda>r. \<not> row_covers_member ''m2'' r) (records edited_saved) \<and>
   ''g2'' \<in> subject_id ` set (pending_guests edited_pending) \<and>
   guestAttendance (live edited_meanwhile) ''g2'' =
     Some \<lparr>attendanceId_g = Some ''a5'', attended_g = True\<rparr> \<and>
   list_all (\<lambda>r. \<not> record_names_guest ''g2'' r) (records edited_saved) \<and>
   ''p2'' \<in> subject_id ` set (pending_pipeliners edited_pending) \<and>
   pipelinerAttendance (live edited_meanwhile) ''p2'' =
     Some \<lparr>attendanceId_g = Some ''a8'', attended_g = True\<rparr> \<and>
   list_all (\<lambda>r. \<not> record_names_pipeliner ''p2'' r) (records edited_saved) \<and>
   memberDirty (live edited_meanwhile) ''m2'' \<and>
   \<not> memberDirty
       (saveAttendance_settle edited_pending (ResponseOk edited_saved) (live edited_meanwhile))
       ''m2'' \<and>
   \<not> guestDirty
       (saveAttendance_settle edited_pending (ResponseOk edited_saved) (live edited_meanwhile))
       ''g2'' \<and>
   \<not> pipelinerDirty
       (saveAttendance_settle edited_pending (ResponseOk edited_saved) (live edited_meanwhile))
       ''p2'' \<and>
   \<not> hasUnsavedChanges
       (saveAttendance_settle edited_pending (ResponseOk edited_saved) (live edited_meanwhile)) \<and>
   status_m (memberCurrent
     (saveAttendance_settle edited_pending (ResponseOk edited_saved) (live edited_meanwhile))
     ''m2'') = Some Absent \<and>
   status_m (memberInitial
     (saveAttendance_settle edited_pending (ResponseOk edited_saved) (live edited_meanwhile))
     ''m2'') = Some Absent \<and>
   attended_g (guestInitial
     (saveAttendance_settle edited_pending (ResponseOk edited_saved) (live edited_meanwhile))
     ''g2'') \<and>
   attended_g (pipelinerInitial
     (saveAttendance_settle edited_pending (ResponseOk edited_saved) (live edited_meanwhile))
     ''p2'')"
proof -
  have ok: "success edited_saved"
    by (simp add: edited_saved_def)
  note l = edited_meanwhile_ledger
  have listed:
    "''m2'' \<in> subject_id ` set (pending_members edited_pending)"
    "''g2'' \<in> subject_id ` set (pending_guests edited_pending)"
    "''p2'' \<in> subject_id ` set (pending_pipeliners edited_pending)"
    by (simp_all add: edited_pending_def edited_page_def blank_page_def person_def)
  have unnamed:
    "list_all (\<lambda>r. \<not> row_covers_member ''m2'' r) (records edited_saved)"
    "list_all (\<lambda>r. \<not> record_names_guest ''g2'' r) (records edited_saved)"
    "list_all (\<lambda>r. \<not> record_names_pipeliner ''p2'' r) (records edited_saved)"
    by (simp_all add: edited_saved_def saved_row_def row_covers_member_def
        record_names_guest_def record_names_pipeliner_def truthy_def)
  have dirty: "memberDirty (live edited_meanwhile) ''m2''"
    by (simp add: memberDirty_def ledger_eval l)
  note t = merge_rebaselines_ledger [OF ok refl, where p = edited_pending
      and st = "live edited_meanwhile" and im = "''m2''"
      and em = "\<lparr>attendanceId_m = Some ''a2'', status_m = Some Absent\<rparr>"
      and ig = "''g2''" and eg = "\<lparr>attendanceId_g = Some ''a5'', attended_g = True\<rparr>"
      and ip = "''p2''" and ep = "\<lparr>attendanceId_g = Some ''a8'', attended_g = True\<rparr>"]
  note r4 = t [THEN conjunct2, THEN conjunct2, THEN conjunct2, THEN conjunct2]
  have clean_m: "\<not> memberDirty
       (saveAttendance_settle edited_pending (ResponseOk edited_saved) (live edited_meanwhile))
       ''m2''"
    using t [where i = "''m2''", THEN conjunct1] .
  have clean_g: "\<not> guestDirty
       (saveAttendance_settle edited_pending (ResponseOk edited_saved) (live edited_meanwhile))
       ''g2''"
    using t [where i = "''g2''", THEN conjunct2, THEN conjunct1] .
  have clean_p: "\<not> pipelinerDirty
       (saveAttendance_settle edited_pending (ResponseOk edited_saved) (live edited_meanwhile))
       ''p2''"
    using t [where i = "''p2''", THEN conjunct2, THEN conjunct2, THEN conjunct1] .
  have clean: "\<not> hasUnsavedChanges
       (saveAttendance_settle edited_pending (ResponseOk edited_saved) (live edited_meanwhile))"
    using t [where i = "''m2''", THEN conjunct2, THEN conjunct2, THEN conjunct2, THEN conjunct1] .
  have m: "status_m (memberCurrent
       (saveAttendance_settle edited_pending (ResponseOk edited_saved) (live edited_meanwhile))
       ''m2'') = Some Absent \<and>
     status_m (memberInitial
       (saveAttendance_settle edited_pending (ResponseOk edited_saved) (live edited_meanwhile))
       ''m2'') = Some Absent"
    using r4 [THEN conjunct1] listed(1) l(3) unnamed(1) by simp
  have g: "attended_g (guestInitial
       (saveAttendance_settle edited_pending (ResponseOk edited_saved) (live edited_meanwhile))
       ''g2'')"
    using r4 [THEN conjunct2, THEN conjunct1] listed(2) l(4) unnamed(2) by simp
  have pp: "attended_g (pipelinerInitial
       (saveAttendance_settle edited_pending (ResponseOk edited_saved) (live edited_meanwhile))
       ''p2'')"
    using r4 [THEN conjunct2, THEN conjunct2] listed(3) l(5) unnamed(3) by simp
  show ?thesis
    using ok l(1-5) listed unnamed dirty clean_m clean_g clean_p clean m g pp by blast
qed


text \<open>
  Claim C1 as stated fails on the merge. Ann is marked present and the timeout issues
  her save, whose batch holds her upsert only. Before React renders \<open>saving\<close>, the
  controls are still enabled and Ben is marked absent: he is dirty while the save is in
  flight. The page is rendered, the reply for Ann is merged, the page is rendered
  again. Afterwards Ben is not dirty, his baseline is the edit that was never sent,
  nothing is left to save and no timeout is armed.
\<close>

theorem edit_before_render_is_absorbed:
  "requests (run_turns ben_marked_before_render (shown two_members_page)) =
     [ann_auto_pending] \<and>
   req_upserts (pending_request ann_auto_pending) = [ann_upsert] \<and>
   upsert_member_id ann_upsert = Some ''m1'' \<and>
   saving (live (run_turns ben_marked_before_render (shown two_members_page))) \<and>
   memberDirty (live (run_turns ben_marked_before_render (shown two_members_page))) ''m2'' \<and>
   success ann_saved \<and>
   requests (run_turns ann_reply_merged (shown two_members_page)) = [] \<and>
   \<not> memberDirty (live (run_turns ann_reply_merged (shown two_members_page))) ''m2'' \<and>
   status_m (memberCurrent (live (run_turns ann_reply_merged (shown two_members_page))) ''m2'') =
     Some Absent \<and>
   status_m (memberInitial (live (run_turns ann_reply_merged (shown two_members_page))) ''m2'') =
     Some Absent \<and>
   \<not> hasUnsavedChanges (live (run_turns ann_reply_merged (shown two_members_page))) \<and>
   \<not> autoSaveTimer (live (run_turns ann_reply_merged (shown two_members_page)))"
  by (simp add: ann_autosaved_def ben_marked_before_render_def ann_reply_merged_def
      ann_auto_pending_def turn_eval example_pages ann_pending_def ann_saved_def
      ann_upsert_def page_eval save_eval ledger_eval merge_eval)


section \<open>A failed save leaves the ledger dirty and the timer armed again\<close>

lemma saveFailed_fields:
  "selectedMeetingId (saveFailed p e st) = selectedMeetingId st"
  "members (saveFailed p e st) = members st"
  "guests (saveFailed p e st) = guests st"
  "pipelinerEligibility (saveFailed p e st) = pipelinerEligibility st"
  "memberAttendance (saveFailed p e st) = memberAttendance st"
  "guestAttendance (saveFailed p e st) = guestAttendance st"
  "pipelinerAttendance (saveFailed p e st) = pipelinerAttendance st"
  "memberInitialRef (saveFailed p e st) = memberInitialRef st"
  "guestInitialRef (saveFailed p e st) = guestInitialRef st"
  "pipelinerInitialRef (saveFailed p e st) = pipelinerInitialRef st"
  by (simp_all add: saveFailed_def Let_def)

lemma settle_failed_fields:
  assumes "outcome_failed outcome"
  shows "selectedMeetingId (saveAttendance_settle p outcome st) = selectedMeetingId st"
    and "members (saveAttendance_settle p outcome st) = members st"
    and "guests (saveAttendance_settle p outcome st) = guests st"
    and "pipelinerEligibility (saveAttendance_settle p outcome st) = pipelinerEligibility st"
    and "memberAttendance (saveAttendance_settle p outcome st) = memberAttendance st"
    and "guestAttendance (saveAttendance_settle p outcome st) = guestAttendance st"
    and "pipelinerAttendance (saveAttendance_settle p outcome st) = pipelinerAttendance st"
    and "memberInitialRef (saveAttendance_settle p outcome st) = memberInitialRef st"
    and "guestInitialRef (saveAttendance_settle p outcome st) = guestInitialRef st"
    and "pipelinerInitialRef (saveAttendance_settle p outcome st) = pipelinerInitialRef st"
  using assms
  by (cases outcome; simp add: saveAttendance_settle_def outcome_failed_def saveFailed_fields
      Let_def)+

lemma same_ledger_diff:
  assumes "same_ledger a b"
  shows "saveAttendance_diff a = saveAttendance_diff b"
    and "hasUnsavedChanges a = hasUnsavedChanges b"
proof -
  have eqs: "selectedMeetingId a = selectedMeetingId b" "members a = members b"
    "guests a = guests b" "pipelinerEligibility a = pipelinerEligibility b"
    "memberAttendance a = memberAttendance b" "guestAttendance a = guestAttendance b"
    "pipelinerAttendance a = pipelinerAttendance b"
    "memberInitialRef a = memberInitialRef b" "guestInitialRef a = guestInitialRef b"
    "pipelinerInitialRef a = pipelinerInitialRef b"
    using assms by (simp_all add: same_ledger_def)
  have m: "memberDiffStep a = memberDiffStep b"
    by (intro ext)
      (simp add: memberDiffStep_def memberCurrent_def memberInitial_def eqs Let_def
        split: prod.splits option.splits)
  have g: "guestDiffStep a = guestDiffStep b"
    by (intro ext)
      (simp add: guestDiffStep_def guestCurrent_def guestInitial_def eqs Let_def
        split: prod.splits)
  have p: "pipelinerDiffStep a = pipelinerDiffStep b"
    by (intro ext)
      (simp add: pipelinerDiffStep_def pipelinerCurrent_def pipelinerInitial_def eqs Let_def
        split: prod.splits)
  show "saveAttendance_diff a = saveAttendance_diff b"
    by (simp add: saveAttendance_diff_def m g p eqs)
  show "hasUnsavedChanges a = hasUnsavedChanges b"
    by (simp add: hasUnsavedChanges_def memberDirty_def guestDirty_def
        pipelinerDirty_def memberCurrent_def memberInitial_def guestCurrent_def
        guestInitial_def pipelinerCurrent_def pipelinerInitial_def eqs)
qed


lemma saveAttendance_issue:
  assumes "selectedMeetingId st \<noteq> []" "\<not> saving st"
    and "fst (saveAttendance_diff st) \<noteq> [] \<or> fst (snd (saveAttendance_diff st)) \<noteq> []"
  shows "\<exists>st' q. saveAttendance auto st = (st', Some q) \<and> pending_auto q = auto \<and>
           req_upserts (pending_request q) = fst (saveAttendance_diff st) \<and>
           req_deletions (pending_request q) = fst (snd (saveAttendance_diff st))"
  using assms by (cases "saveAttendance_diff st") (auto simp: saveAttendance_def)

text \<open>
  Claim C6, as the code has it. When the reply to the save in flight is a failure (the
  fetch throws, the response is not ok, or its body says \<open>success: false\<close>), whether that
  save was manual or automatic, the ledger is left as it was and still dirty, \<open>saving\<close>
  is cleared, and with a meeting selected the autosave effect arms the timer again. When
  that timer fires and the diff is not empty, an automatic save with the same upserts and
  deletions is issued, without any new edit or click.
\<close>

theorem failed_save_rearms_autosave:
  assumes "inflight sys = p # rest"
    and "outcome_failed outcome"
    and "selectedMeetingId (page sys) \<noteq> []"
    and "hasUnsavedChanges (page sys)"
    and "sys' = step (SaveReply outcome) sys"
  shows
    "\<not> saving (page sys') \<and> same_ledger (page sys') (page sys) \<and>
     hasUnsavedChanges (page sys') \<and> autoSaveTimer (page sys') \<and>
     autoSaveScheduled (page sys') \<and> inflight sys' = rest \<and>
     (fst (saveAttendance_diff (page sys)) \<noteq> [] \<or>
      fst (snd (saveAttendance_diff (page sys))) \<noteq> [] \<longrightarrow>
        (\<exists>q. inflight (step AutoSaveTimeout sys') = rest @ [q] \<and> pending_auto q \<and>
              req_upserts (pending_request q) = fst (saveAttendance_diff (page sys)) \<and>
              req_deletions (pending_request q) = fst (snd (saveAttendance_diff (page sys)))))"
proof -
  define settled where "settled = saveAttendance_settle p outcome (page sys)"
  have sys': "sys' = sys\<lparr>page := autosaveEffect settled, inflight := rest\<rparr>"
    using assms(1,5) by (simp add: settled_def)
  have same_settled: "same_ledger settled (page sys)"
    unfolding settled_def same_ledger_def
    using settle_failed_fields [OF assms(2), of p "page sys"] by simp
  have not_saving: "\<not> saving settled"
    by (simp add: settled_def settle_clears_saving)
  have selected: "selectedMeetingId settled \<noteq> []"
    using same_settled assms(3) by (simp add: same_ledger_def)
  have dirty: "hasUnsavedChanges settled"
    using same_ledger_diff(2) [OF same_settled] assms(4) by simp
  have same: "same_ledger (page sys') (page sys)"
    using same_settled by (simp add: sys' same_ledger_def autosaveEffect_fields)
  have armed: "autoSaveTimer (page sys')" "autoSaveScheduled (page sys')"
    using selected dirty not_saving by (simp_all add: sys' autosaveEffect_timer)
  have idle: "\<not> saving (page sys')"
    using not_saving by (simp add: sys' autosaveEffect_fields)
  have still_dirty: "hasUnsavedChanges (page sys')"
    using same_ledger_diff(2) [OF same] assms(4) by simp
  have retry: "\<exists>q. inflight (step AutoSaveTimeout sys') = rest @ [q] \<and> pending_auto q \<and>
              req_upserts (pending_request q) = fst (saveAttendance_diff (page sys)) \<and>
              req_deletions (pending_request q) = fst (snd (saveAttendance_diff (page sys)))"
    if nonempty: "fst (saveAttendance_diff (page sys)) \<noteq> [] \<or>
      fst (snd (saveAttendance_diff (page sys))) \<noteq> []"
  proof -
    define fired where
      "fired = (page sys')\<lparr>autoSaveTimer := False, autoSaveScheduled := False\<rparr>"
    have same_fired: "same_ledger fired (page sys)"
      using same by (simp add: fired_def same_ledger_def)
    have diff: "saveAttendance_diff fired = saveAttendance_diff (page sys)"
      by (rule same_ledger_diff(1) [OF same_fired])
    have "selectedMeetingId fired \<noteq> []" "\<not> saving fired"
      using same_fired assms(3) idle by (simp_all add: same_ledger_def fired_def)
    then obtain st' q where q: "saveAttendance True fired = (st', Some q)" "pending_auto q"
      "req_upserts (pending_request q) = fst (saveAttendance_diff (page sys))"
      "req_deletions (pending_request q) = fst (snd (saveAttendance_diff (page sys)))"
      using saveAttendance_issue [of fired True] nonempty diff by auto
    have fires: "step AutoSaveTimeout sys' = callSave True (sys'\<lparr>page := fired\<rparr>)"
      using armed(1) by (simp add: fired_def)
    have "inflight (step AutoSaveTimeout sys') = rest @ [q]"
      unfolding fires using q(1) by (simp add: callSave_def sys')
    then show ?thesis using q by blast
  qed
  show ?thesis
    using idle same still_dirty armed retry by (simp add: sys')
qed


theorem failed_save_rearms_autosave_witness:
  "inflight ann_in_flight = ann_pending # [] \<and> \<not> pending_auto ann_pending \<and>
   outcome_failed (ResponseNotOk (Some ''connection refused'')) \<and>
   selectedMeetingId (page ann_in_flight) \<noteq> [] \<and>
   hasUnsavedChanges (page ann_in_flight) \<and>
   fst (saveAttendance_diff (page ann_in_flight)) = [ann_upsert] \<and>
   \<not> saving (page (step (SaveReply (ResponseNotOk (Some ''connection refused''))) ann_in_flight)) \<and>
   autoSaveTimer
     (page (step (SaveReply (ResponseNotOk (Some ''connection refused''))) ann_in_flight)) \<and>
   (\<exists>q. inflight (step AutoSaveTimeout
            (step (SaveReply (ResponseNotOk (Some ''connection refused''))) ann_in_flight)) =
          [] @ [q] \<and>
        pending_auto q \<and> req_upserts (pending_request q) = [ann_upsert])"
proof -
  have pre:
    "inflight ann_in_flight = ann_pending # []" "\<not> pending_auto ann_pending"
    "outcome_failed (ResponseNotOk (Some ''connection refused''))"
    "selectedMeetingId (page ann_in_flight) \<noteq> []"
    "hasUnsavedChanges (page ann_in_flight)"
    "fst (saveAttendance_diff (page ann_in_flight)) = [ann_upsert]"
    by (simp_all add: ann_in_flight_def ann_saving_def example_pages ann_pending_def
        ann_upsert_def outcome_failed_def page_eval save_eval ledger_eval)
  note t = failed_save_rearms_autosave [OF pre(1) pre(3) pre(4) pre(5) refl]
  have nonempty: "fst (saveAttendance_diff (page ann_in_flight)) \<noteq> [] \<or>
      fst (snd (saveAttendance_diff (page ann_in_flight))) \<noteq> []"
    using pre(6) by simp
  have retry: "\<exists>q. inflight (step AutoSaveTimeout
            (step (SaveReply (ResponseNotOk (Some ''connection refused''))) ann_in_flight)) =
          [] @ [q] \<and>
        pending_auto q \<and> req_upserts (pending_request q) = [ann_upsert]"
    using t nonempty unfolding pre(6) by blast
  show ?thesis
    using pre t retry by blast
qed

text \<open>
  Claim C6 as stated fails. Ann is marked present, the operator clicks save, and the
  fetch of that manual save fails. Nobody edits or clicks again; the timer is armed all
  the same, and when it fires an automatic save for Ann is in flight.
\<close>

theorem failed_manual_save_is_retried:
  "inflight (run [MemberStatusClick ''m1'' (Some Present), SaveClick] idle_system) =
     [ann_pending] \<and>
   pending_auto ann_pending = False \<and>
   inflight
     (run [MemberStatusClick ''m1'' (Some Present), SaveClick,
           SaveReply (FetchThrows (ErrorObject ''Failed to fetch''))] idle_system) = [] \<and>
   autoSaveTimer (page
     (run [MemberStatusClick ''m1'' (Some Present), SaveClick,
           SaveReply (FetchThrows (ErrorObject ''Failed to fetch''))] idle_system)) \<and>
   inflight
     (run [MemberStatusClick ''m1'' (Some Present), SaveClick,
           SaveReply (FetchThrows (ErrorObject ''Failed to fetch'')), AutoSaveTimeout]
        idle_system) =
     [ann_pending\<lparr>pending_auto := True\<rparr>]"
  by (simp add: run_def idle_system_def example_pages ann_pending_def ann_upsert_def
      page_eval save_eval ledger_eval saveAttendance_settle_def saveFailed_def
      thrownMessage_def)

section \<open>Validation of the meeting id\<close>

text \<open>
  Claim C8. When the payload has no \<open>meetingId\<close> (the payload is null, the key is absent
  or its value is the empty string), whatever its upserts and deletions are, the answer
  is the JSON \<open>{ success: false, error: "meetingId is required." }\<close> with status 400,
  and the store is exactly as before: no row changed, no transaction opened, nothing
  added to the log of accesses.
\<close>

theorem missing_meeting_rejected:
  assumes "\<not> truthy (Option.bind payload meetingId)"
  shows "POST env f payload b =
           (Json 400 \<lparr>body_success = False, body_records = None, body_deletedIds = None,
                      body_error = Some ''meetingId is required.''\<rparr>, b) \<and>
         accesses_made b (snd (POST env f payload b)) = []"
  using assms by (simp add: POST_def error_reply_def accesses_made_def)

theorem missing_meeting_rejected_witness:
  "\<not> truthy (Option.bind (Some (create_ann\<lparr>meetingId := Some []\<rparr>)) meetingId) \<and>
   \<not> truthy (Option.bind (Some (create_ann\<lparr>meetingId := None\<rparr>)) meetingId) \<and>
   \<not> truthy (Option.bind None meetingId) \<and>
   POST direct_environment no_faults (Some (create_ann\<lparr>meetingId := Some []\<rparr>)) example_store =
     (Json 400 \<lparr>body_success = False, body_records = None, body_deletedIds = None,
                body_error = Some ''meetingId is required.''\<rparr>, example_store) \<and>
   POST service_environment no_faults (Some (create_ann\<lparr>meetingId := None\<rparr>)) example_store =
     (Json 400 \<lparr>body_success = False, body_records = None, body_deletedIds = None,
                body_error = Some ''meetingId is required.''\<rparr>, example_store) \<and>
   POST session_environment no_faults None example_store =
     (Json 400 \<lparr>body_success = False, body_records = None, body_deletedIds = None,
                body_error = Some ''meetingId is required.''\<rparr>, example_store)"
proof -
  have a: "\<not> truthy (Option.bind (Some (create_ann\<lparr>meetingId := Some []\<rparr>)) meetingId)"
    and b: "\<not> truthy (Option.bind (Some (create_ann\<lparr>meetingId := None\<rparr>)) meetingId)"
    and c: "\<not> truthy (Option.bind None meetingId)"
    by (simp_all add: truthy_def)
  show ?thesis
    using a b c
      missing_meeting_rejected [OF a, of direct_environment no_faults example_store]
      missing_meeting_rejected [OF b, of service_environment no_faults example_store]
      missing_meeting_rejected [OF c, of session_environment no_faults example_store]
    by blast
qed

section \<open>The statements of the transaction\<close>

lemma delete_ids_Nil [simp]: "delete_ids [] t = t"
  by (simp add: delete_ids_def)

lemma pg_connect_D:
  "pg_connect f b = (r, b1) \<Longrightarrow>
     r = f PoolConnect \<and> access_log b1 = access_log b @ [PoolConnect] \<and>
     attendance_table b1 = attendance_table b \<and> transaction b1 = transaction b \<and>
     entropy b1 = entropy b"
  by (auto simp: pg_connect_def record_access_def)

lemma pg_begin_D:
  "pg_begin f b = (r, b1) \<Longrightarrow>
     r = f (Query Begin) \<and> access_log b1 = access_log b @ [Query Begin] \<and>
     attendance_table b1 = attendance_table b \<and> entropy b1 = entropy b \<and>
     (r = None \<longrightarrow> transaction b1 = Some (connection_view b)) \<and>
     (r \<noteq> None \<longrightarrow> transaction b1 = transaction b)"
  by (auto simp: pg_begin_def record_access_def connection_view_def orDefault_def Let_def
      split: option.splits)

lemma pg_delete_D:
  "transaction b = Some w \<Longrightarrow> pg_delete f d b = (r, b1) \<Longrightarrow>
     r = f (Query (DeleteWhereIdAny d)) \<and>
     access_log b1 = access_log b @ [Query (DeleteWhereIdAny d)] \<and>
     attendance_table b1 = attendance_table b \<and> entropy b1 = entropy b \<and>
     transaction b1 = (if r = None then Some (delete_ids d w) else Some w)"
  by (auto simp: pg_delete_def record_access_def connection_view_def connection_write_def
      orDefault_def Let_def split: option.splits)

lemma pg_upsert_D:
  "transaction b = Some w \<Longrightarrow> pg_upsert f u b = (r, b1) \<Longrightarrow>
     access_log b1 = access_log b @ [Query (InsertOnConflict u)] \<and>
     attendance_table b1 = attendance_table b \<and>
     (case r of
        Inl e \<Rightarrow> transaction b1 = Some w
      | Inr rows \<Rightarrow>
          f (Query (InsertOnConflict u)) = None \<and>
          distinct (map fst (fst (normalized (entropy b) u))) \<and>
          rows = fst (insert_on_conflict (fst (normalized (entropy b) u)) w) \<and>
          transaction b1 = Some (snd (insert_on_conflict (fst (normalized (entropy b) u)) w)) \<and>
          entropy b1 = snd (normalized (entropy b) u)) \<and>
     (f (Query (InsertOnConflict u)) \<noteq> None \<longrightarrow> (\<exists>e. r = Inl e))"
  by (auto simp: pg_upsert_def record_access_def connection_view_def connection_write_def
      orDefault_def Let_def split: option.splits prod.splits if_splits)

lemma pg_commit_D:
  "transaction b = Some w \<Longrightarrow> pg_commit f b = (r, b1) \<Longrightarrow>
     r = f (Query Commit) \<and> access_log b1 = access_log b @ [Query Commit] \<and>
     entropy b1 = entropy b \<and>
     (r = None \<longrightarrow> attendance_table b1 = w \<and> transaction b1 = None) \<and>
     (r \<noteq> None \<longrightarrow> attendance_table b1 = attendance_table b \<and> transaction b1 = Some w)"
  by (auto simp: pg_commit_def record_access_def Let_def split: option.splits)

lemma pg_rollback_D:
  "pg_rollback f b = (r, b1) \<Longrightarrow>
     r = f (Query Rollback) \<and> access_log b1 = access_log b @ [Query Rollback] \<and>
     attendance_table b1 = attendance_table b \<and> entropy b1 = entropy b \<and>
     (r = None \<longrightarrow> transaction b1 = None)"
  by (auto simp: pg_rollback_def record_access_def Let_def split: option.splits)


lemma pg_try_outcome:
  assumes block: "pg_try f ups dels b = (r, b', c)"
  shows
    "(\<exists>new. access_log b' = access_log b @ new \<and> take 1 new = [PoolConnect] \<and>
        list_all (\<lambda>a. access_tier a = DirectConnection \<and> a \<noteq> Release) new \<and>
        (\<forall>rows. r = Inr rows \<longrightarrow> list_all (\<lambda>a. f a = None) new)) \<and>
     (\<forall>e. r = Inl e \<longrightarrow>
        attendance_table b' = attendance_table b \<and> (\<not> c \<longrightarrow> transaction b' = transaction b)) \<and>
     (transaction_step_fails f ups dels \<longrightarrow> (\<exists>e. r = Inl e)) \<and>
     (\<forall>rows. r = Inr rows \<longrightarrow>
        c \<and> transaction b' = None \<and>
        distinct (map fst (fst (normalized (entropy b) ups))) \<and>
        rows = fst (insert_on_conflict (fst (normalized (entropy b) ups))
                      (delete_ids dels (connection_view b))) \<and>
        attendance_table b' =
          snd (insert_on_conflict (fst (normalized (entropy b) ups))
                 (delete_ids dels (connection_view b))) \<and>
        entropy b' = snd (normalized (entropy b) ups))"
proof -
  obtain r1 b1 where s1: "pg_connect f b = (r1, b1)" by force
  note d1 = pg_connect_D [OF s1]
  show ?thesis
  proof (cases r1)
    case (Some e)
    then have "r = Inl e" "b' = b1" "\<not> c"
      using block s1 by (simp_all add: pg_try_def)
    then show ?thesis
      using d1 Some by (simp add: transaction_step_fails_def)
  next
    case None
    note n1 = None
    obtain r2 b2 where s2: "pg_begin f b1 = (r2, b2)" by force
    note d2 = pg_begin_D [OF s2]
    show ?thesis
    proof (cases r2)
      case (Some e)
      then have "r = Inl e" "b' = b2" "c"
        using block s1 s2 n1 by (simp_all add: pg_try_def)
      then show ?thesis
        using d1 d2 n1 Some by (simp add: transaction_step_fails_def)
    next
      case None
      note n2 = None
      have t2: "transaction b2 = Some (connection_view b)"
        using d1 d2 n2 by (simp add: connection_view_def)
      obtain r3 b3 where s3:
        "(if dels \<noteq> [] then pg_delete f dels b2 else (None, b2)) = (r3, b3)" by force
      have d3: "access_log b3 =
            access_log b2 @ (if dels \<noteq> [] then [Query (DeleteWhereIdAny dels)] else []) \<and>
          attendance_table b3 = attendance_table b2 \<and> entropy b3 = entropy b2 \<and>
          r3 = (if dels \<noteq> [] then f (Query (DeleteWhereIdAny dels)) else None) \<and>
          transaction b3 =
            (if r3 = None then Some (delete_ids dels (connection_view b))
             else Some (connection_view b))"
      proof (cases "dels = []")
        case True
        then show ?thesis using s3 t2 by auto
      next
        case False
        then have "pg_delete f dels b2 = (r3, b3)" using s3 by simp
        from pg_delete_D [OF t2 this] False show ?thesis by simp
      qed
      show ?thesis
      proof (cases r3)
        case (Some e)
        then have "r = Inl e" "b' = b3" "c"
          using block s1 s2 s3 n1 n2 by (simp_all add: pg_try_def)
        then show ?thesis
          using d1 d2 d3 n1 n2 Some
          by (auto simp: transaction_step_fails_def split: if_splits)
      next
        case None
        note n3 = None
        have t3: "transaction b3 = Some (delete_ids dels (connection_view b))"
          using d3 n3 by simp
        obtain r4 b4 where s4:
          "(if ups \<noteq> [] then pg_upsert f ups b3 else (Inr [], b3)) = (r4, b4)" by force
        have e3: "entropy b3 = entropy b"
          using d1 d2 d3 by simp
        have d4: "access_log b4 =
              access_log b3 @ (if ups \<noteq> [] then [Query (InsertOnConflict ups)] else []) \<and>
            attendance_table b4 = attendance_table b3 \<and>
            (ups \<noteq> [] \<and> f (Query (InsertOnConflict ups)) \<noteq> None \<longrightarrow> (\<exists>e. r4 = Inl e)) \<and>
            (case r4 of
               Inl e \<Rightarrow> transaction b4 = Some (delete_ids dels (connection_view b))
             | Inr rows \<Rightarrow>
                 (ups \<noteq> [] \<longrightarrow> f (Query (InsertOnConflict ups)) = None) \<and>
                 distinct (map fst (fst (normalized (entropy b) ups))) \<and>
                 rows = fst (insert_on_conflict (fst (normalized (entropy b) ups))
                               (delete_ids dels (connection_view b))) \<and>
                 transaction b4 =
                   Some (snd (insert_on_conflict (fst (normalized (entropy b) ups))
                                (delete_ids dels (connection_view b)))) \<and>
                 entropy b4 = snd (normalized (entropy b) ups))"
        proof (cases "ups = []")
          case True
          then show ?thesis using s4 t3 e3 by auto
        next
          case False
          then have "pg_upsert f ups b3 = (r4, b4)" using s4 by simp
          from pg_upsert_D [OF t3 this] False e3 show ?thesis
            by (simp split: sum.splits)
        qed
        show ?thesis
        proof (cases r4)
          case (Inl e)
          then have "r = Inl e" "b' = b4" "c"
            using block s1 s2 s3 s4 n1 n2 n3 by (simp_all add: pg_try_def)
          then show ?thesis
            using d1 d2 d3 d4 n1 n2 n3 Inl
            by (auto simp: transaction_step_fails_def split: if_splits)
        next
          case (Inr rows)
          note n4 = Inr
          have t4: "transaction b4 =
              Some (snd (insert_on_conflict (fst (normalized (entropy b) ups))
                           (delete_ids dels (connection_view b))))"
            using d4 n4 by simp
          obtain r5 b5 where s5: "pg_commit f b4 = (r5, b5)" by force
          note d5 = pg_commit_D [OF t4 s5]
          show ?thesis
          proof (cases r5)
            case (Some e)
            then have "r = Inl e" "b' = b5" "c"
              using block s1 s2 s3 s4 s5 n1 n2 n3 n4 by (simp_all add: pg_try_def)
            then show ?thesis
              using d1 d2 d3 d4 d5 n1 n2 n3 n4 Some
              by (auto simp: transaction_step_fails_def split: if_splits)
          next
            case None
            then have "r = Inr rows" "b' = b5" "c"
              using block s1 s2 s3 s4 s5 n1 n2 n3 n4 by (simp_all add: pg_try_def)
            then show ?thesis
              using d1 d2 d3 d4 d5 n1 n2 n3 n4 None
              by (auto simp: transaction_step_fails_def split: if_splits)
          qed
        qed
      qed
    qed
  qed
qed


section \<open>Outcomes of the three tiers\<close>

lemma accesses_made_append:
  "access_log b' = access_log b @ new \<Longrightarrow> accesses_made b b' = new"
  by (simp add: accesses_made_def)

lemma accesses_withinI:
  "access_log b' = access_log b @ new \<Longrightarrow> list_all (\<lambda>a. access_tier a = t) new \<Longrightarrow>
     accesses_within t b b'"
  by (simp add: accesses_within_def)

lemma list_all_weaken:
  "list_all P xs \<Longrightarrow> (\<And>x. P x \<Longrightarrow> Q x) \<Longrightarrow> list_all Q xs"
  by (simp add: list_all_iff)

lemma saveWithPool_outcome:
  assumes call: "saveWithPool f ups dels b = (reply, b')"
  shows
    "accesses_within DirectConnection b b' \<and>
     (faulted f b b' \<longrightarrow> \<not> reply_succeeded reply) \<and>
     (transaction_step_fails f ups dels \<longrightarrow> \<not> reply_succeeded reply) \<and>
     (\<not> reply_succeeded reply \<longrightarrow>
        (\<exists>msg. reply = error_reply 500 msg) \<or>
        (\<exists>e. f (Query Rollback) = Some e \<and> reply = Unhandled e)) \<and>
     (\<not> reply_succeeded reply \<and> f (Query Rollback) = None \<and> transaction b = None \<longrightarrow>
        attendance_table b' = attendance_table b \<and> transaction b' = None \<and>
        (\<exists>msg. reply = error_reply 500 msg)) \<and>
     (reply_succeeded reply \<longrightarrow>
        distinct (map fst (fst (normalized (entropy b) ups))) \<and>
        reply =
          success_reply
            (fst (insert_on_conflict (fst (normalized (entropy b) ups))
                    (delete_ids dels (connection_view b)))) dels \<and>
        attendance_table b' =
          snd (insert_on_conflict (fst (normalized (entropy b) ups))
                 (delete_ids dels (connection_view b))) \<and>
        transaction b' = None \<and> entropy b' = snd (normalized (entropy b) ups)) \<and>
     take 1 (accesses_made b b') = [PoolConnect]"
proof -
  obtain r b1 c where block: "pg_try f ups dels b = (r, b1, c)"
    by (metis prod_cases3)
  note o = pg_try_outcome [OF block]
  obtain new where new: "access_log b1 = access_log b @ new"
    "list_all (\<lambda>a. access_tier a = DirectConnection \<and> a \<noteq> Release) new"
    "\<forall>rows. r = Inr rows \<longrightarrow> list_all (\<lambda>a. f a = None) new"
    and connects: "take 1 new = [PoolConnect]"
    using o by blast
  have first: "take 1 (new @ more) = [PoolConnect]" for more
    using connects by (cases new) simp_all
  have tier_new: "list_all (\<lambda>a. access_tier a = DirectConnection) new"
    using new(2) by (rule list_all_weaken) simp
  show ?thesis
  proof (cases r)
    case (Inr rows)
    have reply: "reply = success_reply rows dels" and b': "b' = record_access Release b1"
      using call block Inr by (simp_all add: saveWithPool_def)
    have log: "access_log b' = access_log b @ (new @ [Release])"
      using new(1) by (simp add: b' record_access_def)
    have ok: "reply_succeeded reply"
      by (simp add: reply reply_succeeded_def success_reply_def)
    have within: "accesses_within DirectConnection b b'"
      using log tier_new by (intro accesses_withinI [where new = "new @ [Release]"]) simp_all
    have quiet: "\<not> faulted f b b'"
      using new(3) Inr
      by (simp add: faulted_def accesses_made_append [OF log] list_ex_iff list_all_iff)
    have fields: "attendance_table b' = attendance_table b1" "transaction b' = transaction b1"
      "entropy b' = entropy b1"
      by (simp_all add: b' record_access_def)
    have made: "take 1 (accesses_made b b') = [PoolConnect]"
      unfolding accesses_made_append [OF log] by (rule first)
    show ?thesis
      using o Inr within quiet ok made by (simp add: fields reply)
  next
    case (Inl e)
    have unchanged: "attendance_table b1 = attendance_table b"
      "\<not> c \<longrightarrow> transaction b1 = transaction b"
      using o Inl by simp_all
    show ?thesis
    proof (cases c)
      case False
      have reply: "reply = error_reply 500 (thrownMessage e unexpected_error)" and b': "b' = b1"
        using call block Inl False by (simp_all add: saveWithPool_def)
      have within: "accesses_within DirectConnection b b'"
        using new(1) tier_new unfolding b' by (rule accesses_withinI)
      have bad: "\<not> reply_succeeded reply"
        by (simp add: reply reply_succeeded_def error_reply_def)
      have made: "take 1 (accesses_made b b') = [PoolConnect]"
        using new(1) connects by (simp add: accesses_made_def b')
      show ?thesis
        using within bad unchanged False made by (auto simp: reply b')
    next
      case True
      obtain r2 b2 where rb: "pg_rollback f b1 = (r2, b2)" by force
      note d = pg_rollback_D [OF rb]
      have b': "b' = record_access Release b2"
        using call block Inl True rb by (auto simp: saveWithPool_def split: option.splits)
      have reply: "reply = (case r2 of Some e2 \<Rightarrow> Unhandled e2
          | None \<Rightarrow> error_reply 500 (thrownMessage e unexpected_error))"
        using call block Inl True rb by (auto simp: saveWithPool_def split: option.splits)
      have log: "access_log b' = access_log b @ (new @ [Query Rollback, Release])"
        using new(1) d by (simp add: b' record_access_def)
      have within: "accesses_within DirectConnection b b'"
        using log tier_new
        by (intro accesses_withinI [where new = "new @ [Query Rollback, Release]"]) simp_all
      have bad: "\<not> reply_succeeded reply"
        by (simp add: reply reply_succeeded_def error_reply_def split: option.splits)
      have fields: "attendance_table b' = attendance_table b"
        "r2 = None \<longrightarrow> transaction b' = None"
        using d unchanged(1) by (simp_all add: b' record_access_def)
      have made: "take 1 (accesses_made b b') = [PoolConnect]"
        unfolding accesses_made_append [OF log] by (rule first)
      show ?thesis
        using within bad fields d made by (auto simp: reply split: option.splits)
    qed
  qed
qed


lemma normalizeUpsertPayload_Nil [simp]: "normalizeUpsertPayload ups = [] \<longleftrightarrow> ups = []"
  by (simp add: normalizeUpsertPayload_def)

lemma normalizeUpsertPayload_empty [simp]: "normalizeUpsertPayload [] = []"
  by (simp add: normalizeUpsertPayload_def)

lemma client_outcome:
  assumes call: "saveAttendanceWithSupabaseClient t f ups dels b = (r, b')"
  shows
    "(\<exists>new. access_log b' = access_log b @ new \<and>
        list_all (\<lambda>a. access_tier a = t \<and> a \<noteq> Release) new \<and>
        (\<forall>res. r = Inr res \<longrightarrow> list_all (\<lambda>a. f a = None) new)) \<and>
     (\<forall>res. r = Inr res \<longrightarrow>
        snd res = dels \<and>
        distinct (map fst (fst (normalized (entropy b) (normalizeUpsertPayload ups)))) \<and>
        fst res =
          fst (merge_duplicates (fst (normalized (entropy b) (normalizeUpsertPayload ups)))
                 (delete_ids dels (attendance_table b))) \<and>
        attendance_table b' =
          snd (merge_duplicates (fst (normalized (entropy b) (normalizeUpsertPayload ups)))
                 (delete_ids dels (attendance_table b))) \<and>
        entropy b' = snd (normalized (entropy b) (normalizeUpsertPayload ups)))"
  using call
  by (auto simp: saveAttendanceWithSupabaseClient_def record_access_def Let_def
      split: if_splits option.splits prod.splits)


lemma client_reply:
  assumes call: "saveAttendanceWithSupabaseClient t f ups dels b = (r, b')"
    and reply: "reply = (case r of
        Inr result \<Rightarrow> success_reply (fst result) (snd result)
      | Inl e \<Rightarrow> error_reply 500 (thrownMessage e fallback))"
  shows
    "accesses_within t b b' \<and>
     (faulted f b b' \<longrightarrow> \<not> reply_succeeded reply) \<and>
     (\<not> reply_succeeded reply \<longrightarrow> (\<exists>msg. reply = error_reply 500 msg)) \<and>
     (reply_succeeded reply \<longrightarrow> (\<exists>rows. reply = success_reply rows dels))"
proof -
  note o = client_outcome [OF call]
  obtain new where new: "access_log b' = access_log b @ new"
    "list_all (\<lambda>a. access_tier a = t \<and> a \<noteq> Release) new"
    "\<forall>res. r = Inr res \<longrightarrow> list_all (\<lambda>a. f a = None) new"
    using o by blast
  have within: "accesses_within t b b'"
    using new(1) by (rule accesses_withinI) (use new(2) in \<open>simp add: list_all_iff\<close>)
  show ?thesis
  proof (cases r)
    case (Inl e)
    then show ?thesis
      using within by (simp add: reply reply_succeeded_def error_reply_def)
  next
    case (Inr res)
    have quiet: "\<not> faulted f b b'"
      using new(3) Inr
      by (simp add: faulted_def accesses_made_append [OF new(1)] list_ex_iff list_all_iff)
    have "snd res = dels" using o Inr by simp
    then show ?thesis
      using within quiet Inr by (auto simp: reply reply_succeeded_def success_reply_def)
  qed
qed

lemma POST_outcome:
  assumes valid: "truthy (Option.bind payload meetingId)"
    and call: "POST env f payload b = (reply, b')"
  shows
    "accesses_within (dispatchedTier env) b b' \<and>
     (faulted f b b' \<longrightarrow> \<not> reply_succeeded reply) \<and>
     (\<not> reply_succeeded reply \<longrightarrow>
        (\<exists>msg. reply = error_reply 500 msg) \<or>
        (\<exists>e. f (Query Rollback) = Some e \<and> reply = Unhandled e)) \<and>
     (reply_succeeded reply \<longrightarrow> (\<exists>rows. reply = success_reply rows (deletions_of payload)))"
proof -
  consider (direct) "truthy (getConnectionString env)"
    | (service) "\<not> truthy (getConnectionString env)" "hasSupabaseServiceConfiguration env"
    | (session) "\<not> truthy (getConnectionString env)" "\<not> hasSupabaseServiceConfiguration env"
    by blast
  then show ?thesis
  proof cases
    case direct
    then have pool: "saveWithPool f (upserts_of payload) (deletions_of payload) b = (reply, b')"
      using valid call by (simp add: POST_def Let_def upserts_of_def deletions_of_def)
    have tier: "dispatchedTier env = DirectConnection"
      using direct by (simp add: dispatchedTier_def)
    note o = saveWithPool_outcome [OF pool]
    have "reply_succeeded reply \<longrightarrow> (\<exists>rows. reply = success_reply rows (deletions_of payload))"
      using o by blast
    then show ?thesis
      using o unfolding tier by blast
  next
    case service
    have tier: "dispatchedTier env = ServiceClient"
      using service by (simp add: dispatchedTier_def)
    obtain r b1 where c: "saveAttendanceWithSupabaseClient ServiceClient f (upserts_of payload)
        (deletions_of payload) b = (r, b1)"
      by force
    have "b' = b1" and "reply = (case r of
        Inr result \<Rightarrow> success_reply (fst result) (snd result)
      | Inl e \<Rightarrow> error_reply 500 (thrownMessage e unexpected_error))"
      using valid call service c
      by (auto simp: POST_def Let_def upserts_of_def deletions_of_def
          saveWithSupabaseService_def hasSupabaseServiceConfiguration_def split: sum.splits)
    then show ?thesis
      using client_reply [OF c, of reply unexpected_error] unfolding tier by blast
  next
    case session
    have tier: "dispatchedTier env = SessionClient"
      using session by (simp add: dispatchedTier_def)
    show ?thesis
    proof (cases "\<not> truthy (NEXT_PUBLIC_SUPABASE_URL env) \<or>
        \<not> truthy (NEXT_PUBLIC_SUPABASE_ANON_KEY env)")
      case True
      then have "b' = b" "reply = error_reply 500 configuration_missing"
        using valid call session
        by (auto simp: POST_def Let_def saveWithSupabaseAuthClient_def thrownMessage_def)
      then show ?thesis
        by (simp add: accesses_within_def faulted_def accesses_made_def reply_succeeded_def
            error_reply_def)
    next
      case False
      obtain r b1 where c: "saveAttendanceWithSupabaseClient SessionClient f (upserts_of payload)
          (deletions_of payload) b = (r, b1)"
        by force
      have "b' = b1" and "reply = (case r of
          Inr result \<Rightarrow> success_reply (fst result) (snd result)
        | Inl e \<Rightarrow> error_reply 500 (thrownMessage e not_configured))"
        using valid call session c False
        by (auto simp: POST_def Let_def upserts_of_def deletions_of_def
            saveWithSupabaseAuthClient_def split: sum.splits)
      then show ?thesis
        using client_reply [OF c, of reply not_configured] unfolding tier by blast
    qed
  qed
qed

section \<open>The claims about the route handler\<close>

lemmas pg_ops =
  pg_connect_def pg_begin_def pg_delete_def pg_upsert_def pg_commit_def pg_rollback_def
  record_access_def connection_write_def

lemmas store_eval =
  POST_def saveWithPool_def pg_try_def pg_ops upsert_one_def inserted_row_def returning_def
  nullif_empty_def connection_view_def delete_ids_def saveWithSupabaseService_def
  saveWithSupabaseAuthClient_def saveAttendanceWithSupabaseClient_def
  normalizeUpsertPayload_def client_row_def getConnectionString_def getServiceRoleKey_def
  hasSupabaseServiceConfiguration_def success_reply_def error_reply_def thrownMessage_def
  orDefault_def nullish_def truthy_def Let_def

lemmas example_requests =
  direct_environment_def service_environment_def session_environment_def
  no_environment_def no_faults_def fail_at_def example_store_def example_uuids_def
  create_ann_def update_ben_def swap_ben_for_ann_def ann_upsert_def ben_update_def
  ben_attendance_def

lemma client_touches:
  assumes "saveAttendanceWithSupabaseClient t f ups dels b = (r, b')"
  shows "accesses_made b b' \<noteq> [] \<longleftrightarrow> ups \<noteq> [] \<or> dels \<noteq> []"
  using assms
  by (auto simp: saveAttendanceWithSupabaseClient_def record_access_def Let_def
      accesses_made_def split: if_splits option.splits prod.splits)

lemma unmasked_dispatch:
  assumes "unmasked env"
  shows "dispatchedTier env = preferredTier env"
  using assms
  by (auto simp: unmasked_def dispatchedTier_def preferredTier_def connectionConfigured_def
      serviceClientConfigured_def getConnectionString_def
      hasSupabaseServiceConfiguration_def getServiceRoleKey_def nullish_def truthy_def
      split: option.splits)


text \<open>
  A request with a meeting id is handled by the tier that the if-chain of \<open>POST\<close> leads
  to. The answer and the store afterwards are those of that tier's own function. On the
  direct connection the first access is taking a connection from the pool; on a
  Supabase tier the store is accessed exactly when the batch is not empty (and, for the
  session client, its URL and anon key are there). Every access goes through that tier.
\<close>

lemma POST_handled_by_dispatched_tier:
  assumes valid: "truthy (Option.bind payload meetingId)"
    and call: "POST env f payload b = (reply, b')"
  shows
    "(dispatchedTier env = DirectConnection \<longrightarrow>
        saveWithPool f (upserts_of payload) (deletions_of payload) b = (reply, b') \<and>
        take 1 (accesses_made b b') = [PoolConnect]) \<and>
     (dispatchedTier env = ServiceClient \<longrightarrow>
        (\<exists>r. saveWithSupabaseService env f (upserts_of payload) (deletions_of payload) b =
                (r, b') \<and>
              reply = client_answer unexpected_error r) \<and>
        (accesses_made b b' \<noteq> [] \<longleftrightarrow>
           upserts_of payload \<noteq> [] \<or> deletions_of payload \<noteq> [])) \<and>
     (dispatchedTier env = SessionClient \<longrightarrow>
        (\<exists>r. saveWithSupabaseAuthClient env f (upserts_of payload) (deletions_of payload) b =
                (r, b') \<and>
              reply = client_answer not_configured r) \<and>
        (accesses_made b b' \<noteq> [] \<longleftrightarrow>
           (upserts_of payload \<noteq> [] \<or> deletions_of payload \<noteq> []) \<and>
           truthy (NEXT_PUBLIC_SUPABASE_URL env) \<and>
           truthy (NEXT_PUBLIC_SUPABASE_ANON_KEY env))) \<and>
     accesses_within (dispatchedTier env) b b' \<and>
     (faulted f b b' \<longrightarrow> \<not> reply_succeeded reply) \<and>
     (\<not> reply_succeeded reply \<and> f (Query Rollback) = None \<longrightarrow>
        (\<exists>msg. reply = error_reply 500 msg)) \<and>
     (unmasked env \<longrightarrow> dispatchedTier env = preferredTier env)"
proof -
  note o = POST_outcome [OF valid call]
  have within: "accesses_within (dispatchedTier env) b b'"
    and fault: "faulted f b b' \<longrightarrow> \<not> reply_succeeded reply"
    using o by blast+
  have failure: "\<not> reply_succeeded reply \<and> f (Query Rollback) = None \<longrightarrow>
        (\<exists>msg. reply = error_reply 500 msg)"
    using o by force
  have direct: "dispatchedTier env = DirectConnection \<longrightarrow>
        saveWithPool f (upserts_of payload) (deletions_of payload) b = (reply, b') \<and>
        take 1 (accesses_made b b') = [PoolConnect]"
  proof
    assume "dispatchedTier env = DirectConnection"
    then have "truthy (getConnectionString env)"
      by (simp add: dispatchedTier_def split: if_splits)
    then have pool: "saveWithPool f (upserts_of payload) (deletions_of payload) b = (reply, b')"
      using valid call by (simp add: POST_def Let_def upserts_of_def deletions_of_def)
    show "saveWithPool f (upserts_of payload) (deletions_of payload) b = (reply, b') \<and>
        take 1 (accesses_made b b') = [PoolConnect]"
      using pool saveWithPool_outcome [OF pool] by blast
  qed
  have service: "dispatchedTier env = ServiceClient \<longrightarrow>
        (\<exists>r. saveWithSupabaseService env f (upserts_of payload) (deletions_of payload) b =
                (r, b') \<and>
              reply = client_answer unexpected_error r) \<and>
        (accesses_made b b' \<noteq> [] \<longleftrightarrow>
           upserts_of payload \<noteq> [] \<or> deletions_of payload \<noteq> [])"
  proof
    assume "dispatchedTier env = ServiceClient"
    then have cond: "\<not> truthy (getConnectionString env)" "hasSupabaseServiceConfiguration env"
      by (simp_all add: dispatchedTier_def split: if_splits)
    obtain r b1 where svc: "saveWithSupabaseService env f (upserts_of payload)
        (deletions_of payload) b = (r, b1)"
      by force
    have res: "b' = b1" "reply = client_answer unexpected_error r"
      using valid call cond svc
      by (auto simp: POST_def Let_def upserts_of_def deletions_of_def client_answer_def
          split: sum.splits)
    have "saveAttendanceWithSupabaseClient ServiceClient f (upserts_of payload)
        (deletions_of payload) b = (r, b')"
      using svc cond(2) res(1)
      by (simp add: saveWithSupabaseService_def hasSupabaseServiceConfiguration_def)
    note touches = client_touches [OF this]
    show "(\<exists>r. saveWithSupabaseService env f (upserts_of payload) (deletions_of payload) b =
                (r, b') \<and>
              reply = client_answer unexpected_error r) \<and>
        (accesses_made b b' \<noteq> [] \<longleftrightarrow>
           upserts_of payload \<noteq> [] \<or> deletions_of payload \<noteq> [])"
      using svc res touches by blast
  qed
  have session: "dispatchedTier env = SessionClient \<longrightarrow>
        (\<exists>r. saveWithSupabaseAuthClient env f (upserts_of payload) (deletions_of payload) b =
                (r, b') \<and>
              reply = client_answer not_configured r) \<and>
        (accesses_made b b' \<noteq> [] \<longleftrightarrow>
           (upserts_of payload \<noteq> [] \<or> deletions_of payload \<noteq> []) \<and>
           truthy (NEXT_PUBLIC_SUPABASE_URL env) \<and>
           truthy (NEXT_PUBLIC_SUPABASE_ANON_KEY env))"
  proof
    assume "dispatchedTier env = SessionClient"
    then have cond: "\<not> truthy (getConnectionString env)"
      "\<not> hasSupabaseServiceConfiguration env"
      by (simp_all add: dispatchedTier_def split: if_splits)
    obtain r b1 where ses: "saveWithSupabaseAuthClient env f (upserts_of payload)
        (deletions_of payload) b = (r, b1)"
      by force
    have res: "b' = b1" "reply = client_answer not_configured r"
      using valid call cond ses
      by (auto simp: POST_def Let_def upserts_of_def deletions_of_def client_answer_def
          split: sum.splits)
    have touches: "accesses_made b b' \<noteq> [] \<longleftrightarrow>
           (upserts_of payload \<noteq> [] \<or> deletions_of payload \<noteq> []) \<and>
           truthy (NEXT_PUBLIC_SUPABASE_URL env) \<and>
           truthy (NEXT_PUBLIC_SUPABASE_ANON_KEY env)"
    proof (cases "truthy (NEXT_PUBLIC_SUPABASE_URL env) \<and>
        truthy (NEXT_PUBLIC_SUPABASE_ANON_KEY env)")
      case False
      then have "b' = b"
        using ses res(1) by (auto simp: saveWithSupabaseAuthClient_def)
      then show ?thesis
        using False by (simp add: accesses_made_def)
    next
      case True
      then have "saveAttendanceWithSupabaseClient SessionClient f (upserts_of payload)
          (deletions_of payload) b = (r, b')"
        using ses res(1) by (simp add: saveWithSupabaseAuthClient_def)
      from client_touches [OF this] True show ?thesis
        by simp
    qed
    show "(\<exists>r. saveWithSupabaseAuthClient env f (upserts_of payload) (deletions_of payload) b =
                (r, b') \<and>
              reply = client_answer not_configured r) \<and>
        (accesses_made b b' \<noteq> [] \<longleftrightarrow>
           (upserts_of payload \<noteq> [] \<or> deletions_of payload \<noteq> []) \<and>
           truthy (NEXT_PUBLIC_SUPABASE_URL env) \<and>
           truthy (NEXT_PUBLIC_SUPABASE_ANON_KEY env))"
      using ses res touches by blast
  qed
  have order: "unmasked env \<longrightarrow> dispatchedTier env = preferredTier env"
    using unmasked_dispatch by blast
  show ?thesis
    using direct service session within fault failure order by blast
qed

text \<open>
  Claim C9, as the code has it. A request with a meeting id, under a configuration in
  which no variable that stands before another in a \<open>??\<close> chain is set to the empty
  string, is handled by exactly one tier: the one the design prefers for what is
  configured (the direct connection, then the service client, then the session
  client). The answer and the store afterwards are those of that tier's own function;
  the direct connection always takes a connection from the pool first, and a Supabase
  tier accesses the store exactly when the batch is not empty (and, for the session
  client, its URL and anon key are there). Every access goes through that tier, whether
  the request succeeds or fails, so no other tier is tried after a failure. An access
  that meets a fault makes the answer a failure, and a failure whose \<open>ROLLBACK\<close> goes
  through is the JSON \<open>{ success: false, error }\<close> with status 500.
\<close>

theorem one_tier_handles_request:
  assumes valid: "truthy (Option.bind payload meetingId)"
    and config: "unmasked env"
    and call: "POST env f payload b = (reply, b')"
  shows
    "(preferredTier env = DirectConnection \<longrightarrow>
        saveWithPool f (upserts_of payload) (deletions_of payload) b = (reply, b') \<and>
        take 1 (accesses_made b b') = [PoolConnect]) \<and>
     (preferredTier env = ServiceClient \<longrightarrow>
        (\<exists>r. saveWithSupabaseService env f (upserts_of payload) (deletions_of payload) b =
                (r, b') \<and>
              reply = client_answer unexpected_error r) \<and>
        (accesses_made b b' \<noteq> [] \<longleftrightarrow>
           upserts_of payload \<noteq> [] \<or> deletions_of payload \<noteq> [])) \<and>
     (preferredTier env = SessionClient \<longrightarrow>
        (\<exists>r. saveWithSupabaseAuthClient env f (upserts_of payload) (deletions_of payload) b =
                (r, b') \<and>
              reply = client_answer not_configured r) \<and>
        (accesses_made b b' \<noteq> [] \<longleftrightarrow>
           (upserts_of payload \<noteq> [] \<or> deletions_of payload \<noteq> []) \<and>
           truthy (NEXT_PUBLIC_SUPABASE_URL env) \<and>
           truthy (NEXT_PUBLIC_SUPABASE_ANON_KEY env))) \<and>
     accesses_within (preferredTier env) b b' \<and>
     (faulted f b b' \<longrightarrow> \<not> reply_succeeded reply) \<and>
     (\<not> reply_succeeded reply \<and> f (Query Rollback) = None \<longrightarrow>
        (\<exists>msg. reply = error_reply 500 msg))"
  using POST_handled_by_dispatched_tier [OF valid call] unmasked_dispatch [OF config]
  by simp

lemmas tier_eval =
  dispatchedTier_def preferredTier_def connectionConfigured_def serviceClientConfigured_def
  unmasked_def getConnectionString_def hasSupabaseServiceConfiguration_def
  getServiceRoleKey_def nullish_def truthy_def

theorem one_tier_handles_request_witness:
  "truthy (Option.bind (Some update_ben) meetingId) \<and>
   unmasked all_tiers_environment \<and> unmasked clients_environment \<and>
   unmasked session_environment \<and>
   preferredTier all_tiers_environment = DirectConnection \<and>
   preferredTier clients_environment = ServiceClient \<and>
   preferredTier session_environment = SessionClient \<and>
   fail_at (Query (InsertOnConflict [ben_update])) (Query Rollback) = None \<and>
   accesses_made example_store
     (snd (POST all_tiers_environment (fail_at (Query (InsertOnConflict [ben_update])))
             (Some update_ben) example_store)) =
     [PoolConnect, Query Begin, Query (DeleteWhereIdAny [''no-such-row'']),
      Query (InsertOnConflict [ben_update]), Query Rollback, Release] \<and>
   saveWithPool (fail_at (Query (InsertOnConflict [ben_update])))
     (upserts_of (Some update_ben)) (deletions_of (Some update_ben)) example_store =
     POST all_tiers_environment (fail_at (Query (InsertOnConflict [ben_update])))
       (Some update_ben) example_store \<and>
   faulted (fail_at (Query (InsertOnConflict [ben_update]))) example_store
     (snd (POST all_tiers_environment (fail_at (Query (InsertOnConflict [ben_update])))
             (Some update_ben) example_store)) \<and>
   accesses_within DirectConnection example_store
     (snd (POST all_tiers_environment (fail_at (Query (InsertOnConflict [ben_update])))
             (Some update_ben) example_store)) \<and>
   \<not> reply_succeeded
     (fst (POST all_tiers_environment (fail_at (Query (InsertOnConflict [ben_update])))
             (Some update_ben) example_store)) \<and>
   fst (POST all_tiers_environment (fail_at (Query (InsertOnConflict [ben_update])))
          (Some update_ben) example_store) =
     error_reply 500 ''connection terminated unexpectedly'' \<and>
   accesses_made example_store
     (snd (POST clients_environment no_faults (Some update_ben) example_store)) =
     [ClientDelete ServiceClient [''no-such-row''], ClientUpsert ServiceClient [ben_update]] \<and>
   accesses_within ServiceClient example_store
     (snd (POST clients_environment no_faults (Some update_ben) example_store)) \<and>
   reply_succeeded
     (fst (POST clients_environment no_faults (Some update_ben) example_store)) \<and>
   accesses_made example_store
     (snd (POST session_environment (fail_at (ClientUpsert SessionClient [ben_update]))
             (Some update_ben) example_store)) =
     [ClientDelete SessionClient [''no-such-row''], ClientUpsert SessionClient [ben_update]] \<and>
   faulted (fail_at (ClientUpsert SessionClient [ben_update])) example_store
     (snd (POST session_environment (fail_at (ClientUpsert SessionClient [ben_update]))
             (Some update_ben) example_store)) \<and>
   accesses_within SessionClient example_store
     (snd (POST session_environment (fail_at (ClientUpsert SessionClient [ben_update]))
             (Some update_ben) example_store)) \<and>
   \<not> reply_succeeded
     (fst (POST session_environment (fail_at (ClientUpsert SessionClient [ben_update]))
             (Some update_ben) example_store)) \<and>
   fst (POST session_environment (fail_at (ClientUpsert SessionClient [ben_update]))
          (Some update_ben) example_store) =
     error_reply 500 ''connection terminated unexpectedly''"
proof -
  have valid: "truthy (Option.bind (Some update_ben) meetingId)"
    by (simp add: update_ben_def truthy_def)
  have config: "unmasked all_tiers_environment" "unmasked clients_environment"
    "unmasked session_environment"
    by (simp_all add: unmasked_def example_requests all_tiers_environment_def clients_environment_def)
  have preferred: "preferredTier all_tiers_environment = DirectConnection"
    "preferredTier clients_environment = ServiceClient"
    "preferredTier session_environment = SessionClient"
    by (simp_all add: tier_eval example_requests all_tiers_environment_def clients_environment_def)
  have rollback: "fail_at (Query (InsertOnConflict [ben_update])) (Query Rollback) = None"
    by (simp add: fail_at_def)
  have made:
    "accesses_made example_store
       (snd (POST all_tiers_environment (fail_at (Query (InsertOnConflict [ben_update])))
               (Some update_ben) example_store)) =
     [PoolConnect, Query Begin, Query (DeleteWhereIdAny [''no-such-row'']),
      Query (InsertOnConflict [ben_update]), Query Rollback, Release]"
    "accesses_made example_store
       (snd (POST clients_environment no_faults (Some update_ben) example_store)) =
     [ClientDelete ServiceClient [''no-such-row''], ClientUpsert ServiceClient [ben_update]]"
    "accesses_made example_store
       (snd (POST session_environment (fail_at (ClientUpsert SessionClient [ben_update]))
               (Some update_ben) example_store)) =
     [ClientDelete SessionClient [''no-such-row''], ClientUpsert SessionClient [ben_update]]"
    by (simp_all add: accesses_made_def store_eval example_requests all_tiers_environment_def clients_environment_def)
  have replies:
    "fst (POST all_tiers_environment (fail_at (Query (InsertOnConflict [ben_update])))
            (Some update_ben) example_store) =
       error_reply 500 ''connection terminated unexpectedly''"
    "reply_succeeded
       (fst (POST clients_environment no_faults (Some update_ben) example_store))"
    "fst (POST session_environment (fail_at (ClientUpsert SessionClient [ben_update]))
            (Some update_ben) example_store) =
       error_reply 500 ''connection terminated unexpectedly''"
    by (simp_all add: store_eval example_requests all_tiers_environment_def clients_environment_def reply_succeeded_def)
  have faults:
    "faulted (fail_at (Query (InsertOnConflict [ben_update]))) example_store
       (snd (POST all_tiers_environment (fail_at (Query (InsertOnConflict [ben_update])))
               (Some update_ben) example_store))"
    "faulted (fail_at (ClientUpsert SessionClient [ben_update])) example_store
       (snd (POST session_environment (fail_at (ClientUpsert SessionClient [ben_update]))
               (Some update_ben) example_store))"
    unfolding faulted_def made by (simp_all add: fail_at_def)
  note direct = one_tier_handles_request [where env = all_tiers_environment
      and f = "fail_at (Query (InsertOnConflict [ben_update]))" and b = example_store,
      OF valid config(1) surjective_pairing]
  note service = one_tier_handles_request [where env = clients_environment
      and f = no_faults and b = example_store, OF valid config(2) surjective_pairing]
  note session = one_tier_handles_request [where env = session_environment
      and f = "fail_at (ClientUpsert SessionClient [ben_update])" and b = example_store,
      OF valid config(3) surjective_pairing]
  note direct4 = direct [THEN conjunct2, THEN conjunct2, THEN conjunct2]
  note service4 = service [THEN conjunct2, THEN conjunct2, THEN conjunct2]
  note session4 = session [THEN conjunct2, THEN conjunct2, THEN conjunct2]
  have within:
    "accesses_within DirectConnection example_store
       (snd (POST all_tiers_environment (fail_at (Query (InsertOnConflict [ben_update])))
               (Some update_ben) example_store))"
    "accesses_within ServiceClient example_store
       (snd (POST clients_environment no_faults (Some update_ben) example_store))"
    "accesses_within SessionClient example_store
       (snd (POST session_environment (fail_at (ClientUpsert SessionClient [ben_update]))
               (Some update_ben) example_store))"
    using direct4 [THEN conjunct1] service4 [THEN conjunct1] session4 [THEN conjunct1]
    unfolding preferred by blast+
  have failed:
    "\<not> reply_succeeded
       (fst (POST all_tiers_environment (fail_at (Query (InsertOnConflict [ben_update])))
               (Some update_ben) example_store))"
    "\<not> reply_succeeded
       (fst (POST session_environment (fail_at (ClientUpsert SessionClient [ben_update]))
               (Some update_ben) example_store))"
    using direct4 [THEN conjunct2, THEN conjunct1] session4 [THEN conjunct2, THEN conjunct1]
      faults
    by blast+
  have first: "saveWithPool (fail_at (Query (InsertOnConflict [ben_update])))
     (upserts_of (Some update_ben)) (deletions_of (Some update_ben)) example_store =
     POST all_tiers_environment (fail_at (Query (InsertOnConflict [ben_update])))
       (Some update_ben) example_store"
    using direct [THEN conjunct1] preferred(1) by simp
  show ?thesis
    using valid config preferred rollback made faults within failed replies first by blast
qed



text \<open>
  Claim C9 as stated fails in three places. A request without a meeting id is answered
  with status 400 before any tier is chosen: no tier handles it. With a connection
  string in \<open>DATABASE_URL\<close> and \<open>SUPABASE_DB_URL\<close> set to the empty string, a direct
  connection is configured and is the preferred tier, but
  \<open>SUPABASE_DB_URL ?? DATABASE_URL\<close> is the empty string: the request goes to the session
  client, which finds no configuration and answers with an error without any access to
  the store. And on the direct connection, when the upsert fails and the \<open>ROLLBACK\<close>
  fails too, the handler gives no error response: the exception of the \<open>ROLLBACK\<close>
  leaves it.
\<close>

theorem preferred_tier_is_not_dispatched:
  "POST direct_environment no_faults (Some (update_ben\<lparr>meetingId := None\<rparr>)) example_store =
     (error_reply 400 ''meetingId is required.'', example_store) \<and>
   truthy (Option.bind (Some update_ben) meetingId) \<and>
   DATABASE_URL masked_environment = Some ''postgres://db/attendance'' \<and>
   connectionConfigured masked_environment \<and>
   preferredTier masked_environment = DirectConnection \<and>
   POST masked_environment no_faults (Some update_ben) example_store =
     (error_reply 500 configuration_missing, example_store) \<and>
   accesses_made example_store
     (snd (POST masked_environment no_faults (Some update_ben) example_store)) = [] \<and>
   fst (POST direct_environment
          (fail_at_each [Query (InsertOnConflict [ben_update]), Query Rollback])
          (Some update_ben) example_store) =
     Unhandled (ErrorObject ''connection terminated unexpectedly'')"
  by (simp add: masked_environment_def store_eval example_requests tier_eval
      fail_at_each_def accesses_made_def saveWithSupabaseAuthClient_def)


text \<open>
  Claim C10. In every successful answer, of any tier and for any store, \<open>deletedIds\<close> is
  the \<open>deletions\<close> list of the request as it was read (the empty list when the payload
  has no such array): the same identifiers in the same order, whether or not rows with
  those identifiers exist.
\<close>

theorem deleted_ids_echo_request:
  assumes "POST env f payload b = (reply, b')"
    and "reply_succeeded reply"
  shows "\<exists>rows. reply =
           Json 200 \<lparr>body_success = True, body_records = Some rows,
                      body_deletedIds = Some (deletions_of payload), body_error = None\<rparr>"
proof (cases "truthy (Option.bind payload meetingId)")
  case True
  from POST_outcome [OF True assms(1)] assms(2) show ?thesis
    by (auto simp: success_reply_def)
next
  case False
  then have "reply = error_reply 400 ''meetingId is required.''"
    using assms(1) by (simp add: POST_def)
  then show ?thesis
    using assms(2) by (simp add: reply_succeeded_def error_reply_def)
qed

theorem deleted_ids_echo_request_witness:
  "reply_succeeded (fst (POST direct_environment no_faults (Some create_ann) example_store)) \<and>
   deletions_of (Some create_ann) = [''no-such-row''] \<and>
   attendance_table example_store ''no-such-row'' = None \<and>
   (\<exists>rows. fst (POST direct_environment no_faults (Some create_ann) example_store) =
      Json 200 \<lparr>body_success = True, body_records = Some rows,
                 body_deletedIds = Some [''no-such-row''], body_error = None\<rparr>)"
proof -
  have ok: "reply_succeeded
      (fst (POST direct_environment no_faults (Some create_ann) example_store))"
    by (simp add: reply_succeeded_def store_eval example_requests)
  have dels: "deletions_of (Some create_ann) = [''no-such-row'']"
    by (simp add: deletions_of_def create_ann_def orDefault_def)
  have absent: "attendance_table example_store ''no-such-row'' = None"
    by (simp add: example_store_def)
  show ?thesis
    using ok dels absent
      deleted_ids_echo_request [where env = direct_environment and f = no_faults
        and payload = "Some create_ann" and b = example_store, OF surjective_pairing ok]
    by simp
qed

text \<open>
  On the direct connection, with no transaction left open before the request and a
  \<open>ROLLBACK\<close> that itself goes through: when a step of the transaction fails (taking
  the connection, \<open>BEGIN\<close>, the deletion, the upsert or \<open>COMMIT\<close>) the answer is a
  failure; and whenever the answer is a failure, the committed table is left exactly as
  it was, no transaction stays open, and the answer is the JSON
  \<open>{ success: false, error }\<close> with status 500, carrying neither \<open>records\<close> nor
  \<open>deletedIds\<close>.
\<close>

lemma rolled_back_transaction_changes_nothing:
  assumes "truthy (Option.bind payload meetingId)"
    and "truthy (getConnectionString env)"
    and "transaction b = None"
    and "f (Query Rollback) = None"
    and "POST env f payload b = (reply, b')"
  shows
    "(transaction_step_fails f (upserts_of payload) (deletions_of payload) \<longrightarrow>
        \<not> reply_succeeded reply) \<and>
     (\<not> reply_succeeded reply \<longrightarrow>
        attendance_table b' = attendance_table b \<and> transaction b' = None \<and>
        (\<exists>msg. reply =
           Json 500 \<lparr>body_success = False, body_records = None, body_deletedIds = None,
                      body_error = Some msg\<rparr>))"
proof -
  have pool: "saveWithPool f (upserts_of payload) (deletions_of payload) b = (reply, b')"
    using assms(1,2,5) by (simp add: POST_def Let_def upserts_of_def deletions_of_def)
  note o = saveWithPool_outcome [OF pool]
  show ?thesis
    using o assms(3,4) by (auto simp: error_reply_def)
qed

text \<open>
  Claim C2 fails when the \<open>ROLLBACK\<close> fails as well. The \<open>catch\<close> block awaits
  \<open>client.query("ROLLBACK")\<close> with nothing around it, so an exception of that statement
  leaves the handler before the JSON answer is built. The request deletes Ben's row and
  creates a row for Ann; the upsert fails and the \<open>ROLLBACK\<close> fails. The handler answers
  with no \<open>{ success: false, error }\<close>: the exception leaves it. The connection goes
  back to the pool with the transaction still open, and in that transaction Ben's row
  is deleted.
\<close>

theorem rollback_failure_escapes_handler:
  "truthy (Option.bind (Some swap_ben_for_ann) meetingId) \<and>
   truthy (getConnectionString direct_environment) \<and>
   transaction example_store = None \<and>
   accesses_made example_store
     (snd (POST direct_environment
             (fail_at_each [Query (InsertOnConflict [ann_upsert]), Query Rollback])
             (Some swap_ben_for_ann) example_store)) =
     [PoolConnect, Query Begin, Query (DeleteWhereIdAny [''r2'']),
      Query (InsertOnConflict [ann_upsert]), Query Rollback, Release] \<and>
   fst (POST direct_environment
          (fail_at_each [Query (InsertOnConflict [ann_upsert]), Query Rollback])
          (Some swap_ben_for_ann) example_store) =
     Unhandled (ErrorObject ''connection terminated unexpectedly'') \<and>
   transaction
     (snd (POST direct_environment
             (fail_at_each [Query (InsertOnConflict [ann_upsert]), Query Rollback])
             (Some swap_ben_for_ann) example_store)) \<noteq> None \<and>
   the (transaction
          (snd (POST direct_environment
                  (fail_at_each [Query (InsertOnConflict [ann_upsert]), Query Rollback])
                  (Some swap_ben_for_ann) example_store))) ''r2'' = None \<and>
   attendance_table example_store ''r2'' = Some ben_attendance \<and>
   attendance_table
     (snd (POST direct_environment
             (fail_at_each [Query (InsertOnConflict [ann_upsert]), Query Rollback])
             (Some swap_ben_for_ann) example_store)) ''r2'' = Some ben_attendance"
  by (simp add: store_eval example_requests fail_at_each_def accesses_made_def
      transaction_step_fails_def upserts_of_def deletions_of_def)


section \<open>Replaying a request\<close>

lemma nullif_empty_truthy: "truthy x \<Longrightarrow> nullif_empty x = Some (the x)"
  by (cases x) (simp_all add: truthy_def nullif_empty_def)

lemma normalized_with_ids:
  "list_all (\<lambda>u. truthy (upsert_id u)) ups \<Longrightarrow>
     normalized gen ups = (map (\<lambda>u. (the (upsert_id u), u)) ups, gen)"
  by (induction ups arbitrary: gen) (simp_all add: nullif_empty_truthy)

lemma normalizeUpsertPayload_with_ids:
  "list_all (\<lambda>u. truthy (upsert_id u)) ups \<Longrightarrow> normalizeUpsertPayload ups = ups"
  by (simp add: normalizeUpsertPayload_def list_all_iff map_idI)

lemma upsert_one_row:
  "fst (upsert_one i v t) =
     returning i (case t i of Some old \<Rightarrow> old\<lparr>att_status := upsert_status v\<rparr>
                  | None \<Rightarrow> inserted_row v)"
  by (simp add: upsert_one_def Let_def)

lemma upsert_one_table:
  "snd (upsert_one i v t) =
     t(i \<mapsto> (case t i of Some old \<Rightarrow> old\<lparr>att_status := upsert_status v\<rparr>
                | None \<Rightarrow> inserted_row v))"
  by (simp add: upsert_one_def Let_def)

lemma insert_on_conflict_split:
  "insert_on_conflict ((i, v) # rest) t =
     (fst (upsert_one i v t) # fst (insert_on_conflict rest (snd (upsert_one i v t))),
      snd (insert_on_conflict rest (snd (upsert_one i v t))))"
  by (simp split: prod.splits)

lemma insert_on_conflict_other:
  "i \<notin> fst ` set P \<Longrightarrow> snd (insert_on_conflict P t) i = t i"
proof (induction P arbitrary: t)
  case Nil
  show ?case by simp
next
  case (Cons p P)
  obtain j v where p: "p = (j, v)" by force
  have neq: "i \<noteq> j" and out: "i \<notin> fst ` set P" using Cons.prems p by auto
  have "snd (insert_on_conflict (p # P) t) i =
      snd (insert_on_conflict P (snd (upsert_one j v t))) i"
    by (simp add: p insert_on_conflict_split del: insert_on_conflict.simps(2))
  also have "\<dots> = snd (upsert_one j v t) i"
    by (rule Cons.IH [OF out])
  also have "\<dots> = t i"
    using neq by (simp add: upsert_one_table)
  finally show ?case .
qed

lemma insert_on_conflict_rows:
  "distinct (map fst P) \<Longrightarrow>
     fst (insert_on_conflict P t) = map (\<lambda>(i, v). fst (upsert_one i v t)) P"
proof (induction P arbitrary: t)
  case Nil
  show ?case by simp
next
  case (Cons p P)
  obtain j v where p: "p = (j, v)" by force
  have d: "distinct (map fst P)" and fresh: "j \<notin> fst ` set P"
    using Cons.prems p by auto
  have same: "map (\<lambda>(i, w). fst (upsert_one i w (snd (upsert_one j v t)))) P =
      map (\<lambda>(i, w). fst (upsert_one i w t)) P"
  proof (rule map_cong [OF refl])
    fix x assume x: "x \<in> set P"
    obtain i w where iw: "x = (i, w)" by force
    have "i \<noteq> j" using x iw fresh by force
    then show "(case x of (i, w) \<Rightarrow> fst (upsert_one i w (snd (upsert_one j v t)))) =
        (case x of (i, w) \<Rightarrow> fst (upsert_one i w t))"
      by (simp add: iw upsert_one_row upsert_one_table)
  qed
  show ?case
    by (simp add: p insert_on_conflict_split Cons.IH [OF d] same
        del: insert_on_conflict.simps(2))
qed

lemma insert_on_conflict_key:
  "distinct (map fst P) \<Longrightarrow> (i, v) \<in> set P \<Longrightarrow>
     snd (insert_on_conflict P t) i = snd (upsert_one i v t) i"
proof (induction P arbitrary: t)
  case Nil
  then show ?case by simp
next
  case (Cons p P)
  obtain j w where p: "p = (j, w)" by force
  have d: "distinct (map fst P)" and fresh: "j \<notin> fst ` set P"
    using Cons.prems p by auto
  show ?case
  proof (cases "(i, v) = (j, w)")
    case True
    then show ?thesis
      using fresh
      by (simp add: p insert_on_conflict_split insert_on_conflict_other
          del: insert_on_conflict.simps(2))
  next
    case False
    then have mem: "(i, v) \<in> set P" using Cons.prems(2) p by auto
    then have neq: "i \<noteq> j" using fresh by force
    have "snd (insert_on_conflict (p # P) t) i =
        snd (insert_on_conflict P (snd (upsert_one j w t))) i"
      by (simp add: p insert_on_conflict_split del: insert_on_conflict.simps(2))
    also have "\<dots> = snd (upsert_one i v (snd (upsert_one j w t))) i"
      by (rule Cons.IH [OF d mem])
    also have "\<dots> = snd (upsert_one i v t) i"
      using neq by (simp add: upsert_one_table)
    finally show ?thesis .
  qed
qed

lemma replay_rows:
  assumes "distinct (map fst P)"
  shows "fst (insert_on_conflict P
                (delete_ids D (snd (insert_on_conflict P (delete_ids D t))))) =
         fst (insert_on_conflict P (delete_ids D t))"
proof -
  define t0 where "t0 = delete_ids D t"
  define t1 where "t1 = snd (insert_on_conflict P t0)"
  have "map (\<lambda>(i, v). fst (upsert_one i v (delete_ids D t1))) P =
      map (\<lambda>(i, v). fst (upsert_one i v t0)) P"
  proof (rule map_cong [OF refl])
    fix x assume x: "x \<in> set P"
    obtain i v where iv: "x = (i, v)" by force
    have "fst (upsert_one i v (delete_ids D t1)) = fst (upsert_one i v t0)"
    proof (cases "i \<in> set D")
      case True
      then show ?thesis
        by (simp add: upsert_one_row delete_ids_def t0_def)
    next
      case False
      have "t1 i = snd (upsert_one i v t0) i"
        unfolding t1_def using assms x iv by (intro insert_on_conflict_key) simp_all
      then show ?thesis
        using False
        by (simp add: upsert_one_row upsert_one_table delete_ids_def returning_def
            inserted_row_def split: option.splits)
    qed
    then show "(case x of (i, v) \<Rightarrow> fst (upsert_one i v (delete_ids D t1))) =
        (case x of (i, v) \<Rightarrow> fst (upsert_one i v t0))"
      by (simp add: iv)
  qed
  then show ?thesis
    using assms by (simp add: insert_on_conflict_rows t0_def t1_def)
qed

lemma merge_duplicates_split:
  "merge_duplicates ((i, v) # rest) t =
     (returning i (client_row v) # fst (merge_duplicates rest (t(i \<mapsto> client_row v))),
      snd (merge_duplicates rest (t(i \<mapsto> client_row v))))"
  by (simp split: prod.splits)

lemma merge_duplicates_rows:
  "fst (merge_duplicates P t) = map (\<lambda>(i, v). returning i (client_row v)) P"
proof (induction P arbitrary: t)
  case Nil
  show ?case by simp
next
  case (Cons p P)
  obtain j v where p: "p = (j, v)" by force
  show ?case
    by (simp add: p merge_duplicates_split Cons.IH del: merge_duplicates.simps(2))
qed


lemma POST_success_records:
  assumes valid: "truthy (Option.bind payload meetingId)"
    and call: "POST env f payload b = (reply, b')"
    and ok: "reply_succeeded reply"
    and ids: "list_all (\<lambda>u. truthy (upsert_id u)) (upserts_of payload)"
  shows
    "(truthy (getConnectionString env) \<longrightarrow>
        distinct (map fst (map (\<lambda>u. (the (upsert_id u), u)) (upserts_of payload))) \<and>
        reply =
          success_reply
            (fst (insert_on_conflict (map (\<lambda>u. (the (upsert_id u), u)) (upserts_of payload))
                    (delete_ids (deletions_of payload) (connection_view b))))
            (deletions_of payload) \<and>
        attendance_table b' =
          snd (insert_on_conflict (map (\<lambda>u. (the (upsert_id u), u)) (upserts_of payload))
                 (delete_ids (deletions_of payload) (connection_view b))) \<and>
        transaction b' = None) \<and>
     (\<not> truthy (getConnectionString env) \<longrightarrow>
        reply =
          success_reply
            (map (\<lambda>(i, v). returning i (client_row v))
               (map (\<lambda>u. (the (upsert_id u), u)) (upserts_of payload)))
            (deletions_of payload))"
proof (cases "truthy (getConnectionString env)")
  case True
  then have pool: "saveWithPool f (upserts_of payload) (deletions_of payload) b = (reply, b')"
    using valid call by (simp add: POST_def Let_def upserts_of_def deletions_of_def)
  show ?thesis
    using saveWithPool_outcome [OF pool] ok True
    by (simp add: normalized_with_ids [OF ids])
next
  case False
  define t where "t = (if hasSupabaseServiceConfiguration env then ServiceClient
    else SessionClient)"
  define fallback where "fallback = (if hasSupabaseServiceConfiguration env
    then unexpected_error else not_configured)"
  obtain r b1 where c1: "saveAttendanceWithSupabaseClient t f (upserts_of payload)
      (deletions_of payload) b = (r, b1)"
    by force
  have configured: "hasSupabaseServiceConfiguration env \<or>
      (truthy (NEXT_PUBLIC_SUPABASE_URL env) \<and> truthy (NEXT_PUBLIC_SUPABASE_ANON_KEY env))"
  proof (rule ccontr)
    assume "\<not> ?thesis"
    then have "reply = error_reply 500 configuration_missing"
      using valid call False
      by (auto simp: POST_def Let_def saveWithSupabaseAuthClient_def thrownMessage_def)
    then show False
      using ok by (simp add: reply_succeeded_def error_reply_def)
  qed
  have "b' = b1" and reply: "reply = (case r of
        Inr result \<Rightarrow> success_reply (fst result) (snd result)
      | Inl e \<Rightarrow> error_reply 500 (thrownMessage e fallback))"
    using valid call False c1 configured
    by (auto simp: POST_def Let_def upserts_of_def deletions_of_def t_def fallback_def
        saveWithSupabaseService_def saveWithSupabaseAuthClient_def
        hasSupabaseServiceConfiguration_def split: sum.splits if_splits)
  then have c: "saveAttendanceWithSupabaseClient t f (upserts_of payload)
      (deletions_of payload) b = (r, b')"
    using c1 by simp
  obtain res where res: "r = Inr res"
    using ok reply by (cases r) (simp_all add: reply_succeeded_def error_reply_def)
  have "fst res = map (\<lambda>(i, v). returning i (client_row v))
      (map (\<lambda>u. (the (upsert_id u), u)) (upserts_of payload))"
    and "snd res = deletions_of payload"
    using client_outcome [OF c] res
    by (simp_all add: merge_duplicates_rows normalizeUpsertPayload_with_ids [OF ids]
        normalized_with_ids [OF ids])
  then show ?thesis
    using False by (simp add: reply res)
qed

text \<open>
  Claim C4, as the code has it. When every upsert row of a request carries a non-empty
  id, replaying the request right after it succeeded (on the store the first call left,
  under any tier) and succeeding again produces the very same answer: the same records,
  with the same ids and statuses, and the same \<open>deletedIds\<close>.
\<close>

theorem replay_with_ids_is_idempotent:
  assumes "POST env f1 payload b = (reply1, b1)"
    and "reply_succeeded reply1"
    and "POST env f2 payload b1 = (reply2, b2)"
    and "reply_succeeded reply2"
    and "list_all (\<lambda>u. truthy (upsert_id u)) (upserts_of payload)"
  shows "reply2 = reply1"
proof -
  have valid: "truthy (Option.bind payload meetingId)"
  proof (rule ccontr)
    assume "\<not> truthy (Option.bind payload meetingId)"
    then have "reply1 = error_reply 400 ''meetingId is required.''"
      using assms(1) by (simp add: POST_def)
    then show False
      using assms(2) by (simp add: reply_succeeded_def error_reply_def)
  qed
  note first = POST_success_records [OF valid assms(1) assms(2) assms(5)]
  note second = POST_success_records [OF valid assms(3) assms(4) assms(5)]
  show ?thesis
  proof (cases "truthy (getConnectionString env)")
    case False
    then show ?thesis using first second by simp
  next
    case True
    have view: "connection_view b1 = attendance_table b1"
      using first True by (simp add: connection_view_def orDefault_def)
    show ?thesis
      using first second True replay_rows by (simp add: view)
  qed
qed


theorem replay_with_ids_is_idempotent_witness:
  "list_all (\<lambda>u. truthy (upsert_id u)) (upserts_of (Some update_ben)) \<and>
   fst (POST direct_environment no_faults (Some update_ben) example_store) =
     success_reply
       [\<lparr>row_id = ''r2'', row_member_id = Some ''m2'', row_guest_id = None,
         row_pipeliner_id = None, row_status = Present\<rparr>] [''no-such-row''] \<and>
   reply_succeeded (fst (POST direct_environment no_faults (Some update_ben) example_store)) \<and>
   reply_succeeded
     (fst (POST direct_environment no_faults (Some update_ben)
             (snd (POST direct_environment no_faults (Some update_ben) example_store)))) \<and>
   fst (POST direct_environment no_faults (Some update_ben)
          (snd (POST direct_environment no_faults (Some update_ben) example_store))) =
     fst (POST direct_environment no_faults (Some update_ben) example_store)"
proof -
  have ids: "list_all (\<lambda>u. truthy (upsert_id u)) (upserts_of (Some update_ben))"
    by (simp add: upserts_of_def update_ben_def ben_update_def orDefault_def truthy_def)
  have first: "fst (POST direct_environment no_faults (Some update_ben) example_store) =
     success_reply
       [\<lparr>row_id = ''r2'', row_member_id = Some ''m2'', row_guest_id = None,
         row_pipeliner_id = None, row_status = Present\<rparr>] [''no-such-row'']"
    by (simp add: store_eval example_requests)
  have ok1: "reply_succeeded
      (fst (POST direct_environment no_faults (Some update_ben) example_store))"
    by (simp add: first reply_succeeded_def success_reply_def)
  have ok2: "reply_succeeded
     (fst (POST direct_environment no_faults (Some update_ben)
             (snd (POST direct_environment no_faults (Some update_ben) example_store))))"
    by (simp add: reply_succeeded_def store_eval example_requests)
  note same = replay_with_ids_is_idempotent [where env = direct_environment
      and ?f1.0 = no_faults and ?f2.0 = no_faults and payload = "Some update_ben"
      and b = example_store, OF surjective_pairing ok1 surjective_pairing ok2 ids]
  show ?thesis
    using ids first ok1 ok2 same by blast
qed

text \<open>
  Claim C4 as stated fails for a row sent without an id. The request creates Ann's row;
  it succeeds, and so does its replay, but the two answers carry different ids, the
  generator having moved on. The same happens through the service client, and also when
  the table is put back to where it was before the first call.
\<close>

theorem replay_without_id_gets_new_id:
  "upserts_of (Some create_ann) = [ann_upsert] \<and> upsert_id ann_upsert = None \<and>
   fst (POST direct_environment no_faults (Some create_ann) example_store) =
     success_reply
       [\<lparr>row_id = ''uuid-'', row_member_id = Some ''m1'', row_guest_id = None,
         row_pipeliner_id = None, row_status = Present\<rparr>] [''no-such-row''] \<and>
   fst (POST direct_environment no_faults (Some create_ann)
          (snd (POST direct_environment no_faults (Some create_ann) example_store))) =
     success_reply
       [\<lparr>row_id = ''uuid-i'', row_member_id = Some ''m1'', row_guest_id = None,
         row_pipeliner_id = None, row_status = Present\<rparr>] [''no-such-row''] \<and>
   fst (POST direct_environment no_faults (Some create_ann)
          (snd (POST direct_environment no_faults (Some create_ann) example_store))) \<noteq>
     fst (POST direct_environment no_faults (Some create_ann) example_store) \<and>
   fst (POST direct_environment no_faults (Some create_ann)
          ((snd (POST direct_environment no_faults (Some create_ann) example_store))
             \<lparr>attendance_table := attendance_table example_store\<rparr>)) \<noteq>
     fst (POST direct_environment no_faults (Some create_ann) example_store) \<and>
   fst (POST service_environment no_faults (Some create_ann)
          (snd (POST service_environment no_faults (Some create_ann) example_store))) \<noteq>
     fst (POST service_environment no_faults (Some create_ann) example_store)"
  by (simp add: upserts_of_def store_eval example_requests)

end
